(* ===== verification/Prelude.thy ===== *)
theory Prelude
  imports Complex_Main
begin

text \<open>
  The prelude of the development: the result type of fallible Go code, the
  collections of simplification rules the component proofs share, and generic
  lemmas on lists, sums and association lists that are about no component.

  A Go \<open>error\<close> is represented by the text its \<open>Error()\<close> method gives. The
  repository compares errors only through that text (\<open>strings.Contains\<close> on
  \<open>err.Error()\<close>), and \<open>fmt.Errorf\<close> with \<open>%w\<close> or \<open>%v\<close> only ever prepends text, so
  nothing the code observes is lost.
\<close>

type_synonym go_error = string
type_synonym 'a result = "go_error + 'a"

named_theorems go_string_defs \<open>definitions of the Go string functions\<close>
named_theorems prog_simps \<open>equations that run or unfold request programs\<close>
named_theorems service_defs \<open>definitions of the service operations\<close>
named_theorems ctrl_defs \<open>definitions of the controller operations\<close>

text \<open>The value of a successful result; used in the callers that ignore the
  error and read Go's zero value instead.\<close>

definition result_or :: "'a \<Rightarrow> 'a result \<Rightarrow> 'a" where
  "result_or d r = (case r of Inl _ \<Rightarrow> d | Inr a \<Rightarrow> a)"

lemma result_or_simps [simp]:
  "result_or d (Inl e) = d"
  "result_or d (Inr a) = a"
  by (simp_all add: result_or_def)

definition is_ok :: "'a result \<Rightarrow> bool" where
  "is_ok r = (case r of Inl _ \<Rightarrow> False | Inr _ \<Rightarrow> True)"

lemma is_ok_simps [simp]:
  "is_ok (Inl e) \<longleftrightarrow> False"
  "is_ok (Inr a) \<longleftrightarrow> True"
  by (simp_all add: is_ok_def)

lemma is_okE: "is_ok r \<Longrightarrow> (\<And>a. r = Inr a \<Longrightarrow> P) \<Longrightarrow> P"
  by (cases r) auto

lemma not_is_okE: "\<not> is_ok r \<Longrightarrow> (\<And>e. r = Inl e \<Longrightarrow> P) \<Longrightarrow> P"
  by (cases r) auto

text \<open>Association lists stand for Go maps whose printing order matters.\<close>

fun alist_put :: "'k \<Rightarrow> 'v \<Rightarrow> ('k \<times> 'v) list \<Rightarrow> ('k \<times> 'v) list" where
  "alist_put k v [] = [(k, v)]"
| "alist_put k v ((k', v') # m) = (if k = k' then (k, v) # m else (k', v') # alist_put k v m)"

lemma map_of_alist_put [simp]: "map_of (alist_put k v m) = (map_of m)(k \<mapsto> v)"
  by (induction k v m rule: alist_put.induct) auto

lemma keys_alist_put: "fst ` set (alist_put k v m) = insert k (fst ` set m)"
  by (induction k v m rule: alist_put.induct) auto

lemma distinct_alist_put:
  "distinct (map fst m) \<Longrightarrow> distinct (map fst (alist_put k v m))"
proof (induction k v m rule: alist_put.induct)
  case (2 k v k' v' m)
  then show ?case using keys_alist_put [of k v m] by auto
qed simp

text \<open>Lists.\<close>

lemma dropWhile_snoc_stop: "\<not> P x \<Longrightarrow> dropWhile P (xs @ [x]) = dropWhile P xs @ [x]"
  by (induction xs) auto

lemma dropWhile_map_commute:
  assumes "\<And>x. P (f x) = P x"
  shows "dropWhile P (map f xs) = map f (dropWhile P xs)"
  by (induction xs) (auto simp: assms)

end
