(* ===== verification/GoNet.thy ===== *)
theory GoNet
  imports GoStrings "HOL-Library.Word"
begin

text \<open>
  The part of Go's packages \<open>net\<close> and \<open>net/netip\<close> that the repository calls:
  parsing of MAC addresses, IP addresses and CIDR prefixes, masks, containment
  and dotted-decimal printing. A Go \<open>net.IP\<close> or \<open>net.IPMask\<close> is a byte slice of
  length 4 or 16, here a list of 8-bit words; the nil slice is the empty list.
\<close>

unbundle bit_operations_syntax

type_synonym byte = "8 word"
type_synonym ip = "byte list"

section \<open>Hexadecimal digits\<close>

definition hex_val :: "char \<Rightarrow> nat option" where
  "hex_val c =
     (let n = (of_char c :: nat) in
      if 48 \<le> n \<and> n \<le> 57 then Some (n - 48)
      else if 97 \<le> n \<and> n \<le> 102 then Some (n - 87)
      else if 65 \<le> n \<and> n \<le> 70 then Some (n - 55)
      else None)"

definition is_hex :: "char \<Rightarrow> bool" where
  "is_hex c \<longleftrightarrow> hex_val c \<noteq> None"

section \<open>net.ParseMAC\<close>

text \<open>\<open>xtoi2(s, e)\<close>: two hexadecimal digits, followed by the separator when
  more text follows.\<close>

definition xtoi2_ok :: "string \<Rightarrow> char option \<Rightarrow> bool" where
  "xtoi2_ok s e \<longleftrightarrow>
     \<not> (length s > 2 \<and> Some (s ! 2) \<noteq> e) \<and>
     length s \<ge> 2 \<and> is_hex (s ! 0) \<and> is_hex (s ! 1)"

text \<open>The address is valid for 6, 8 or 20 bytes, as colon- or dash-separated
  bytes or as dot-separated pairs of bytes. Only whether parsing succeeds is
  used by the repository.\<close>

definition ParseMAC_ok :: "string \<Rightarrow> bool" where
  "ParseMAC_ok s =
     (if length s < 14 then False
      else if s ! 2 = CHR '':'' \<or> s ! 2 = CHR ''-'' then
        (if (length s + 1) mod 3 \<noteq> 0 then False
         else let n = (length s + 1) div 3 in
           if n \<noteq> 6 \<and> n \<noteq> 8 \<and> n \<noteq> 20 then False
           else list_all (\<lambda>i. xtoi2_ok (drop (3 * i) s) (Some (s ! 2))) [0..<n])
      else if s ! 4 = CHR ''.'' then
        (if (length s + 1) mod 5 \<noteq> 0 then False
         else let n = 2 * (length s + 1) div 5 in
           if n \<noteq> 6 \<and> n \<noteq> 8 \<and> n \<noteq> 20 then False
           else list_all (\<lambda>i. xtoi2_ok (take 2 (drop (5 * i) s)) None \<and>
                              xtoi2_ok (drop (5 * i + 2) s) (Some (s ! 4))) [0..<n div 2])
      else False)"

section \<open>netip.ParseAddr\<close>

datatype addr = Addr4 "byte list" | Addr6 "byte list" string

text \<open>\<open>parseIPv4Fields\<close>. The position \<open>pos\<close> is the number of fields saved so
  far. A dot at the start or right after a dot is a dot after no digit.\<close>

fun parseIPv4Fields :: "string \<Rightarrow> nat \<Rightarrow> nat \<Rightarrow> byte list \<Rightarrow> byte list option" where
  "parseIPv4Fields [] val digLen fields =
     (if length fields < 3 then None else Some (fields @ [word_of_nat val]))"
| "parseIPv4Fields (c # s) val digLen fields =
     (if is_digit c then
        (if digLen = 1 \<and> val = 0 then None
         else let v = val * 10 + digit_val c in
           if v > 255 then None else parseIPv4Fields s v (Suc digLen) fields)
      else if c = CHR ''.'' then
        (if digLen = 0 \<or> s = [] then None
         else if length fields = 3 then None
         else parseIPv4Fields s 0 0 (fields @ [word_of_nat val]))
      else None)"

fun scan_hex :: "string \<Rightarrow> nat \<Rightarrow> int \<Rightarrow> (nat \<times> int \<times> string) option" where
  "scan_hex [] off acc = Some (off, acc, [])"
| "scan_hex (c # s) off acc =
     (case hex_val c of
        None \<Rightarrow> Some (off, acc, c # s)
      | Some d \<Rightarrow>
          (if off > 3 then None
           else if acc * 16 + int d > 65535 then None
           else scan_hex s (Suc off) (acc * 16 + int d)))"

text \<open>The loop of \<open>parseIPv6\<close>: the bytes saved so far, the position of the
  ellipsis and the text still to read.\<close>

function parseIPv6_loop ::
  "byte list \<Rightarrow> nat option \<Rightarrow> string \<Rightarrow> (byte list \<times> nat option \<times> string) option" where
  "parseIPv6_loop ip ellipsis s =
     (if length ip < 16 then
        (case scan_hex s 0 0 of
           None \<Rightarrow> None
         | Some (off, acc, rest) \<Rightarrow>
             if off = 0 then None
             else if rest \<noteq> [] \<and> hd rest = CHR ''.'' then
               (if ellipsis = None \<and> length ip \<noteq> 12 then None
                else if length ip + 4 > 16 then None
                else (case parseIPv4Fields s 0 0 [] of
                        None \<Rightarrow> None
                      | Some f \<Rightarrow> Some (ip @ f, ellipsis, [])))
             else if rest = [] then
               Some (ip @ [word_of_int (acc div 256), word_of_int acc], ellipsis, [])
             else if hd rest \<noteq> CHR '':'' then None
             else if tl rest = [] then None
             else if hd (tl rest) = CHR '':'' then
               (if ellipsis \<noteq> None then None
                else if tl (tl rest) = [] then
                  Some (ip @ [word_of_int (acc div 256), word_of_int acc], Some (length ip + 2), [])
                else parseIPv6_loop (ip @ [word_of_int (acc div 256), word_of_int acc])
                       (Some (length ip + 2)) (tl (tl rest)))
             else parseIPv6_loop (ip @ [word_of_int (acc div 256), word_of_int acc]) ellipsis (tl rest))
      else Some (ip, ellipsis, s))"
  by pat_completeness auto
termination
  by (relation "measure (\<lambda>(ip, ellipsis, s). 16 - length ip)") auto

declare parseIPv6_loop.simps [simp del]

text \<open>The text before the first \<open>sep\<close>, and the text after it if there is one.\<close>

fun Cut :: "char \<Rightarrow> string \<Rightarrow> string \<times> string option" where
  "Cut sep [] = ([], None)"
| "Cut sep (c # s) =
     (if c = sep then ([], Some s) else (let (a, b) = Cut sep s in (c # a, b)))"

definition parseIPv6_bytes :: "string \<Rightarrow> byte list option" where
  "parseIPv6_bytes s =
     (let lead = has_prefix s ''::''; body = (if lead then drop 2 s else s) in
      if lead \<and> body = [] then Some (replicate 16 0)
      else case parseIPv6_loop [] (if lead then Some 0 else None) body of
        None \<Rightarrow> None
      | Some (ip, ellipsis, rest) \<Rightarrow>
          if rest \<noteq> [] then None
          else if length ip < 16 then
            (case ellipsis of
               None \<Rightarrow> None
             | Some e \<Rightarrow> Some (take e ip @ replicate (16 - length ip) 0 @ drop e ip))
          else if ellipsis \<noteq> None then None
          else Some ip)"

definition parseIPv6 :: "string \<Rightarrow> addr option" where
  "parseIPv6 s =
     (case Cut (CHR ''%'') s of
        (t, None) \<Rightarrow> map_option (\<lambda>b. Addr6 b []) (parseIPv6_bytes t)
      | (t, Some zone) \<Rightarrow>
          if zone = [] then None else map_option (\<lambda>b. Addr6 b zone) (parseIPv6_bytes t))"

definition parseIPv4 :: "string \<Rightarrow> addr option" where
  "parseIPv4 s = map_option Addr4 (parseIPv4Fields s 0 0 [])"

text \<open>\<open>ParseAddr\<close> looks for the first dot, colon or percent sign.\<close>

fun ParseAddr_scan :: "string \<Rightarrow> string \<Rightarrow> addr option" where
  "ParseAddr_scan s [] = None"
| "ParseAddr_scan s (c # r) =
     (if c = CHR ''.'' then parseIPv4 s
      else if c = CHR '':'' then parseIPv6 s
      else if c = CHR ''%'' then None
      else ParseAddr_scan s r)"

definition ParseAddr :: "string \<Rightarrow> addr option" where
  "ParseAddr s = ParseAddr_scan s s"

definition v4InV6Prefix :: "byte list" where
  "v4InV6Prefix = [0, 0, 0, 0, 0, 0, 0, 0, 0, 0, 255, 255]"

fun Zone :: "addr \<Rightarrow> string" where
  "Zone (Addr4 b) = []"
| "Zone (Addr6 b z) = z"

fun BitLen :: "addr \<Rightarrow> nat" where
  "BitLen (Addr4 b) = 32"
| "BitLen (Addr6 b z) = 128"

fun As16 :: "addr \<Rightarrow> byte list" where
  "As16 (Addr4 b) = v4InV6Prefix @ b"
| "As16 (Addr6 b z) = b"

section \<open>net.ParseIP, To4, masks and ParseCIDR\<close>

definition ParseIP :: "string \<Rightarrow> ip" where
  "ParseIP s =
     (case ParseAddr s of
        None \<Rightarrow> []
      | Some a \<Rightarrow> if Zone a \<noteq> [] then [] else As16 a)"

definition To4 :: "ip \<Rightarrow> ip" where
  "To4 ip =
     (if length ip = 4 then ip
      else if length ip = 16 \<and> take 12 ip = v4InV6Prefix then drop 12 ip
      else [])"

text \<open>\<open>CIDRMask(ones, bits)\<close> as its loop over the bytes of the mask.\<close>

fun CIDRMask :: "nat \<Rightarrow> nat \<Rightarrow> byte list" where
  "CIDRMask ones 0 = []"
| "CIDRMask ones (Suc l) =
     (if ones \<ge> 8 then 255 # CIDRMask (ones - 8) l
      else NOT (drop_bit ones 255) # CIDRMask 0 l)"

definition IP_Mask :: "ip \<Rightarrow> byte list \<Rightarrow> ip" where
  "IP_Mask ip msk =
     (let m = (if length msk = 16 \<and> length ip = 4 \<and> list_all (\<lambda>b. b = 255) (take 12 msk)
               then drop 12 msk else msk);
          a = (if length m = 4 \<and> length ip = 16 \<and> take 12 ip = v4InV6Prefix
               then drop 12 ip else ip)
      in if length a \<noteq> length m then [] else map2 (\<lambda>x y. x AND y) a m)"

record IPNet =
  net_IP :: ip
  net_Mask :: "byte list"

text \<open>\<open>dtoi\<close>: a decimal number below \<open>0xFFFFFF\<close>, at least one digit, with the
  number of bytes it takes.\<close>

fun dtoi_loop :: "string \<Rightarrow> int \<Rightarrow> nat \<Rightarrow> (int \<times> nat) option" where
  "dtoi_loop [] n i = Some (n, i)"
| "dtoi_loop (c # s) n i =
     (if is_digit c then
        (let n' = n * 10 + int (digit_val c) in
         if n' \<ge> 16777215 then None else dtoi_loop s n' (Suc i))
      else Some (n, i))"

definition dtoi :: "string \<Rightarrow> (int \<times> nat) option" where
  "dtoi s =
     (case dtoi_loop s 0 0 of
        None \<Rightarrow> None
      | Some (n, i) \<Rightarrow> if i = 0 then None else Some (n, i))"

definition ParseCIDR :: "string \<Rightarrow> IPNet result" where
  "ParseCIDR s =
     (let fail = Inl (''invalid CIDR address: '' @ s) in
      case Cut (CHR ''/'') s of
        (addr, None) \<Rightarrow> fail
      | (addr, Some msk) \<Rightarrow>
          (case ParseAddr addr of
             None \<Rightarrow> fail
           | Some a \<Rightarrow>
               if Zone a \<noteq> [] then fail
               else (case dtoi msk of
                       None \<Rightarrow> fail
                     | Some (n, i) \<Rightarrow>
                         (if i \<noteq> length msk \<or> n > int (BitLen a) then fail
                          else let m = CIDRMask (nat n) (BitLen a div 8)
                               in Inr \<lparr>net_IP = IP_Mask (As16 a) m, net_Mask = m\<rparr>))))"

text \<open>\<open>IPNet.Contains\<close> with \<open>networkNumberAndMask\<close>.\<close>

definition networkNumberAndMask :: "IPNet \<Rightarrow> ip \<times> byte list" where
  "networkNumberAndMask n =
     (let ip4 = To4 (net_IP n);
          ip = (if ip4 \<noteq> [] then ip4 else net_IP n);
          m = net_Mask n
      in if ip4 = [] \<and> length (net_IP n) \<noteq> 16 then ([], [])
         else if length m = 4 then (if length ip \<noteq> 4 then ([], []) else (ip, m))
         else if length m = 16 then (ip, if length ip = 4 then drop 12 m else m)
         else ([], []))"

definition IPNet_Contains :: "IPNet \<Rightarrow> ip \<Rightarrow> bool" where
  "IPNet_Contains n ip0 =
     (let (nn, m) = networkNumberAndMask n;
          ip = (if To4 ip0 \<noteq> [] then To4 ip0 else ip0)
      in if length ip \<noteq> length nn then False
         else list_all (\<lambda>i. nn ! i AND m ! i = ip ! i AND m ! i) [0..<length ip])"

text \<open>\<open>IP.String\<close> of a 4-byte address.\<close>

definition IPv4_String :: "ip \<Rightarrow> string" where
  "IPv4_String ip = Join (map (\<lambda>b. nat_digits (unat b)) ip) ''.''"

lemmas go_net_defs =
  hex_val_def is_hex_def xtoi2_ok_def ParseMAC_ok_def parseIPv6_bytes_def parseIPv6_def
  parseIPv4_def ParseAddr_def v4InV6Prefix_def ParseIP_def To4_def IP_Mask_def dtoi_def
  ParseCIDR_def networkNumberAndMask_def IPNet_Contains_def IPv4_String_def

section \<open>Printing and parsing back\<close>

lemma is_digit_not_special [simp]:
  "is_digit c \<Longrightarrow> c \<noteq> CHR ''.''" "is_digit c \<Longrightarrow> c \<noteq> CHR '':''" "is_digit c \<Longrightarrow> c \<noteq> CHR ''%''"
  by (auto simp: is_digit_def)

lemma nat_digits_cases:
  assumes "v < 1000"
  shows "nat_digits v =
    (if v < 10 then [digit_char v]
     else if v < 100 then [digit_char (v div 10), digit_char (v mod 10)]
     else [digit_char (v div 100), digit_char (v div 10 mod 10), digit_char (v mod 10)])"
  using assms by (auto simp: nat_digits.simps div_mult2_eq [symmetric])

text \<open>Reading back the printed octet, whatever follows it.\<close>

lemma parseIPv4Fields_octet:
  assumes "v < 256"
  shows "\<exists>l. l > 0 \<and> parseIPv4Fields (nat_digits v @ r) 0 0 fs = parseIPv4Fields r v l fs"
proof -
  have *: "parseIPv4Fields (digit_char d # t) u l fs =
      (if l = 1 \<and> u = 0 then None else if u * 10 + d > 255 then None
       else parseIPv4Fields t (u * 10 + d) (Suc l) fs)" if "d < 10" for d t u l fs
    using that by (simp add: Let_def)
  consider "v < 10" | "10 \<le> v" "v < 100" | "100 \<le> v" by linarith
  then show ?thesis
  proof cases
    case 1
    then show ?thesis by (intro exI [of _ 1]) (simp add: nat_digits_cases *)
  next
    case 2
    then have nd: "nat_digits v = [digit_char (v div 10), digit_char (v mod 10)]"
      by (simp add: nat_digits_cases)
    have "v div 10 < 10" "v div 10 \<noteq> 0" "v div 10 * 10 + v mod 10 = v" "\<not> 255 < v div 10"
      using 2 by auto
    then show ?thesis unfolding nd using assms
      by (intro exI [of _ "Suc (Suc 0)"]) (simp add: * del: parseIPv4Fields.simps)
  next
    case 3
    then have nd: "nat_digits v = [digit_char (v div 100), digit_char (v div 10 mod 10), digit_char (v mod 10)]"
      using assms by (simp add: nat_digits_cases)
    have "v div 100 * 10 + v div 10 mod 10 = v div 10"
      using div_mult2_eq [of v 10 10] div_mult_mod_eq [of "v div 10" 10] by simp
    then have h: "(v div 100 * 10 + v div 10 mod 10) * 10 + v mod 10 = v" by simp
    have "v div 100 < 10" "v div 100 \<noteq> 0" "\<not> 255 < v div 100"
      using 3 assms by auto
    moreover have "\<not> 255 < v div 100 * 10 + v div 10 mod 10" using h assms by linarith
    ultimately show ?thesis unfolding nd using assms h
      by (intro exI [of _ "Suc (Suc (Suc 0))"]) (simp add: * del: parseIPv4Fields.simps)
  qed
qed

lemma parseIPv4Fields_dot:
  "0 < l \<Longrightarrow> r \<noteq> [] \<Longrightarrow> length fs < 3 \<Longrightarrow>
   parseIPv4Fields (CHR ''.'' # r) v l fs = parseIPv4Fields r 0 0 (fs @ [word_of_nat v])"
  by (simp add: is_digit_def)

lemma parseIPv4Fields_string:
  fixes a b c d :: byte
  shows "parseIPv4Fields (IPv4_String [a, b, c, d]) 0 0 [] = Some [a, b, c, d]"
proof -
  have lt: "unat x < 256" for x :: byte
    using unsigned_less [of x, where ?'a = nat] by simp
  let ?D = "\<lambda>x :: byte. nat_digits (unat x)"
  obtain l1 where l1: "l1 > 0" "parseIPv4Fields (?D a @ ''.'' @ ?D b @ ''.'' @ ?D c @ ''.'' @ ?D d) 0 0 [] =
      parseIPv4Fields (''.'' @ ?D b @ ''.'' @ ?D c @ ''.'' @ ?D d) (unat a) l1 []"
    using parseIPv4Fields_octet [OF lt] by blast
  obtain l2 where l2: "l2 > 0" "parseIPv4Fields (?D b @ ''.'' @ ?D c @ ''.'' @ ?D d) 0 0 [a] =
      parseIPv4Fields (''.'' @ ?D c @ ''.'' @ ?D d) (unat b) l2 [a]"
    using parseIPv4Fields_octet [OF lt] by blast
  obtain l3 where l3: "l3 > 0" "parseIPv4Fields (?D c @ ''.'' @ ?D d) 0 0 [a, b] =
      parseIPv4Fields (''.'' @ ?D d) (unat c) l3 [a, b]"
    using parseIPv4Fields_octet [OF lt] by blast
  obtain l4 where l4: "l4 > 0" "parseIPv4Fields (?D d @ []) 0 0 [a, b, c] =
      parseIPv4Fields [] (unat d) l4 [a, b, c]"
    using parseIPv4Fields_octet [OF lt] by blast
  show ?thesis
    using l1 l2 l3 l4 by (simp add: IPv4_String_def parseIPv4Fields_dot del: parseIPv4Fields.simps(2))
qed

lemma ParseAddr_scan_digits:
  "list_all is_digit ds \<Longrightarrow> ParseAddr_scan s (ds @ CHR ''.'' # r) = parseIPv4 s"
  by (induction ds) auto

lemma ParseIP_IPv4_String:
  fixes a b c d :: byte
  shows "ParseIP (IPv4_String [a, b, c, d]) = v4InV6Prefix @ [a, b, c, d]"
proof -
  have "ParseAddr (IPv4_String [a, b, c, d]) = parseIPv4 (IPv4_String [a, b, c, d])"
    using ParseAddr_scan_digits [OF nat_digits_are_digits]
    by (simp add: ParseAddr_def IPv4_String_def)
  then show ?thesis
    by (simp add: ParseIP_def parseIPv4_def parseIPv4Fields_string)
qed

lemma To4_ParseIP_IPv4_String:
  assumes "length ip = 4"
  shows "To4 (ParseIP (IPv4_String ip)) = ip"
proof -
  obtain a b c d where "ip = [a, b, c, d]"
    using assms by (auto simp: length_Suc_conv numeral_eq_Suc)
  then show ?thesis by (simp add: ParseIP_IPv4_String To4_def v4InV6Prefix_def)
qed

end
