(* ===== verification/SubnetUtil.thy ===== *)
theory SubnetUtil
  imports GoNet
begin

text \<open>
  The package \<open>internal/util/subnet\<close>: the gateway and the address pool of a
  Kea subnet, computed from its CIDR prefix. Octets are 8-bit words, so
  \<open>gateway[3]++\<close>, \<open>poolStart[3] += 4\<close> and \<open>poolEnd[3]--\<close> wrap as Go's bytes do.

  The lemmas read addresses as 32-bit numbers (\<open>ip_val\<close>) and show where the
  computed addresses lie: for prefixes of at most 29 bits the gateway and the
  whole pool are inside the network, in the order gateway, start, end.
\<close>

section \<open>The code\<close>

record PoolConfig =
  pc_Gateway :: string
  pc_PoolStart :: string
  pc_PoolEnd :: string

text \<open>\<open>isIPLess\<close> compares the four octets from the first.\<close>

fun isIPLess :: "ip \<Rightarrow> ip \<Rightarrow> bool" where
  "isIPLess (a # as) (b # bs) =
     (if a < b then True else if a > b then False else isIPLess as bs)"
| "isIPLess _ _ = False"

definition broadcastOf :: "ip \<Rightarrow> byte list \<Rightarrow> ip" where
  "broadcastOf ip msk = map (\<lambda>i. ip ! i OR NOT (msk ! i)) [0..<4]"

definition CalculatePoolFromCIDR :: "string \<Rightarrow> PoolConfig result" where
  "CalculatePoolFromCIDR cidr =
     (case ParseCIDR cidr of
        Inl err \<Rightarrow> Inl (''invalid CIDR '' @ Quote cidr @ '': '' @ err)
      | Inr ipnet \<Rightarrow>
          (let ip = To4 (net_IP ipnet) in
           if ip = [] then Inl (''only IPv4 CIDRs are supported: '' @ cidr)
           else
             let broadcast = broadcastOf ip (net_Mask ipnet);
                 gateway = ip[3 := ip ! 3 + 1];
                 poolStart = ip[3 := ip ! 3 + 4];
                 poolEnd = broadcast[3 := broadcast ! 3 - 1]
             in if \<not> isIPLess poolStart poolEnd
                then Inl (''network '' @ cidr @ '' is too small for a valid pool'')
                else Inr \<lparr>pc_Gateway = IPv4_String gateway,
                          pc_PoolStart = IPv4_String poolStart,
                          pc_PoolEnd = IPv4_String poolEnd\<rparr>))"

section \<open>Addresses as numbers\<close>

fun ip_val :: "ip \<Rightarrow> nat" where
  "ip_val [] = 0"
| "ip_val (b # bs) = unat b * 256 ^ length bs + ip_val bs"

lemma unat_byte_less [simp]: "unat (b :: byte) < 256"
  using unsigned_less [of b, where ?'a = nat] by simp

lemma ip_val_less: "ip_val bs < 256 ^ length bs"
proof (induction bs)
  case (Cons b bs)
  have "unat b * 256 ^ length bs + ip_val bs < (unat b + 1) * 256 ^ length bs"
    using Cons by simp
  also have "\<dots> \<le> 256 * 256 ^ length bs"
    using unat_byte_less [of b] by (intro mult_right_mono) linarith+
  finally show ?case by simp
qed simp

lemma isIPLess_ip_val: "length a = length b \<Longrightarrow> isIPLess a b \<longleftrightarrow> ip_val a < ip_val b"
proof (induction a b rule: isIPLess.induct)
  case (1 a as b bs)
  then have len: "length as = length bs" by simp
  let ?B = "256 ^ length bs :: nat"
  have *: "unat x * ?B + ip_val xs < unat y * ?B + ip_val ys"
    if "x < y" "length xs = length bs" for x y :: byte and xs ys
  proof -
    have "unat x + 1 \<le> unat y" using that(1) by (simp add: word_less_nat_alt)
    then have "(unat x + 1) * ?B \<le> unat y * ?B" by (rule mult_right_mono) simp
    moreover have "ip_val xs < ?B" using ip_val_less [of xs] that(2) by simp
    ultimately show ?thesis by simp
  qed
  show ?case
  proof (cases a b rule: linorder_cases)
    case less
    then show ?thesis using * [OF less, of as bs] len by simp
  next
    case equal
    then show ?thesis using 1 len by simp
  next
    case greater
    then show ?thesis using * [OF greater, of bs as] len by simp
  qed
qed auto

section \<open>One octet under a mask\<close>

definition omask :: "nat \<Rightarrow> byte" where
  "omask k = NOT (drop_bit k 255)"

lemma byte_255: "(255 :: byte) = Bit_Operations.mask 8"
  by (simp add: mask_eq_exp_minus_1)

lemma omask_eq: "k \<le> 8 \<Longrightarrow> omask k = NOT (Bit_Operations.mask (8 - k))"
  by (intro bit_word_eqI) (auto simp: omask_def byte_255 bit_simps)

lemma not_omask: "k \<le> 8 \<Longrightarrow> NOT (omask k) = Bit_Operations.mask (8 - k)"
  by (simp add: omask_eq)

lemma unat_byte_mask: "j \<le> 8 \<Longrightarrow> unat (Bit_Operations.mask j :: byte) = 2 ^ j - 1"
proof -
  assume "j \<le> 8"
  then have "j = 0 \<or> j = 1 \<or> j = 2 \<or> j = 3 \<or> j = 4 \<or> j = 5 \<or> j = 6 \<or> j = 7 \<or> j = 8" by arith
  then show ?thesis by (auto simp: mask_eq_exp_minus_1)
qed

lemma octet_add:
  fixes x i :: byte
  assumes "x AND i = 0"
  shows "x + i = x OR i" "unat (x + i) = unat x + unat i"
proof -
  show "x + i = x OR i" using assms by (rule disjunctive_add_eq_or)
  then have "x \<le> x + i" by (simp add: le_word_or2)
  then show "unat (x + i) = unat x + unat i" by (simp only: unat_plus_simple)
qed

lemma octet_broadcast:
  assumes "k \<le> 8"
  shows "unat ((y AND omask k) OR NOT (omask k)) = unat (y AND omask k) + (2 ^ (8 - k) - 1)"
proof -
  have d: "(y AND omask k) AND NOT (omask k) = 0"
    by (intro bit_word_eqI) (auto simp: bit_simps)
  show ?thesis
    using octet_add [OF d] assms by (simp add: not_omask unat_byte_mask)
qed

lemma small_and_omask:
  fixes i :: byte
  assumes "k \<le> 8" "unat i < 2 ^ (8 - k)"
  shows "i AND omask k = 0"
proof -
  have "unat (take_bit (8 - k) i) = unat i"
    using assms(2) by (simp add: unsigned_take_bit_eq take_bit_nat_eq_self)
  then have "take_bit (8 - k) i = i" by (simp only: unsigned_word_eqI)
  then have "i = i AND Bit_Operations.mask (8 - k)" by (simp add: take_bit_eq_mask)
  then show ?thesis
    using assms(1) by (metis omask_eq bit.conj_cancel_right bit.conj_zero_right and.assoc)
qed

lemma octet_offset:
  fixes i y :: byte
  assumes "k \<le> 8" "unat i < 2 ^ (8 - k)"
  shows "unat ((y AND omask k) + i) = unat (y AND omask k) + unat i"
    and "((y AND omask k) + i) AND omask k = y AND omask k"
proof -
  have z: "i AND omask k = 0" using assms by (rule small_and_omask)
  then have d: "(y AND omask k) AND i = 0"
    by (metis and.assoc and.commute bit.conj_zero_right)
  show "unat ((y AND omask k) + i) = unat (y AND omask k) + unat i"
    using octet_add(2) [OF d] .
  show "((y AND omask k) + i) AND omask k = y AND omask k"
    using octet_add(1) [OF d] z by (simp add: bit.conj_disj_distrib2 and.assoc)
qed

section \<open>Networks\<close>

lemma CIDRMask_length [simp]: "length (CIDRMask p l) = l"
  by (induction p l rule: CIDRMask.induct) auto

lemma and_255 [simp]: "(y :: byte) AND 255 = y"
  by (intro bit_word_eqI) (auto simp: byte_255 bit_simps)

lemma or_not_255 [simp]: "(y :: byte) OR - 256 = y"
proof -
  have "(- 256 :: byte) = 0" by simp
  then show ?thesis by (simp only: or.right_neutral)
qed

lemma CIDRMask_zero: "CIDRMask 0 l = replicate l 0"
proof (induction l)
  case (Suc l)
  then show ?case by simp
qed simp

lemma map2_and_zero: "map2 (\<lambda>x y. x AND y) b (replicate (length b) (0 :: byte)) = replicate (length b) 0"
  by (induction b) auto

lemma ip_val_zeros: "ip_val (replicate l 0) = 0"
  by (induction l) auto

lemma ip_val_ones: "ip_val (replicate l (- 1)) = 256 ^ l - 1"
proof (induction l)
  case (Suc l)
  have "(256 :: nat) ^ l \<ge> 1" by simp
  moreover have "unat (- 1 :: byte) = unat (255 :: byte)" by (rule arg_cong) simp
  ultimately show ?case using Suc by simp
qed simp

lemma map2_or_not_zero:
  "map2 (\<lambda>x y. x OR NOT y) (replicate l 0) (replicate l (0 :: byte)) = replicate l (- 1)"
  by (induction l) auto

text \<open>The broadcast address of a network with \<open>p\<close> prefix bits is the network's
  number plus its size minus one.\<close>

lemma ip_val_broadcast:
  "p \<le> 8 * length b \<Longrightarrow>
   ip_val (map2 (\<lambda>x y. x OR NOT y) (map2 (\<lambda>x y. x AND y) b (CIDRMask p (length b))) (CIDRMask p (length b)))
     = ip_val (map2 (\<lambda>x y. x AND y) b (CIDRMask p (length b))) + (2 ^ (8 * length b - p) - 1)"
proof (induction b arbitrary: p)
  case (Cons y b)
  show ?case
  proof (cases "p \<ge> 8")
    case True
    have "8 * length (y # b) - p = 8 * length b - (p - 8)" "p - 8 \<le> 8 * length b"
      using True Cons.prems by auto
    moreover obtain q where "(2 :: nat) ^ (8 * length b + 8 - p) = Suc q"
      by (metis not0_implies_Suc power_not_zero zero_neq_numeral)
    ultimately show ?thesis using True Cons.IH [of "p - 8"] by simp
  next
    case False
    let ?l = "length b"
    obtain P where P: "(2 :: nat) ^ (8 - p) = Suc P"
      by (metis not0_implies_Suc power_not_zero zero_neq_numeral)
    obtain Q where Q: "(256 :: nat) ^ ?l = Suc Q"
      by (metis not0_implies_Suc power_not_zero zero_neq_numeral)
    have "8 * length (y # b) - p = (8 - p) + 8 * ?l" using False by simp
    then have pow: "(2 :: nat) ^ (8 * length (y # b) - p) = Suc P * Suc Q"
      by (simp add: power_add power_mult P Q)
    have m: "NOT (drop_bit p 255 :: byte) = omask p" by (simp add: omask_def)
    have "ip_val (map2 (\<lambda>x y. x OR NOT y) (map2 (\<lambda>x y. x AND y) (y # b) (CIDRMask p (length (y # b))))
            (CIDRMask p (length (y # b))))
        = unat ((y AND omask p) OR NOT (omask p)) * Suc Q + Q"
      using False ip_val_ones [of ?l]
      by (simp add: m CIDRMask_zero map2_and_zero map2_or_not_zero Q del: mult_Suc_right)
    also have "unat ((y AND omask p) OR NOT (omask p)) = unat (y AND omask p) + P"
      using octet_broadcast [of p y] False P by simp
    finally show ?thesis
      using False pow
      by (simp add: m CIDRMask_zero map2_and_zero ip_val_zeros Q algebra_simps)
  qed
qed simp

text \<open>A parsed prefix whose mask has four bytes is an IPv4 network: four address
  bytes under a mask of at most 32 bits.\<close>

lemma parseIPv4Fields_length:
  "parseIPv4Fields s val dl fs = Some r \<Longrightarrow> length fs \<le> 3 \<Longrightarrow> length r = 4"
  by (induction s val dl fs rule: parseIPv4Fields.induct)
    (auto simp: Let_def split: if_splits)

lemma v4InV6Prefix_length [simp]: "length v4InV6Prefix = 12"
  by (simp add: v4InV6Prefix_def)

lemma parseIPv4_shape: "parseIPv4 s = Some a \<Longrightarrow> \<exists>b. a = Addr4 b \<and> length b = 4"
  by (auto simp: parseIPv4_def dest!: parseIPv4Fields_length)

lemma parseIPv6_shape: "parseIPv6 s = Some a \<Longrightarrow> \<exists>b z. a = Addr6 b z"
  by (auto simp: parseIPv6_def split: prod.splits option.splits if_splits)

lemma ParseAddr_scan_shape:
  "ParseAddr_scan s r = Some a \<Longrightarrow> (\<exists>b. a = Addr4 b \<and> length b = 4) \<or> (\<exists>b z. a = Addr6 b z)"
  by (induction s r rule: ParseAddr_scan.induct)
    (auto split: if_splits dest: parseIPv4_shape parseIPv6_shape)

lemma ParseCIDR_v4:
  assumes "ParseCIDR cidr = Inr n" "length (net_Mask n) = 4"
  obtains b p where "length b = 4" "p \<le> 32" "net_Mask n = CIDRMask p 4"
    "net_IP n = map2 (\<lambda>x y. x AND y) b (CIDRMask p 4)"
proof -
  from assms(1) obtain addr a m where a: "ParseAddr addr = Some a"
    and m: "m \<le> int (BitLen a)"
    and n: "n = \<lparr>net_IP = IP_Mask (As16 a) (CIDRMask (nat m) (BitLen a div 8)),
                net_Mask = CIDRMask (nat m) (BitLen a div 8)\<rparr>"
    by (auto simp: ParseCIDR_def Let_def not_less split: prod.splits option.splits if_splits)
  from a have "(\<exists>b. a = Addr4 b \<and> length b = 4) \<or> (\<exists>b z. a = Addr6 b z)"
    unfolding ParseAddr_def by (rule ParseAddr_scan_shape)
  with assms(2) n obtain b where b: "a = Addr4 b" "length b = 4" by auto
  have "IP_Mask (v4InV6Prefix @ b) (CIDRMask (nat m) 4) = map2 (\<lambda>x y. x AND y) b (CIDRMask (nat m) 4)"
    using b(2) by (simp add: IP_Mask_def Let_def)
  then show thesis
    using that [of b "nat m"] b m n by simp
qed

lemma omask_bounds [simp]: "omask 8 = 255" "omask 0 = 0"
  by (simp_all add: omask_def)

lemma CIDRMask_4:
  "CIDRMask p 4 = [omask (min 8 p), omask (min 8 (p - 8)), omask (min 8 (p - 16)), omask (min 8 (p - 24))]"
proof -
  have *: "CIDRMask q (Suc l) = omask (min 8 q) # CIDRMask (q - 8) l" for q l
    by (cases "8 \<le> q") (simp_all add: min_def omask_def)
  have "CIDRMask p 4 = CIDRMask p (Suc (Suc (Suc (Suc 0))))" by (simp add: numeral_eq_Suc)
  then show ?thesis by (simp only: * CIDRMask.simps(1)) simp
qed

section \<open>The pool of a network with at most 29 prefix bits\<close>

text \<open>The last octet of the network address leaves room for the offsets 1 and 4,
  and the last octet of the broadcast address can be decremented.\<close>

lemma network_offset:
  assumes b: "length b = 4" and p: "p \<le> 29" and i: "i < 8"
  defines "net \<equiv> map2 (\<lambda>x y. x AND y) b (CIDRMask p 4)"
  shows "ip_val (net[3 := net ! 3 + word_of_nat i]) = ip_val net + i"
    and "map2 (\<lambda>x y. x AND y) (net[3 := net ! 3 + word_of_nat i]) (CIDRMask p 4) = net"
proof -
  obtain b0 b1 b2 b3 where b': "b = [b0, b1, b2, b3]"
    using b by (auto simp: length_Suc_conv numeral_eq_Suc)
  have k: "p - 24 \<le> 8" "min 8 (p - 24) = p - 24" using p by auto
  have u: "unat (word_of_nat i :: byte) = i" using i by (simp add: unsigned_of_nat take_bit_nat_eq_self)
  have "(2 :: nat) ^ 3 \<le> 2 ^ (8 - (p - 24))" using p by (intro power_increasing) auto
  then have i': "unat (word_of_nat i :: byte) < 2 ^ (8 - (p - 24))" using i u by simp
  note o = octet_offset [OF k(1) i', of b3]
  have n: "net = [b0 AND omask (min 8 p), b1 AND omask (min 8 (p - 8)),
    b2 AND omask (min 8 (p - 16)), b3 AND omask (p - 24)]"
    by (simp add: net_def b' CIDRMask_4 k)
  show "ip_val (net[3 := net ! 3 + word_of_nat i]) = ip_val net + i"
    using o(1) u by (simp add: n)
  show "map2 (\<lambda>x y. x AND y) (net[3 := net ! 3 + word_of_nat i]) (CIDRMask p 4) = net"
    using o(2) by (simp add: n CIDRMask_4 k and.assoc)
qed

lemma broadcastOf_map2:
  assumes "length ip = 4" "length m = 4"
  shows "broadcastOf ip m = map2 (\<lambda>x y. x OR NOT y) ip m"
  using assms by (auto simp: broadcastOf_def length_Suc_conv numeral_eq_Suc upt_rec)

lemma last_octet_decrement:
  assumes "length ip = 4" "ip ! 3 \<noteq> 0"
  shows "ip_val (ip[3 := ip ! 3 - 1]) = ip_val ip - 1"
proof -
  obtain a b c d where ip: "ip = [a, b, c, d]"
    using assms(1) by (auto simp: length_Suc_conv numeral_eq_Suc)
  have "unat (d - 1) = unat d - 1" using assms(2) ip by (simp add: unat_minus_one)
  moreover have "unat d > 0" using assms(2) ip by (simp add: unat_gt_0)
  ultimately show ?thesis using ip by simp
qed

lemma or_not_and_absorb: "((x :: byte) AND m OR NOT m) AND m = x AND m"
  by (intro bit_word_eqI) (auto simp: bit_simps)

lemma pool_end_props:
  assumes b: "length b = 4" and p: "p \<le> 29"
  defines "net \<equiv> map2 (\<lambda>x y. x AND y) b (CIDRMask p 4)"
  defines "bc \<equiv> map2 (\<lambda>x y. x OR NOT y) net (CIDRMask p 4)"
  shows "ip_val (bc[3 := bc ! 3 - 1]) = ip_val net + 2 ^ (32 - p) - 2"
    and "map2 (\<lambda>x y. x AND y) (bc[3 := bc ! 3 - 1]) (CIDRMask p 4) = net"
proof -
  obtain b0 b1 b2 b3 where b': "b = [b0, b1, b2, b3]"
    using b by (auto simp: length_Suc_conv numeral_eq_Suc)
  have k: "p - 24 \<le> 8" "min 8 (p - 24) = p - 24" using p by auto
  let ?j = "8 - (p - 24)" and ?d = "b3 AND omask (p - 24)"
  let ?i = "Bit_Operations.mask ?j - 1 :: byte"
  have j: "?j \<le> 8" "(2 :: nat) ^ 3 \<le> 2 ^ ?j"
    by simp (rule power_increasing, use p in simp_all)
  then have uj: "unat (Bit_Operations.mask ?j :: byte) = 2 ^ ?j - 1" by (intro unat_byte_mask)
  then have nz: "(Bit_Operations.mask ?j :: byte) \<noteq> 0" using j by (auto simp flip: unat_gt_0)
  then have ui: "unat ?i = 2 ^ ?j - 2" using uj unat_minus_one [OF nz] by arith
  then have i: "unat ?i < 2 ^ ?j" using j by simp
  have dis: "?d AND NOT (omask (p - 24)) = 0" by (intro bit_word_eqI) (auto simp: bit_simps)
  have bc3: "bc ! 3 - 1 = ?d + ?i"
    using octet_add(1) [OF dis] by (simp add: bc_def net_def b' CIDRMask_4 k not_omask)
  have bcnz: "bc ! 3 \<noteq> 0"
    using octet_broadcast [OF k(1), of b3] j by (auto simp: bc_def net_def b' CIDRMask_4 k simp flip: unat_eq_0)
  have len: "length bc = 4" by (simp add: bc_def net_def b)
  have "ip_val bc = ip_val net + (2 ^ (32 - p) - 1)"
    using ip_val_broadcast [of p b] b p by (simp add: bc_def net_def)
  then show "ip_val (bc[3 := bc ! 3 - 1]) = ip_val net + 2 ^ (32 - p) - 2"
    using last_octet_decrement [OF len bcnz] by simp
  show "map2 (\<lambda>x y. x AND y) (bc[3 := bc ! 3 - 1]) (CIDRMask p 4) = net"
    unfolding bc3 using octet_offset(2) [OF k(1) i, of b3]
    by (simp add: bc_def net_def b' CIDRMask_4 k or_not_and_absorb)
qed

lemma v4_Contains:
  assumes "length net = 4" "length m = 4" "length x = 4"
  shows "IPNet_Contains \<lparr>net_IP = net, net_Mask = m\<rparr> x \<longleftrightarrow>
    map2 (\<lambda>x y. x AND y) net m = map2 (\<lambda>x y. x AND y) x m"
proof -
  obtain n0 n1 n2 n3 where n: "net = [n0, n1, n2, n3]"
    using assms(1) by (auto simp: length_Suc_conv numeral_eq_Suc)
  obtain m0 m1 m2 m3 where m: "m = [m0, m1, m2, m3]"
    using assms(2) by (auto simp: length_Suc_conv numeral_eq_Suc)
  obtain x0 x1 x2 x3 where x: "x = [x0, x1, x2, x3]"
    using assms(3) by (auto simp: length_Suc_conv numeral_eq_Suc)
  show ?thesis
    by (simp add: n m x IPNet_Contains_def networkNumberAndMask_def To4_def upt_rec)
qed

text \<open>
  C1: for every IPv4 prefix of at most 29 bits the pool computation succeeds;
  gateway, pool start and pool end are the network's number plus 1, plus 4 and
  the broadcast address minus 1, all three lie inside the network, and they are
  in this order.
\<close>

theorem CalculatePoolFromCIDR_in_network:
  assumes cidr: "ParseCIDR cidr = Inr n" and m: "net_Mask n = CIDRMask p 4" and p: "p \<le> 29"
  shows "\<exists>gw st en.
    CalculatePoolFromCIDR cidr =
      Inr \<lparr>pc_Gateway = IPv4_String gw, pc_PoolStart = IPv4_String st, pc_PoolEnd = IPv4_String en\<rparr> \<and>
    ip_val gw = ip_val (net_IP n) + 1 \<and>
    ip_val st = ip_val (net_IP n) + 4 \<and>
    ip_val en = ip_val (net_IP n) + 2 ^ (32 - p) - 2 \<and>
    IPNet_Contains n gw \<and> IPNet_Contains n st \<and> IPNet_Contains n en \<and>
    ip_val gw < ip_val st \<and> ip_val st < ip_val en"
proof -
  have "length (net_Mask n) = 4" by (simp add: m)
  from ParseCIDR_v4 [OF cidr this] obtain b q where b: "length b = 4"
    and q: "net_Mask n = CIDRMask q 4" "net_IP n = map2 (\<lambda>x y. x AND y) b (CIDRMask q 4)" .
  then have net: "net_IP n = map2 (\<lambda>x y. x AND y) b (CIDRMask p 4)" using m by simp
  define bc where "bc = map2 (\<lambda>x y. x OR NOT y) (net_IP n) (CIDRMask p 4)"
  define gw where "gw = (net_IP n)[3 := net_IP n ! 3 + 1]"
  define st where "st = (net_IP n)[3 := net_IP n ! 3 + 4]"
  define en where "en = bc[3 := bc ! 3 - 1]"
  have len: "length (net_IP n) = 4" by (simp add: net b)
  have n: "n = \<lparr>net_IP = net_IP n, net_Mask = CIDRMask p 4\<rparr>" using m by simp
  have "(2 :: nat) ^ 3 \<le> 2 ^ (32 - p)" using p by (intro power_increasing) auto
  then have size: "8 \<le> (2 :: nat) ^ (32 - p)" by simp
  have masked: "map2 (\<lambda>x y. x AND y) (net_IP n) (CIDRMask p 4) = net_IP n"
    using network_offset(2) [OF b p, of 0] by (simp add: net)
  have gw: "ip_val gw = ip_val (net_IP n) + 1" "map2 (\<lambda>x y. x AND y) gw (CIDRMask p 4) = net_IP n"
    using network_offset [OF b p, of 1] by (simp_all add: gw_def net)
  have st: "ip_val st = ip_val (net_IP n) + 4" "map2 (\<lambda>x y. x AND y) st (CIDRMask p 4) = net_IP n"
    using network_offset [OF b p, of 4] by (simp_all add: st_def net)
  have en: "ip_val en = ip_val (net_IP n) + 2 ^ (32 - p) - 2" "map2 (\<lambda>x y. x AND y) en (CIDRMask p 4) = net_IP n"
    using pool_end_props [OF b p] by (simp_all add: en_def bc_def net)
  have lens: "length gw = 4" "length st = 4" "length en = 4"
    by (simp_all add: gw_def st_def en_def bc_def len)
  have less: "isIPLess st en" using st(1) en(1) size lens by (simp add: isIPLess_ip_val)
  have inside: "IPNet_Contains n x" if "length x = 4" "map2 (\<lambda>x y. x AND y) x (CIDRMask p 4) = net_IP n" for x
    using v4_Contains [OF len CIDRMask_length that(1), of p] that(2) masked n by metis
  have "net_IP n \<noteq> []" using len by auto
  then have "CalculatePoolFromCIDR cidr =
      Inr \<lparr>pc_Gateway = IPv4_String gw, pc_PoolStart = IPv4_String st, pc_PoolEnd = IPv4_String en\<rparr>"
    using less
    by (simp add: CalculatePoolFromCIDR_def cidr To4_def len Let_def m broadcastOf_map2
      flip: bc_def gw_def st_def en_def)
  then show ?thesis
    using gw st en size inside lens by (intro exI [of _ gw] exI [of _ st] exI [of _ en]) simp
qed

theorem CalculatePoolFromCIDR_in_network_witness:
  "\<exists>gw st en.
    CalculatePoolFromCIDR ''10.123.1.77/24'' =
      Inr \<lparr>pc_Gateway = IPv4_String gw, pc_PoolStart = IPv4_String st, pc_PoolEnd = IPv4_String en\<rparr> \<and>
    ip_val gw = ip_val [10, 123, 1, 0] + 1 \<and>
    ip_val en = ip_val [10, 123, 1, 0] + 2 ^ (32 - 24) - 2"
proof -
  have c: "ParseCIDR ''10.123.1.77/24'' = Inr \<lparr>net_IP = [10, 123, 1, 0], net_Mask = [255, 255, 255, 0]\<rparr>"
    by code_simp
  have m: "net_Mask \<lparr>net_IP = [10, 123, 1, 0], net_Mask = [255, 255, 255, 0]\<rparr> = CIDRMask 24 4"
    by code_simp
  show ?thesis
    using CalculatePoolFromCIDR_in_network [OF c m] by auto
qed

lemma To4_length: "To4 ip \<noteq> [] \<Longrightarrow> length (To4 ip) = 4"
  by (auto simp: To4_def split: if_splits)

lemma CalculatePoolFromCIDR_cases:
  assumes "CalculatePoolFromCIDR cidr = Inr pc"
  obtains gw st en where
    "pc = \<lparr>pc_Gateway = IPv4_String gw, pc_PoolStart = IPv4_String st, pc_PoolEnd = IPv4_String en\<rparr>"
    "length gw = 4" "length st = 4" "length en = 4" "isIPLess st en"
proof -
  obtain n where n: "ParseCIDR cidr = Inr n" "To4 (net_IP n) \<noteq> []"
    using assms by (auto simp: CalculatePoolFromCIDR_def Let_def split: sum.splits if_splits)
  define ip where "ip = To4 (net_IP n)"
  define bc where "bc = broadcastOf ip (net_Mask n)"
  have "length ip = 4" "length bc = 4"
    using n To4_length by (simp_all add: ip_def bc_def broadcastOf_def)
  moreover have "isIPLess (ip[3 := ip ! 3 + 4]) (bc[3 := bc ! 3 - 1])"
    "pc = \<lparr>pc_Gateway = IPv4_String (ip[3 := ip ! 3 + 1]), pc_PoolStart = IPv4_String (ip[3 := ip ! 3 + 4]),
      pc_PoolEnd = IPv4_String (bc[3 := bc ! 3 - 1])\<rparr>"
    using assms n
    by (auto simp: CalculatePoolFromCIDR_def Let_def ip_def bc_def split: if_splits)
  ultimately show thesis
    using that [of "ip[3 := ip ! 3 + 1]" "ip[3 := ip ! 3 + 4]" "bc[3 := bc ! 3 - 1]"] by simp
qed

text \<open>
  C2: the addresses of every computed pool, printed as text, parse back as IPv4
  addresses, and the pool's start is numerically below its end.
\<close>

theorem CalculatePoolFromCIDR_parses_back:
  assumes "CalculatePoolFromCIDR cidr = Inr pc"
  shows "length (To4 (ParseIP (pc_Gateway pc))) = 4 \<and>
    IPv4_String (To4 (ParseIP (pc_Gateway pc))) = pc_Gateway pc \<and>
    IPv4_String (To4 (ParseIP (pc_PoolStart pc))) = pc_PoolStart pc \<and>
    IPv4_String (To4 (ParseIP (pc_PoolEnd pc))) = pc_PoolEnd pc \<and>
    ip_val (To4 (ParseIP (pc_PoolStart pc))) < ip_val (To4 (ParseIP (pc_PoolEnd pc)))"
  using assms
  by (elim CalculatePoolFromCIDR_cases) (simp add: To4_ParseIP_IPv4_String isIPLess_ip_val)

theorem CalculatePoolFromCIDR_parses_back_witness:
  "ip_val (To4 (ParseIP ''10.123.1.4'')) < ip_val (To4 (ParseIP ''10.123.1.254''))"
proof -
  have c: "CalculatePoolFromCIDR ''10.123.1.0/24'' =
      Inr \<lparr>pc_Gateway = ''10.123.1.1'', pc_PoolStart = ''10.123.1.4'', pc_PoolEnd = ''10.123.1.254''\<rparr>"
    by code_simp
  show ?thesis using CalculatePoolFromCIDR_parses_back [OF c] by simp
qed

text \<open>
  C3: in the last /30 of a /24 (network address ending in 252) the addition to
  the last octet wraps: the code accepts the network although it is too small
  for a pool, and the pool it returns starts at an address that is not in the
  network.
\<close>

theorem CalculatePoolFromCIDR_wraps:
  assumes "ParseCIDR cidr = Inr \<lparr>net_IP = [a, b, c, 252], net_Mask = CIDRMask 30 4\<rparr>"
  shows "CalculatePoolFromCIDR cidr =
      Inr \<lparr>pc_Gateway = IPv4_String [a, b, c, 253], pc_PoolStart = IPv4_String [a, b, c, 0],
           pc_PoolEnd = IPv4_String [a, b, c, 254]\<rparr> \<and>
    \<not> IPNet_Contains \<lparr>net_IP = [a, b, c, 252], net_Mask = CIDRMask 30 4\<rparr> [a, b, c, 0]"
proof -
  have m: "CIDRMask 30 4 = [255, 255, 255, 252]" by code_simp
  have bc: "broadcastOf [a, b, c, 252] [255, 255, 255, 252] = [a, b, c, 255]"
    by (simp add: broadcastOf_def upt_rec)
  have z: "(256 :: byte) = 0" by simp
  show ?thesis
    unfolding m using assms
    by (simp add: CalculatePoolFromCIDR_def To4_def m bc v4_Contains z)
qed

theorem CalculatePoolFromCIDR_wraps_witness:
  "CalculatePoolFromCIDR ''10.0.0.252/30'' =
      Inr \<lparr>pc_Gateway = ''10.0.0.253'', pc_PoolStart = ''10.0.0.0'', pc_PoolEnd = ''10.0.0.254''\<rparr> \<and>
    \<not> IPNet_Contains \<lparr>net_IP = [10, 0, 0, 252], net_Mask = CIDRMask 30 4\<rparr> [10, 0, 0, 0]"
proof -
  have c: "ParseCIDR ''10.0.0.252/30'' = Inr \<lparr>net_IP = [10, 0, 0, 252], net_Mask = CIDRMask 30 4\<rparr>"
    by code_simp
  have s: "IPv4_String [10, 0, 0, 253] = ''10.0.0.253''" "IPv4_String [10, 0, 0, 0] = ''10.0.0.0''"
    "IPv4_String [10, 0, 0, 254] = ''10.0.0.254''" by code_simp+
  show ?thesis using CalculatePoolFromCIDR_wraps [OF c] unfolding s .
qed


end
