(* ===== verification/KeaModels.thy ===== *)
theory KeaModels
  imports GoStrings
begin

text \<open>
  The package \<open>pkg/models/keamodels\<close>: the request and response of the Kea
  Control Agent and the configuration of a subnet to create; and the Go values
  of type \<open>any\<close> that requests and responses carry.

  \<open>go_any\<close> has one constructor per dynamic type the code builds or switches on.
  A \<open>float64\<close> is the rational number it denotes: JSON never yields an infinity
  or a NaN, and the code only compares such values and converts them to \<open>int\<close>.
  A Go \<open>int\<close> is an integer, with the wrap-around of 64 bits written out where
  the code computes with it.
\<close>

datatype go_any =
    GoNil
  | GoBool bool
  | GoFloat rat
  | GoInt int
  | GoString string
  | GoStrings "string list"
  | GoSlice "go_any list"
  | GoMap "(string \<times> go_any) list"
  | GoMaps "(string \<times> go_any) list list"
  | GoPtr "go_any option"

type_synonym go_map = "(string \<times> go_any) list"

text \<open>Indexing a \<open>map[string]any\<close>: a missing key reads as nil, in a nil map too.\<close>

definition idx :: "go_map \<Rightarrow> string \<Rightarrow> go_any" where
  "idx m k = (case map_of m k of None \<Rightarrow> GoNil | Some v \<Rightarrow> v)"

text \<open>The type assertions \<open>v.([]any)\<close>, \<open>v.(map[string]any)\<close> and \<open>v.(string)\<close>.\<close>

fun as_slice :: "go_any \<Rightarrow> go_any list option" where
  "as_slice (GoSlice xs) = Some xs"
| "as_slice _ = None"

fun as_map :: "go_any \<Rightarrow> go_map option" where
  "as_map (GoMap m) = Some m"
| "as_map _ = None"

fun as_string :: "go_any \<Rightarrow> string option" where
  "as_string (GoString s) = Some s"
| "as_string _ = None"

text \<open>The conversion \<open>int(f)\<close> truncates towards zero. Go leaves the result open
  when it does not fit; amd64 and arm64 builds differ there, the model takes the
  amd64 result, the least \<open>int\<close>.\<close>

definition f64_to_int :: "rat \<Rightarrow> int" where
  "f64_to_int f =
     (let t = (if 0 \<le> f then \<lfloor>f\<rfloor> else \<lceil>f\<rceil>)
      in if - (2 ^ 63) \<le> t \<and> t < 2 ^ 63 then t else - (2 ^ 63))"

text \<open>The conversion \<open>float64(i)\<close> rounds to 53 significant bits, ties to even.\<close>

fun bit_length :: "int \<Rightarrow> nat" where
  "bit_length n = (if n \<le> 0 then 0 else Suc (bit_length (n div 2)))"

declare bit_length.simps [simp del]

definition f64_of_int :: "int \<Rightarrow> rat" where
  "f64_of_int i =
     (let a = \<bar>i\<bar>; e = bit_length a - 53 in
      if e = 0 then of_int i
      else let q = a div 2 ^ e; r = a mod 2 ^ e; h = 2 ^ (e - 1);
               q' = (if r > h \<or> (r = h \<and> odd q) then q + 1 else q)
           in of_int (sgn i * q' * 2 ^ e))"

text \<open>Addition of Go \<open>int\<close>s wraps at 64 bits.\<close>

definition wrap64 :: "int \<Rightarrow> int" where
  "wrap64 i = (i + 2 ^ 63) mod 2 ^ 64 - 2 ^ 63"

lemma wrap64_id: "- (2 ^ 63) \<le> i \<Longrightarrow> i < 2 ^ 63 \<Longrightarrow> wrap64 i = i"
  by (simp add: wrap64_def)

lemma f64_to_int_of_int:
  "- (2 ^ 63) \<le> i \<Longrightarrow> i < 2 ^ 63 \<Longrightarrow> f64_to_int (of_int i) = i"
  by (simp add: f64_to_int_def Let_def)

lemma f64_to_int_bounds: "- (2 ^ 63) \<le> f64_to_int f \<and> f64_to_int f < 2 ^ 63"
  by (simp add: f64_to_int_def Let_def)

lemma f64_of_int_small: "\<bar>i\<bar> < 256 \<Longrightarrow> f64_of_int i = of_int i"
proof -
  have b: "n < 2 ^ k \<Longrightarrow> bit_length n \<le> k" for n :: int and k :: nat
  proof (induction k arbitrary: n)
    case 0
    then show ?case by (subst bit_length.simps) simp
  next
    case (Suc k)
    then have "n div 2 < 2 ^ k" by simp
    then show ?case using Suc.IH by (subst bit_length.simps) simp
  qed
  assume "\<bar>i\<bar> < 256"
  then have "bit_length \<bar>i\<bar> \<le> 8" using b [of "\<bar>i\<bar>" 8] by simp
  then show ?thesis by (simp add: f64_of_int_def Let_def)
qed

section \<open>keamodels.go\<close>

record Request =
  Command :: string
  Service :: string
  Args :: go_map

record Response =
  Result :: int
  Text :: string
  Arguments :: go_map

record SubnetConfig =
  sc_Subnet :: string
  sc_ID :: int
  sc_Gateway :: string
  sc_DNS :: "string list"
  sc_PoolStart :: string
  sc_PoolEnd :: string
  sc_ValidLife :: int
  sc_RenewTimer :: int
  sc_RebindTimer :: int
  sc_RequireClientClasses :: "string list"

text \<open>A struct literal that names some fields leaves the others zero.\<close>

definition zero_SubnetConfig :: SubnetConfig where
  "zero_SubnetConfig =
     \<lparr>sc_Subnet = [], sc_ID = 0, sc_Gateway = [], sc_DNS = [], sc_PoolStart = [], sc_PoolEnd = [],
      sc_ValidLife = 0, sc_RenewTimer = 0, sc_RebindTimer = 0, sc_RequireClientClasses = []\<rparr>"

definition mk_request :: "string \<Rightarrow> go_map \<Rightarrow> Request" where
  "mk_request cmd args = \<lparr>Command = cmd, Service = [], Args = args\<rparr>"

definition zero_Response :: Response where
  "zero_Response = \<lparr>Result = 0, Text = [], Arguments = []\<rparr>"

lemma mk_request_sel [simp]:
  "Command (mk_request c a) = c"
  "Args (mk_request c a) = a"
  by (simp_all add: mk_request_def)

lemma mk_request_inject [simp]: "mk_request c a = mk_request c' a' \<longleftrightarrow> c = c' \<and> a = a'"
  by (simp add: mk_request_def)

end
