(* ===== verification/KeaInterface.thy ===== *)
theory KeaInterface
  imports KeaModels
begin

text \<open>
  The package \<open>pkg/interfaces/keainterface\<close>: the interface \<open>KeaClient\<close> with its
  one method \<open>Send\<close>, seen from the code that calls it.

  Code over the interface is a request program: it either returns, sends a
  request and goes on with the reply, or locks or unlocks the mutex of a CIDR
  (\<open>Service.subnetLocks\<close>). What a request program does is then independent of
  the client behind the interface; \<open>run\<close> executes it over a client with a state,
  and the interleaving semantics of theory \<open>SubnetLock\<close> executes several of them
  over a shared client.
\<close>

datatype 'a prog =
    Return 'a
  | Call Request "Response result \<Rightarrow> 'a prog"
  | Lock string "'a prog"
  | Unlock string "'a prog"

type_synonym 'w sender = "Request \<Rightarrow> 'w \<Rightarrow> Response result \<times> 'w"

primrec bindP :: "'a prog \<Rightarrow> ('a \<Rightarrow> 'b prog) \<Rightarrow> 'b prog" where
  "bindP (Return a) f = f a"
| "bindP (Call r k) f = Call r (\<lambda>x. bindP (k x) f)"
| "bindP (Lock c p) f = Lock c (bindP p f)"
| "bindP (Unlock c p) f = Unlock c (bindP p f)"

text \<open>A program run alone: no other program holds a lock, so taking one never
  waits.\<close>

primrec run :: "'w sender \<Rightarrow> 'a prog \<Rightarrow> 'w \<Rightarrow> 'a \<times> 'w" where
  "run send (Return a) w = (a, w)"
| "run send (Call r k) w = (case send r w of (x, w') \<Rightarrow> run send (k x) w')"
| "run send (Lock c p) w = run send p w"
| "run send (Unlock c p) w = run send p w"

text \<open>Every request the program can send, whatever the replies are, satisfies
  \<open>P\<close>; and every value it can return satisfies \<open>Q\<close>.\<close>

primrec calls_only :: "(Request \<Rightarrow> bool) \<Rightarrow> 'a prog \<Rightarrow> bool" where
  "calls_only P (Return a) = True"
| "calls_only P (Call r k) = (P r \<and> (\<forall>x. calls_only P (k x)))"
| "calls_only P (Lock c p) = calls_only P p"
| "calls_only P (Unlock c p) = calls_only P p"

primrec returns_only :: "('a \<Rightarrow> bool) \<Rightarrow> 'a prog \<Rightarrow> bool" where
  "returns_only Q (Return a) = Q a"
| "returns_only Q (Call r k) = (\<forall>x. returns_only Q (k x))"
| "returns_only Q (Lock c p) = returns_only Q p"
| "returns_only Q (Unlock c p) = returns_only Q p"

text \<open>Lock discipline: from a state in which the locks \<open>held\<close> are taken, no lock
  is taken twice, only a held lock is released, and every run ends with none
  held.\<close>

primrec lock_ok :: "'a prog \<Rightarrow> string list \<Rightarrow> bool" where
  "lock_ok (Return a) held = (held = [])"
| "lock_ok (Call r k) held = (\<forall>x. lock_ok (k x) held)"
| "lock_ok (Lock c p) held = (c \<notin> set held \<and> lock_ok p (c # held))"
| "lock_ok (Unlock c p) held = (c \<in> set held \<and> lock_ok p (remove1 c held))"

text \<open>A program that neither locks nor unlocks.\<close>

primrec lock_free :: "'a prog \<Rightarrow> bool" where
  "lock_free (Return a) = True"
| "lock_free (Call r k) = (\<forall>x. lock_free (k x))"
| "lock_free (Lock c p) = False"
| "lock_free (Unlock c p) = False"

text \<open>The requests a run sends, each with the reply it got, in order.\<close>

primrec exchanges :: "'w sender \<Rightarrow> 'a prog \<Rightarrow> 'w \<Rightarrow> (Request \<times> Response result) list" where
  "exchanges send (Return a) w = []"
| "exchanges send (Call r k) w = (case send r w of (x, w') \<Rightarrow> (r, x) # exchanges send (k x) w')"
| "exchanges send (Lock c p) w = exchanges send p w"
| "exchanges send (Unlock c p) w = exchanges send p w"

section \<open>Lemmas on request programs\<close>

lemma exchanges_bindP [simp]:
  "exchanges send (bindP p f) w =
     exchanges send p w @ (case run send p w of (a, w') \<Rightarrow> exchanges send (f a) w')"
  by (induction p arbitrary: w) (auto split: prod.splits)

lemma exchanges_calls_only:
  "calls_only P p \<Longrightarrow> e \<in> set (exchanges send p w) \<Longrightarrow> P (fst e)"
  by (induction p arbitrary: w) (auto split: prod.splits)

lemma run_bindP [simp]:
  "run send (bindP p f) w = (case run send p w of (a, w') \<Rightarrow> run send (f a) w')"
  by (induction p arbitrary: w) (auto split: prod.splits)

lemma bindP_Return [simp]: "bindP p Return = p"
  by (induction p) auto

lemma bindP_assoc: "bindP (bindP p f) g = bindP p (\<lambda>a. bindP (f a) g)"
  by (induction p) auto

lemma calls_only_bindP:
  "calls_only P p \<Longrightarrow> returns_only Q p \<Longrightarrow> (\<And>a. Q a \<Longrightarrow> calls_only P (f a)) \<Longrightarrow> calls_only P (bindP p f)"
  by (induction p) auto

lemma calls_only_bindI:
  "calls_only P p \<Longrightarrow> (\<And>a. calls_only P (f a)) \<Longrightarrow> calls_only P (bindP p f)"
  by (induction p) auto

lemma calls_only_mono: "calls_only P p \<Longrightarrow> (\<And>r. P r \<Longrightarrow> P' r) \<Longrightarrow> calls_only P' p"
  by (induction p) auto

lemma returns_only_bindP:
  "returns_only Q p \<Longrightarrow> (\<And>a. Q a \<Longrightarrow> returns_only Q' (f a)) \<Longrightarrow> returns_only Q' (bindP p f)"
  by (induction p) auto

lemma returns_only_trivial [simp]: "returns_only (\<lambda>_. True) p"
  by (induction p) auto

lemma returns_only_run: "returns_only Q p \<Longrightarrow> Q (fst (run send p w))"
  by (induction p arbitrary: w) (auto split: prod.splits)

lemma lock_ok_bind_free:
  "lock_free p \<Longrightarrow> (\<And>a. lock_ok (f a) held) \<Longrightarrow> lock_ok (bindP p f) held"
  by (induction p) auto

lemma lock_free_bindP:
  "lock_free p \<Longrightarrow> (\<And>a. lock_free (f a)) \<Longrightarrow> lock_free (bindP p f)"
  by (induction p) auto

section \<open>The interface as a locale\<close>

text \<open>
  What a caller may rely on when it knows how single requests relate the
  client's state before and after: every program built from allowed requests
  relates its first and last state the same way.
\<close>

locale kea_frame =
  fixes send :: "'w sender"
    and allowed :: "Request \<Rightarrow> bool"
    and rel :: "'w \<Rightarrow> 'w \<Rightarrow> bool"
  assumes rel_refl: "rel w w"
    and rel_trans: "rel u v \<Longrightarrow> rel v w \<Longrightarrow> rel u w"
    and send_rel: "allowed r \<Longrightarrow> rel w (snd (send r w))"
begin

lemma run_rel: "calls_only allowed p \<Longrightarrow> rel w (snd (run send p w))"
proof (induction p arbitrary: w)
  case (Call r k)
  obtain x w' where s: "send r w = (x, w')" by fastforce
  have "rel w w'" using send_rel [of r w] Call.prems s by simp
  moreover have "rel w' (snd (run send (k x) w'))" using Call.IH Call.prems by simp
  ultimately show ?case using s by (auto intro: rel_trans)
qed (simp_all add: rel_refl)

end

text \<open>
  A client that keeps an invariant of its own state on every request: every
  program over it keeps the invariant.
\<close>

locale kea_client =
  fixes send :: "'w sender"
    and inv :: "'w \<Rightarrow> bool"
  assumes send_inv: "inv w \<Longrightarrow> inv (snd (send r w))"

sublocale kea_client \<subseteq> frame: kea_frame send "\<lambda>_. True" "\<lambda>w w'. inv w \<longrightarrow> inv w'"
  by unfold_locales (auto intro: send_inv)

context kea_client
begin

lemma calls_any: "calls_only (\<lambda>_. True) p"
  by (induction p) auto

lemma run_inv: "inv w \<Longrightarrow> inv (snd (run send p w))"
  using frame.run_rel [OF calls_any] by blast

end

end
