(* ===== verification/KeaService.thy ===== *)
theory KeaService
  imports KeaInterface
begin

text \<open>
  The package \<open>internal/services/kea\<close> (\<open>service.go\<close>): the operations of
  \<open>Service\<close> as request programs, one definition per method and one recursive
  function per loop. A method that returns \<open>(T, error)\<close> returns a
  \<open>T result\<close>; the zero values that accompany an error in Go are read only where
  a caller ignores the error, and that caller's model puts them back.
\<close>

section \<open>Field names\<close>

abbreviation "keaFieldSubnetID \<equiv> ''subnet-id''"
abbreviation "keaFieldHWAddress \<equiv> ''hw-address''"
abbreviation "keaFieldIPAddress \<equiv> ''ip-address''"
abbreviation "keaFieldIdentifier \<equiv> ''identifier''"
abbreviation "keaFieldIdentifierType \<equiv> ''identifier-type''"

section \<open>CreateSubnet and getNextSubnetID\<close>

text \<open>The loop over the listed subnets that finds the largest id.\<close>

fun maxSubnetID :: "go_any list \<Rightarrow> int \<Rightarrow> int" where
  "maxSubnetID [] maxID = maxID"
| "maxSubnetID (snet # subnets) maxID =
     (case snet of
        GoMap m \<Rightarrow>
          (case idx m ''id'' of
             GoFloat idv \<Rightarrow> maxSubnetID subnets (if f64_to_int idv > maxID then f64_to_int idv else maxID)
           | GoInt idv \<Rightarrow> maxSubnetID subnets (if idv > maxID then idv else maxID)
           | _ \<Rightarrow> maxSubnetID subnets maxID)
      | _ \<Rightarrow> maxSubnetID subnets maxID)"

definition nextSubnetID_of :: "Response result \<Rightarrow> int" where
  "nextSubnetID_of r =
     (case r of
        Inl err \<Rightarrow> 1
      | Inr resp \<Rightarrow>
          if Result resp \<noteq> 0 then 1
          else (case as_slice (idx (Arguments resp) ''subnets'') of
                  None \<Rightarrow> 1
                | Some subnets \<Rightarrow>
                    if subnets = [] then 1 else wrap64 (maxSubnetID subnets 0 + 1)))"

definition subnet4_list :: Request where
  "subnet4_list = mk_request ''subnet4-list'' []"

definition getNextSubnetID :: "int prog" where
  "getNextSubnetID = Call subnet4_list (\<lambda>r. Return (nextSubnetID_of r))"

text \<open>The \<open>subnet4\<close> object that \<open>CreateSubnet\<close> builds, and the request around
  it.\<close>

definition optionData_of :: "SubnetConfig \<Rightarrow> go_map list" where
  "optionData_of cfg =
     (if sc_Gateway cfg \<noteq> []
      then [[(''name'', GoString ''routers''), (''code'', GoInt 3), (''data'', GoString (sc_Gateway cfg))]]
      else []) @
     (if sc_DNS cfg \<noteq> []
      then [[(''name'', GoString ''domain-name-servers''), (''code'', GoInt 6),
             (''data'', GoString (Join (sc_DNS cfg) '', ''))]]
      else [])"

definition subnet4_of :: "SubnetConfig \<Rightarrow> int \<Rightarrow> go_map" where
  "subnet4_of cfg subnetID =
     [(''subnet'', GoString (sc_Subnet cfg)), (''id'', GoInt subnetID),
      (''valid-lifetime'', GoInt (if sc_ValidLife cfg > 0 then sc_ValidLife cfg else 4000))] @
     (if sc_RenewTimer cfg > 0 then [(''renew-timer'', GoInt (sc_RenewTimer cfg))] else []) @
     (if sc_RebindTimer cfg > 0 then [(''rebind-timer'', GoInt (sc_RebindTimer cfg))] else []) @
     (if sc_PoolStart cfg \<noteq> [] \<and> sc_PoolEnd cfg \<noteq> []
      then [(''pools'', GoMaps [
              [(''pool'', GoString (sc_PoolStart cfg @ '' - '' @ sc_PoolEnd cfg))] @
              (if sc_RequireClientClasses cfg \<noteq> []
               then [(''require-client-classes'', GoStrings (sc_RequireClientClasses cfg))] else [])])]
      else []) @
     (if optionData_of cfg \<noteq> [] then [(''option-data'', GoMaps (optionData_of cfg))] else [])"

definition subnet4_add :: "SubnetConfig \<Rightarrow> int \<Rightarrow> Request" where
  "subnet4_add cfg subnetID =
     mk_request ''subnet4-add'' [(''subnet4'', GoMaps [subnet4_of cfg subnetID])]"

definition CreateSubnet :: "SubnetConfig \<Rightarrow> int result prog" where
  "CreateSubnet cfg =
     (if sc_Subnet cfg = [] then Return (Inl ''subnet CIDR is required'')
      else bindP (if sc_ID cfg \<le> 0 then getNextSubnetID else Return (sc_ID cfg))
        (\<lambda>subnetID. Call (subnet4_add cfg subnetID)
          (\<lambda>r. Return (case r of
             Inl err \<Rightarrow> Inl (''failed to send subnet4-add request: '' @ err)
           | Inr resp \<Rightarrow>
               if Result resp \<noteq> 0 then Inl (''kea subnet4-add failed: '' @ Text resp)
               else Inr subnetID))))"

section \<open>GetSubnetID and GetOrCreateSubnet\<close>

definition subnetStr_of :: "go_map \<Rightarrow> string" where
  "subnetStr_of m =
     (case idx m ''subnet'' of
        GoString subVal \<Rightarrow> subVal
      | GoPtr (Some (GoString str)) \<Rightarrow> str
      | _ \<Rightarrow> [])"

definition subnetIntID_of :: "go_map \<Rightarrow> int option" where
  "subnetIntID_of m =
     (case idx m ''id'' of
        GoFloat idv \<Rightarrow> Some (f64_to_int idv)
      | GoInt idv \<Rightarrow> Some idv
      | GoPtr (Some (GoFloat f)) \<Rightarrow> Some (f64_to_int f)
      | GoPtr (Some (GoInt i)) \<Rightarrow> Some i
      | _ \<Rightarrow> None)"

text \<open>The loop over the listed subnets: the first entry with the wanted prefix
  and a readable id ends it.\<close>

fun findSubnetID :: "string \<Rightarrow> go_any list \<Rightarrow> int option" where
  "findSubnetID ipv4Prefix [] = None"
| "findSubnetID ipv4Prefix (snet # subnets) =
     (case snet of
        GoMap m \<Rightarrow>
          if subnetStr_of m = ipv4Prefix then
            (case subnetIntID_of m of
               Some i \<Rightarrow> Some i
             | None \<Rightarrow> findSubnetID ipv4Prefix subnets)
          else findSubnetID ipv4Prefix subnets
      | _ \<Rightarrow> findSubnetID ipv4Prefix subnets)"

definition subnetID_of :: "string \<Rightarrow> Response result \<Rightarrow> int result" where
  "subnetID_of ipv4Prefix r =
     (case r of
        Inl err \<Rightarrow> Inl err
      | Inr resp \<Rightarrow>
          if Result resp \<noteq> 0 then
            (if Contains (ToLower (Text resp)) ''not supported''
             then Inl (''unsupported kea command subnet4-list: '' @ Text resp)
             else Inl (''kea subnet4-list failed: '' @ Text resp))
          else (case as_slice (idx (Arguments resp) ''subnets'') of
                  None \<Rightarrow> Inl ''unexpected subnet4-list response shape''
                | Some subnets \<Rightarrow>
                    (case findSubnetID ipv4Prefix subnets of
                       Some i \<Rightarrow> Inr i
                     | None \<Rightarrow> Inl (''no matching Kea subnet for prefix '' @ ipv4Prefix))))"

definition GetSubnetID :: "string \<Rightarrow> int result prog" where
  "GetSubnetID ipv4Prefix = Call subnet4_list (\<lambda>r. Return (subnetID_of ipv4Prefix r))"

text \<open>\<open>GetOrCreateSubnet\<close>: the body under the lock, then the deferred unlock.\<close>

definition getOrCreateBody :: "SubnetConfig \<Rightarrow> (int \<times> bool) result prog" where
  "getOrCreateBody cfg =
     bindP (GetSubnetID (sc_Subnet cfg)) (\<lambda>got.
       case got of
         Inr subnetID \<Rightarrow> Return (Inr (subnetID, False))
       | Inl err \<Rightarrow>
           if \<not> Contains err ''no matching Kea subnet'' then Return (Inl err)
           else bindP (CreateSubnet cfg) (\<lambda>created.
             case created of
               Inr newID \<Rightarrow> Return (Inr (newID, True))
             | Inl createErr \<Rightarrow>
                 bindP (GetSubnetID (sc_Subnet cfg)) (\<lambda>again.
                   case again of
                     Inr existingID \<Rightarrow> Return (Inr (existingID, False))
                   | Inl getErr \<Rightarrow> Return (Inl (''failed to create subnet: '' @ createErr)))))"

definition GetOrCreateSubnet :: "SubnetConfig \<Rightarrow> (int \<times> bool) result prog" where
  "GetOrCreateSubnet cfg =
     Lock (sc_Subnet cfg)
       (bindP (getOrCreateBody cfg) (\<lambda>v. Unlock (sc_Subnet cfg) (Return v)))"

section \<open>GetSubnetInfo\<close>

record SubnetInfo =
  si_ID :: int
  si_Subnet :: string
  si_Gateway :: string
  si_DNS :: "string list"

definition optCode_of :: "go_map \<Rightarrow> rat" where
  "optCode_of optMap =
     (case idx optMap ''code'' of
        GoFloat c \<Rightarrow> c
      | GoInt c \<Rightarrow> f64_of_int c
      | GoPtr (Some (GoFloat f)) \<Rightarrow> f
      | GoPtr (Some (GoInt i)) \<Rightarrow> f64_of_int i
      | _ \<Rightarrow> 0)"

definition optData_of :: "go_map \<Rightarrow> string" where
  "optData_of optMap =
     (case idx optMap ''data'' of
        GoString d \<Rightarrow> d
      | GoPtr (Some (GoString str)) \<Rightarrow> str
      | _ \<Rightarrow> [])"

definition splitDNS :: "string \<Rightarrow> string list" where
  "splitDNS data = filter (\<lambda>dns. dns \<noteq> []) (map TrimSpace (SplitByte (CHR '','') data))"

fun readOptions :: "go_any list \<Rightarrow> SubnetInfo \<Rightarrow> SubnetInfo" where
  "readOptions [] info = info"
| "readOptions (opt # optionData) info =
     (case opt of
        GoMap optMap \<Rightarrow>
          let code = optCode_of optMap; data = optData_of optMap in
          if code = 3 \<and> data \<noteq> [] then readOptions optionData (info\<lparr>si_Gateway := data\<rparr>)
          else if code = 6 \<and> data \<noteq> []
          then readOptions optionData (info\<lparr>si_DNS := si_DNS info @ splitDNS data\<rparr>)
          else readOptions optionData info
      | _ \<Rightarrow> readOptions optionData info)"

definition subnetInfo_of :: "int \<Rightarrow> Response result \<Rightarrow> SubnetInfo result" where
  "subnetInfo_of subnetID r =
     (case r of
        Inl err \<Rightarrow> Inl err
      | Inr resp \<Rightarrow>
          if Result resp \<noteq> 0 then Inl (''kea subnet4-get failed: '' @ Text resp)
          else (case as_slice (idx (Arguments resp) ''subnet4'') of
                  None \<Rightarrow> Inl ''unexpected subnet4-get response shape''
                | Some [] \<Rightarrow> Inl ''unexpected subnet4-get response shape''
                | Some (d # ds) \<Rightarrow>
                    (case as_map d of
                       None \<Rightarrow> Inl ''unexpected subnet data format''
                     | Some subnetData \<Rightarrow>
                         let info = \<lparr>si_ID = subnetID, si_Subnet = subnetStr_of subnetData,
                                     si_Gateway = [], si_DNS = []\<rparr>
                         in Inr (case as_slice (idx subnetData ''option-data'') of
                                   None \<Rightarrow> info
                                 | Some optionData \<Rightarrow> readOptions optionData info))))"

definition GetSubnetInfo :: "int \<Rightarrow> SubnetInfo result prog" where
  "GetSubnetInfo subnetID =
     Call (mk_request ''subnet4-get'' [(''id'', GoInt subnetID)])
       (\<lambda>r. Return (subnetInfo_of subnetID r))"

section \<open>Reservations\<close>

text \<open>The normalisation at the start of the methods that take a MAC.\<close>

definition normMAC :: "string \<Rightarrow> string" where
  "normMAC mac = ToLower (TrimSpace mac)"

definition DeleteReservationForMAC :: "string \<Rightarrow> int \<Rightarrow> unit result prog" where
  "DeleteReservationForMAC mac0 subnetID =
     (let mac = normMAC mac0 in
      if mac = [] then Return (Inl ''missing mac'')
      else Call (mk_request ''reservation-del''
             [(keaFieldSubnetID, GoInt subnetID), (keaFieldIdentifierType, GoString keaFieldHWAddress),
              (keaFieldIdentifier, GoString mac), (''operation-target'', GoString ''all'')])
           (\<lambda>r. Return (case r of
              Inl err \<Rightarrow> Inl err
            | Inr resp \<Rightarrow>
                if Result resp \<noteq> 0 then Inl (''kea reservation-del failed: '' @ Text resp) else Inr ())))"

text \<open>The two loops of \<open>macReservationExists\<close>: over the hosts of
  \<open>reservation-get-by-id\<close>, where a subnet id that is a number must match, and
  over the hosts of \<open>reservation-get-all\<close>.\<close>

definition hostSubnetDiffers :: "int \<Rightarrow> go_map \<Rightarrow> bool" where
  "hostSubnetDiffers subnetID hm =
     (case map_of hm keaFieldSubnetID of
        Some (GoFloat v) \<Rightarrow> f64_to_int v \<noteq> subnetID
      | Some (GoInt v) \<Rightarrow> v \<noteq> subnetID
      | _ \<Rightarrow> False)"

definition hostHasMAC :: "string \<Rightarrow> go_map \<Rightarrow> bool" where
  "hostHasMAC mac hm =
     (case idx hm keaFieldHWAddress of GoString hw \<Rightarrow> EqualFold hw mac | _ \<Rightarrow> False)"

fun hostInSubnet :: "string \<Rightarrow> int \<Rightarrow> go_any list \<Rightarrow> bool" where
  "hostInSubnet mac subnetID [] = False"
| "hostInSubnet mac subnetID (h # hosts) =
     (case h of
        GoMap hm \<Rightarrow>
          if hostHasMAC mac hm then
            (if hostSubnetDiffers subnetID hm then hostInSubnet mac subnetID hosts else True)
          else hostInSubnet mac subnetID hosts
      | _ \<Rightarrow> hostInSubnet mac subnetID hosts)"

fun hostWithMAC :: "string \<Rightarrow> go_any list \<Rightarrow> bool" where
  "hostWithMAC mac [] = False"
| "hostWithMAC mac (h # hosts) =
     (case h of
        GoMap hm \<Rightarrow> if hostHasMAC mac hm then True else hostWithMAC mac hosts
      | _ \<Rightarrow> hostWithMAC mac hosts)"

definition reservationGetByID :: "string \<Rightarrow> Request" where
  "reservationGetByID mac =
     mk_request ''reservation-get-by-id''
       [(keaFieldIdentifierType, GoString keaFieldHWAddress), (keaFieldIdentifier, GoString mac)]"

text \<open>The reply to the first request decides, or (\<open>None\<close>) the fallback is
  asked.\<close>

definition existsByID :: "string \<Rightarrow> int \<Rightarrow> Response result \<Rightarrow> bool option" where
  "existsByID mac subnetID r =
     (case r of
        Inl err \<Rightarrow> None
      | Inr resp \<Rightarrow>
          if Result resp = 0 then
            Some (case as_slice (idx (Arguments resp) ''hosts'') of
                    None \<Rightarrow> False
                  | Some hosts \<Rightarrow> hostInSubnet mac subnetID hosts)
          else let txt = ToLower (Text resp) in
            if Contains txt ''not found'' \<or> Contains txt ''no host'' \<or> Contains txt ''0 ipv4 host''
            then Some False else None)"

definition existsInAll :: "string \<Rightarrow> Response result \<Rightarrow> bool" where
  "existsInAll mac r =
     (case r of
        Inl err \<Rightarrow> False
      | Inr resp \<Rightarrow>
          if Result resp \<noteq> 0 then False
          else (case as_slice (idx (Arguments resp) ''hosts'') of
                  None \<Rightarrow> False
                | Some hosts \<Rightarrow> hostWithMAC mac hosts))"

definition macReservationExists :: "string \<Rightarrow> int \<Rightarrow> bool prog" where
  "macReservationExists mac0 subnetID =
     (let mac = normMAC mac0 in
      if mac = [] then Return False
      else Call (reservationGetByID mac) (\<lambda>r.
        case existsByID mac subnetID r of
          Some b \<Rightarrow> Return b
        | None \<Rightarrow>
            Call (mk_request ''reservation-get-all'' [(keaFieldSubnetID, GoInt subnetID)])
              (\<lambda>r2. Return (existsInAll mac r2))))"

definition reservation_of :: "string \<Rightarrow> int \<Rightarrow> string \<Rightarrow> go_map" where
  "reservation_of mac subnetID ipv4 =
     [(keaFieldSubnetID, GoInt subnetID), (keaFieldHWAddress, GoString mac)] @
     (if TrimSpace ipv4 \<noteq> [] then [(keaFieldIPAddress, GoString (TrimSpace ipv4))] else [])"

definition reservation_add :: "string \<Rightarrow> int \<Rightarrow> string \<Rightarrow> Request" where
  "reservation_add mac subnetID ipv4 =
     mk_request ''reservation-add''
       [(''reservation'', GoMap (reservation_of mac subnetID ipv4)), (''operation-target'', GoString ''all'')]"

definition EnsureReservationForMACIP :: "string \<Rightarrow> int \<Rightarrow> string \<Rightarrow> bool result prog" where
  "EnsureReservationForMACIP mac0 subnetID ipv4 =
     (let mac = normMAC mac0 in
      if mac = [] then Return (Inl ''missing mac'')
      else bindP (macReservationExists mac subnetID) (\<lambda>exists.
        if exists then Return (Inr False)
        else Call (reservation_add mac subnetID ipv4)
          (\<lambda>r. Return (case r of
             Inl addErr \<Rightarrow> Inl addErr
           | Inr addResp \<Rightarrow>
               if Result addResp \<noteq> 0 then Inl (''kea reservation-add failed: '' @ Text addResp)
               else Inr True))))"

section \<open>GetLeaseIPv4ForMAC\<close>

definition num_of :: "go_any \<Rightarrow> rat" where
  "num_of v = (case v of GoFloat f \<Rightarrow> f | GoInt i \<Rightarrow> f64_of_int i | _ \<Rightarrow> 0)"

definition sid_of :: "go_map \<Rightarrow> int" where
  "sid_of m = (case idx m keaFieldSubnetID of GoFloat v \<Rightarrow> f64_to_int v | GoInt v \<Rightarrow> v | _ \<Rightarrow> 0)"

definition str_of :: "go_any \<Rightarrow> string" where
  "str_of v = (case v of GoString s \<Rightarrow> s | _ \<Rightarrow> [])"

text \<open>The loop over the leases. Its state is \<open>bestIP\<close>, \<open>bestSID\<close> and
  \<open>bestCLTT\<close>.\<close>

fun bestLease :: "string \<Rightarrow> go_any list \<Rightarrow> string \<times> int \<times> rat \<Rightarrow> string \<times> int \<times> rat" where
  "bestLease mac [] best = best"
| "bestLease mac (elem # arr) (bestIP, bestSID, bestCLTT) =
     (case elem of
        GoMap m \<Rightarrow>
          if \<not> EqualFold (TrimSpace (str_of (idx m keaFieldHWAddress))) mac
          then bestLease mac arr (bestIP, bestSID, bestCLTT)
          else let ip = str_of (idx m keaFieldIPAddress) in
            if ip = [] then bestLease mac arr (bestIP, bestSID, bestCLTT)
            else let cltt = num_of (idx m ''cltt''); sid = sid_of m in
              if bestIP = [] \<or> cltt > bestCLTT then bestLease mac arr (ip, sid, cltt)
              else bestLease mac arr (bestIP, bestSID, bestCLTT)
      | _ \<Rightarrow> bestLease mac arr (bestIP, bestSID, bestCLTT))"

definition leaseFromReply :: "string \<Rightarrow> Response result \<Rightarrow> (string \<times> int) option" where
  "leaseFromReply mac r =
     (case r of
        Inl err \<Rightarrow> None
      | Inr resp \<Rightarrow>
          if Result resp \<noteq> 0 then None
          else (case idx (Arguments resp) ''leases'' of
                  GoSlice arr \<Rightarrow>
                    (let (bestIP, bestSID, bestCLTT) = bestLease mac arr ([], 0, 0)
                     in if bestIP \<noteq> [] then Some (bestIP, bestSID) else None)
                | GoMap l \<Rightarrow>
                    (let ip = str_of (idx l keaFieldIPAddress)
                     in if ip \<noteq> [] then Some (ip, sid_of l) else None)
                | _ \<Rightarrow> None))"

fun hostAddress :: "go_any list \<Rightarrow> (string \<times> int) option" where
  "hostAddress [] = None"
| "hostAddress (h # hosts) =
     (case h of
        GoMap hm \<Rightarrow>
          if str_of (idx hm keaFieldIPAddress) \<noteq> []
          then Some (str_of (idx hm keaFieldIPAddress), sid_of hm)
          else hostAddress hosts
      | _ \<Rightarrow> hostAddress hosts)"

definition addressFromReservations :: "Response result \<Rightarrow> (string \<times> int) option" where
  "addressFromReservations r =
     (case r of
        Inl err \<Rightarrow> None
      | Inr resp \<Rightarrow>
          if Result resp \<noteq> 0 then None
          else (case as_slice (idx (Arguments resp) ''hosts'') of
                  None \<Rightarrow> None
                | Some hosts \<Rightarrow> hostAddress hosts))"

definition lease4_get :: "string \<Rightarrow> Request" where
  "lease4_get mac = mk_request ''lease4-get-by-hw-address'' [(keaFieldHWAddress, GoString mac)]"

definition GetLeaseIPv4ForMAC :: "string \<Rightarrow> (string \<times> int) result prog" where
  "GetLeaseIPv4ForMAC mac0 =
     (let mac = normMAC mac0 in
      if mac = [] then Return (Inl ''missing mac'')
      else Call (lease4_get mac) (\<lambda>r.
        case leaseFromReply mac r of
          Some lease \<Rightarrow> Return (Inr lease)
        | None \<Rightarrow>
            Call (reservationGetByID mac) (\<lambda>r2.
              case addressFromReservations r2 of
                Some addr \<Rightarrow> Return (Inr addr)
              | None \<Rightarrow> Return (Inl (''no lease found for MAC '' @ mac)))))"

lemmas [service_defs] =
  nextSubnetID_of_def subnet4_list_def getNextSubnetID_def optionData_of_def subnet4_of_def
  subnet4_add_def CreateSubnet_def subnetStr_of_def subnetIntID_of_def subnetID_of_def
  GetSubnetID_def getOrCreateBody_def GetOrCreateSubnet_def optCode_of_def optData_of_def
  splitDNS_def subnetInfo_of_def GetSubnetInfo_def normMAC_def DeleteReservationForMAC_def
  hostSubnetDiffers_def hostHasMAC_def reservationGetByID_def existsByID_def existsInAll_def
  macReservationExists_def reservation_of_def reservation_add_def EnsureReservationForMACIP_def
  num_of_def sid_of_def str_of_def leaseFromReply_def addressFromReservations_def lease4_get_def
  GetLeaseIPv4ForMAC_def

end
