(* ===== verification/KeaServiceFacts.thy ===== *)
theory KeaServiceFacts
  imports KeaService
begin

text \<open>
  What the operations of the Kea service do: which requests they can send, what
  their results mean in terms of the replies they got, and how they behave over
  a server that stores subnets and reservations.
\<close>

section \<open>Which requests are sent\<close>

definition read_cmd :: "Request \<Rightarrow> bool" where
  "read_cmd r \<longleftrightarrow> Command r \<in>
     {''subnet4-list'', ''subnet4-get'', ''reservation-get-by-id'', ''reservation-get-all'',
      ''lease4-get-by-hw-address''}"

lemma read_cmd_simps [simp]:
  "read_cmd subnet4_list"
  "read_cmd (reservationGetByID mac)"
  "read_cmd (lease4_get mac)"
  "read_cmd (mk_request ''subnet4-get'' a)"
  "read_cmd (mk_request ''reservation-get-all'' a)"
  by (simp_all add: read_cmd_def subnet4_list_def reservationGetByID_def lease4_get_def)

lemma GetSubnetID_reads: "calls_only read_cmd (GetSubnetID p)"
  by (simp add: GetSubnetID_def)

lemma GetSubnetInfo_reads: "calls_only read_cmd (GetSubnetInfo i)"
  by (simp add: GetSubnetInfo_def)

lemma macReservationExists_reads: "calls_only read_cmd (macReservationExists mac i)"
  by (auto simp: macReservationExists_def Let_def split: option.splits)

lemma GetLeaseIPv4ForMAC_reads: "calls_only read_cmd (GetLeaseIPv4ForMAC mac)"
  by (auto simp: GetLeaseIPv4ForMAC_def Let_def split: option.splits)

lemma EnsureReservationForMACIP_calls:
  "calls_only (\<lambda>r. read_cmd r \<or> r = reservation_add (normMAC mac) i ip) (EnsureReservationForMACIP mac i ip)"
proof -
  have "calls_only (\<lambda>r. read_cmd r \<or> r = reservation_add (normMAC mac) i ip)
      (macReservationExists (normMAC mac) i)"
    by (rule calls_only_mono [OF macReservationExists_reads]) simp
  then show ?thesis
    by (auto simp: EnsureReservationForMACIP_def Let_def intro!: calls_only_bindI)
qed

lemma DeleteReservationForMAC_calls:
  "calls_only (\<lambda>r. Command r = ''reservation-del'') (DeleteReservationForMAC mac i)"
  by (simp add: DeleteReservationForMAC_def Let_def)

lemma CreateSubnet_calls:
  "calls_only (\<lambda>r. r = subnet4_list \<or> (\<exists>i. r = subnet4_add cfg i)) (CreateSubnet cfg)"
  by (auto simp: CreateSubnet_def getNextSubnetID_def)

lemma GetOrCreateSubnet_calls:
  "calls_only (\<lambda>r. r = subnet4_list \<or> (\<exists>i. r = subnet4_add cfg i)) (GetOrCreateSubnet cfg)"
  unfolding GetOrCreateSubnet_def getOrCreateBody_def GetSubnetID_def
  by (auto intro!: calls_only_bindI CreateSubnet_calls split: sum.splits)

text \<open>
  C5: whatever Kea answers, the lookups of the service send only commands that
  read; ensuring a reservation writes nothing but the one \<open>reservation-add\<close> for
  the normalised MAC, subnet and address it was asked for; get-or-create sends
  nothing but \<open>subnet4-list\<close> and \<open>subnet4-add\<close> of the given configuration.
\<close>

theorem service_requests:
  "calls_only read_cmd (GetSubnetID pfx) \<and>
   calls_only read_cmd (GetSubnetInfo subnetID) \<and>
   calls_only read_cmd (macReservationExists mac subnetID) \<and>
   calls_only read_cmd (GetLeaseIPv4ForMAC mac) \<and>
   calls_only (\<lambda>r. read_cmd r \<or> r = reservation_add (normMAC mac) subnetID ip)
     (EnsureReservationForMACIP mac subnetID ip) \<and>
   calls_only (\<lambda>r. Command r = ''reservation-del'') (DeleteReservationForMAC mac subnetID) \<and>
   calls_only (\<lambda>r. r = subnet4_list \<or> (\<exists>i. r = subnet4_add cfg i)) (GetOrCreateSubnet cfg)"
  by (simp add: GetSubnetID_reads GetSubnetInfo_reads macReservationExists_reads
    GetLeaseIPv4ForMAC_reads EnsureReservationForMACIP_calls DeleteReservationForMAC_calls
    GetOrCreateSubnet_calls)

section \<open>Looking up a subnet\<close>

definition entry_matches :: "string \<Rightarrow> go_any \<Rightarrow> bool" where
  "entry_matches pfx s \<longleftrightarrow>
     (case s of GoMap m \<Rightarrow> subnetStr_of m = pfx \<and> subnetIntID_of m \<noteq> None | _ \<Rightarrow> False)"

lemma findSubnetID_find:
  "findSubnetID pfx xs =
     (case find (entry_matches pfx) xs of Some (GoMap m) \<Rightarrow> subnetIntID_of m | _ \<Rightarrow> None)"
  by (induction pfx xs rule: findSubnetID.induct)
    (auto simp: entry_matches_def split: go_any.splits option.splits if_splits)

lemma find_first:
  "find P xs = Some x \<Longrightarrow> \<exists>us vs. xs = us @ x # vs \<and> P x \<and> (\<forall>u\<in>set us. \<not> P u)"
proof (induction xs)
  case (Cons a xs)
  show ?case
  proof (cases "P a")
    case True
    then have "x = a" using Cons.prems by simp
    then show ?thesis using True by (intro exI [of _ "[]"] exI [of _ xs]) simp
  next
    case False
    then obtain us vs where "xs = us @ x # vs" "P x" "\<forall>u\<in>set us. \<not> P u"
      using Cons by auto
    then show ?thesis using False by (intro exI [of _ "a # us"] exI [of _ vs]) simp
  qed
qed simp

lemma findSubnetID_Some:
  assumes "findSubnetID pfx xs = Some i"
  shows "\<exists>us m vs. xs = us @ GoMap m # vs \<and> subnetStr_of m = pfx \<and> subnetIntID_of m = Some i \<and>
    (\<forall>u\<in>set us. \<not> entry_matches pfx u)"
proof -
  obtain m where f: "find (entry_matches pfx) xs = Some (GoMap m)" and i: "subnetIntID_of m = Some i"
    using assms by (auto simp: findSubnetID_find split: option.splits go_any.splits)
  from find_first [OF f] i show ?thesis
    unfolding entry_matches_def by fastforce
qed

lemma findSubnetID_None: "findSubnetID pfx xs = None \<longleftrightarrow> (\<forall>x\<in>set xs. \<not> entry_matches pfx x)"
  by (induction pfx xs rule: findSubnetID.induct)
    (auto simp: entry_matches_def split: go_any.splits option.splits if_splits)



section \<open>The next free id\<close>

definition plainID_of :: "go_map \<Rightarrow> int option" where
  "plainID_of m = (case idx m ''id'' of GoFloat f \<Rightarrow> Some (f64_to_int f) | GoInt i \<Rightarrow> Some i | _ \<Rightarrow> None)"

definition id_in :: "go_any \<Rightarrow> int option" where
  "id_in s = (case s of GoMap m \<Rightarrow> plainID_of m | _ \<Rightarrow> None)"

lemma id_in_GoMap [simp]: "id_in (GoMap m) = plainID_of m"
  by (simp add: id_in_def)

lemma maxSubnetID_Cons:
  "maxSubnetID (s # xs) m = maxSubnetID xs (case id_in s of None \<Rightarrow> m | Some i \<Rightarrow> max m i)"
  by (auto simp: id_in_def plainID_of_def max_def split: go_any.splits)

lemma maxSubnetID_ge: "m \<le> maxSubnetID xs m"
proof (induction xs arbitrary: m)
  case (Cons s xs)
  show ?case
  proof (cases "id_in s")
    case (Some i)
    then show ?thesis using Cons [of "max m i"] by (simp add: maxSubnetID_Cons del: maxSubnetID.simps)
  qed (use Cons in \<open>simp add: maxSubnetID_Cons del: maxSubnetID.simps\<close>)
qed simp

lemma maxSubnetID_upper: "s \<in> set xs \<Longrightarrow> id_in s = Some i \<Longrightarrow> i \<le> maxSubnetID xs m"
proof (induction xs arbitrary: m)
  case (Cons a xs)
  show ?case
  proof (cases "a = s")
    case True
    then show ?thesis using Cons.prems(2) maxSubnetID_ge [of "max m i" xs]
      by (simp add: maxSubnetID_Cons del: maxSubnetID.simps)
  next
    case False
    then show ?thesis using Cons by (simp add: maxSubnetID_Cons del: maxSubnetID.simps)
  qed
qed simp

lemma maxSubnetID_bound:
  "m < b \<Longrightarrow> (\<And>s i. s \<in> set xs \<Longrightarrow> id_in s = Some i \<Longrightarrow> i < b) \<Longrightarrow> maxSubnetID xs m < b"
proof (induction xs arbitrary: m)
  case (Cons a xs)
  have "(case id_in a of None \<Rightarrow> m | Some i \<Rightarrow> max m i) < b"
    using Cons.prems by (auto split: option.splits)
  then have "maxSubnetID xs (case id_in a of None \<Rightarrow> m | Some i \<Rightarrow> max m i) < b"
    by (rule Cons.IH) (use Cons.prems(2) in auto)
  then show ?case by (simp add: maxSubnetID_Cons del: maxSubnetID.simps)
qed simp

text \<open>
  C7: the id chosen for a new subnet is positive and larger than every numeric
  id of the listing, as long as no listed id is the largest \<open>int\<close>.
\<close>

theorem getNextSubnetID_fresh:
  assumes reply: "send subnet4_list w = (Inr resp, w')" and ok: "Result resp = 0"
    and list: "idx (Arguments resp) ''subnets'' = GoSlice xs"
    and room: "\<And>s j. s \<in> set xs \<Longrightarrow> id_in s = Some j \<Longrightarrow> j < 2 ^ 63 - 1"
  shows "1 \<le> fst (run send getNextSubnetID w) \<and>
    (\<forall>s j. s \<in> set xs \<longrightarrow> id_in s = Some j \<longrightarrow> j < fst (run send getNextSubnetID w))"
proof -
  have b: "maxSubnetID xs 0 < 2 ^ 63 - 1" by (rule maxSubnetID_bound) (use room in auto)
  have "fst (run send getNextSubnetID w) = (if xs = [] then 1 else wrap64 (maxSubnetID xs 0 + 1))"
    using assms by (simp add: getNextSubnetID_def nextSubnetID_of_def)
  also have "wrap64 (maxSubnetID xs 0 + 1) = maxSubnetID xs 0 + 1"
    using b maxSubnetID_ge [of 0 xs] by (intro wrap64_id) linarith+
  finally show ?thesis
    using maxSubnetID_ge [of 0 xs] maxSubnetID_upper [of _ xs _ 0] by fastforce
qed

theorem getNextSubnetID_fresh_witness:
  "1 \<le> fst (run (\<lambda>r w. (Inr \<lparr>Result = 0, Text = [], Arguments = [(''subnets'', GoSlice [
        GoMap [(''id'', GoFloat 4), (''subnet'', GoString ''10.0.0.0/24'')]])]\<rparr>, w)) getNextSubnetID ())"
proof -
  let ?xs = "[GoMap [(''id'', GoFloat 4), (''subnet'', GoString ''10.0.0.0/24'')]]"
  let ?resp = "\<lparr>Result = 0, Text = [], Arguments = [(''subnets'', GoSlice ?xs)]\<rparr>"
  let ?send = "\<lambda>(r :: Request) (w :: unit). (Inr ?resp :: Response result, w)"
  have "j < 2 ^ 63 - 1" if "e \<in> set ?xs" "id_in e = Some j" for e j
    using that by (auto simp: plainID_of_def idx_def f64_to_int_def)
  then show ?thesis
    using getNextSubnetID_fresh [of ?send "()" ?resp "()" ?xs] by (simp add: idx_def)
qed

section \<open>Get or create\<close>

lemma CreateSubnet_exchanges:
  assumes "sc_Subnet cfg \<noteq> []"
  shows "exchanges send (CreateSubnet cfg) w =
    (if sc_ID cfg \<le> 0 then
       (case send subnet4_list w of (r, w1) \<Rightarrow>
          [(subnet4_list, r),
           (subnet4_add cfg (nextSubnetID_of r), fst (send (subnet4_add cfg (nextSubnetID_of r)) w1))])
     else [(subnet4_add cfg (sc_ID cfg), fst (send (subnet4_add cfg (sc_ID cfg)) w))])"
  using assms by (auto simp: CreateSubnet_def getNextSubnetID_def split: prod.splits)

lemma CreateSubnet_backed:
  assumes "fst (run send (CreateSubnet cfg) w) = Inr i"
  shows "\<exists>ex resp. exchanges send (CreateSubnet cfg) w = ex @ [(subnet4_add cfg i, Inr resp)] \<and>
    Result resp = 0 \<and> (\<forall>e\<in>set ex. fst e = subnet4_list) \<and> length ex \<le> 1"
proof -
  have ne: "sc_Subnet cfg \<noteq> []" using assms by (auto simp: CreateSubnet_def)
  show ?thesis
  proof (cases "sc_ID cfg \<le> 0")
    case True
    obtain r w1 where s1: "send subnet4_list w = (r, w1)" by fastforce
    obtain x w2 where s2: "send (subnet4_add cfg (nextSubnetID_of r)) w1 = (x, w2)" by fastforce
    have "\<exists>resp. x = Inr resp \<and> Result resp = 0 \<and> i = nextSubnetID_of r"
      using assms ne True s1 s2
      by (auto simp: CreateSubnet_def getNextSubnetID_def split: sum.splits if_splits)
    then show ?thesis
      using ne True s1 s2 by (auto simp: CreateSubnet_exchanges intro!: exI [of _ "[(subnet4_list, r)]"])
  next
    case False
    obtain x w2 where s2: "send (subnet4_add cfg (sc_ID cfg)) w = (x, w2)" by fastforce
    have "\<exists>resp. x = Inr resp \<and> Result resp = 0 \<and> i = sc_ID cfg"
      using assms ne False s2 by (auto simp: CreateSubnet_def split: sum.splits if_splits)
    then show ?thesis
      using ne False s2 by (auto simp: CreateSubnet_exchanges intro!: exI [of _ "[]"])
  qed
qed

lemma CreateSubnet_exchanges_bound:
  "length (exchanges send (CreateSubnet cfg) w) \<le> 2 \<and>
   length (filter (\<lambda>e. fst e \<noteq> subnet4_list) (exchanges send (CreateSubnet cfg) w)) \<le> 1"
proof (cases "sc_Subnet cfg = []")
  case True
  then show ?thesis by (simp add: CreateSubnet_def)
next
  case False
  then show ?thesis by (auto simp: CreateSubnet_exchanges split: prod.splits)
qed

text \<open>The body of \<open>GetOrCreateSubnet\<close> by cases on what the first listing says.\<close>

lemma GetOrCreateSubnet_run:
  assumes "send subnet4_list w = (r1, w1)"
  shows "run send (GetOrCreateSubnet cfg) w =
    (case subnetID_of (sc_Subnet cfg) r1 of
       Inr i \<Rightarrow> (Inr (i, False), w1)
     | Inl err \<Rightarrow>
         if \<not> Contains err ''no matching Kea subnet'' then (Inl err, w1)
         else (case run send (CreateSubnet cfg) w1 of
           (Inr i, w2) \<Rightarrow> (Inr (i, True), w2)
         | (Inl createErr, w2) \<Rightarrow>
             (case send subnet4_list w2 of (r3, w3) \<Rightarrow>
               (case subnetID_of (sc_Subnet cfg) r3 of
                  Inr i \<Rightarrow> (Inr (i, False), w3)
                | Inl e \<Rightarrow> (Inl (''failed to create subnet: '' @ createErr), w3)))))"
  using assms
  by (simp add: GetOrCreateSubnet_def getOrCreateBody_def GetSubnetID_def split: sum.splits prod.splits)

lemma GetOrCreateSubnet_exchanges:
  assumes "send subnet4_list w = (r1, w1)"
  shows "exchanges send (GetOrCreateSubnet cfg) w =
    (subnet4_list, r1) #
    (case subnetID_of (sc_Subnet cfg) r1 of
       Inr i \<Rightarrow> []
     | Inl err \<Rightarrow>
         if \<not> Contains err ''no matching Kea subnet'' then []
         else exchanges send (CreateSubnet cfg) w1 @
           (case run send (CreateSubnet cfg) w1 of
              (Inr i, w2) \<Rightarrow> []
            | (Inl createErr, w2) \<Rightarrow> [(subnet4_list, fst (send subnet4_list w2))]))"
  using assms
  by (simp add: GetOrCreateSubnet_def getOrCreateBody_def GetSubnetID_def split: sum.splits prod.splits)

text \<open>
  C8: the id that \<open>GetOrCreateSubnet\<close> returns is always backed by Kea's last
  answer: an id reported as created is the one of an accepted \<open>subnet4-add\<close>, sent
  after a listing without the prefix; an id reported as existing is the one the
  last \<open>subnet4-list\<close> gives for the prefix. At most four requests are sent and at
  most one of them is not a listing.
\<close>

theorem GetOrCreateSubnet_backed:
  assumes res: "run send (GetOrCreateSubnet cfg) w = (res, w')"
    and ex: "exchanges send (GetOrCreateSubnet cfg) w = ex"
  shows "(\<forall>i. res = Inr (i, True) \<longrightarrow>
      (\<exists>pre resp err. ex = pre @ [(subnet4_add cfg i, Inr resp)] \<and> Result resp = 0 \<and>
        pre \<noteq> [] \<and> (\<forall>e\<in>set pre. fst e = subnet4_list) \<and>
        subnetID_of (sc_Subnet cfg) (snd (hd pre)) = Inl err \<and> Contains err ''no matching Kea subnet'')) \<and>
    (\<forall>i. res = Inr (i, False) \<longrightarrow>
      fst (last ex) = subnet4_list \<and> subnetID_of (sc_Subnet cfg) (snd (last ex)) = Inr i) \<and>
    length ex \<le> 4 \<and> length (filter (\<lambda>e. fst e \<noteq> subnet4_list) ex) \<le> 1"
proof -
  obtain r1 w1 where s1: "send subnet4_list w = (r1, w1)" by fastforce
  note R = GetOrCreateSubnet_run [of send w r1 w1 cfg, OF s1, unfolded res]
    and E = GetOrCreateSubnet_exchanges [of send w r1 w1 cfg, OF s1, unfolded ex]
  show ?thesis
  proof (cases "subnetID_of (sc_Subnet cfg) r1")
    case (Inr i)
    then show ?thesis using R E by simp
  next
    case (Inl err)
    show ?thesis
    proof (cases "Contains err ''no matching Kea subnet''")
      case False
      then show ?thesis using Inl R E by simp
    next
      case True
      obtain c w2 where c: "run send (CreateSubnet cfg) w1 = (c, w2)" by fastforce
      obtain r3 w3 where s3: "send subnet4_list w2 = (r3, w3)" by fastforce
      note bound = CreateSubnet_exchanges_bound [of send cfg w1]
      show ?thesis
      proof (cases c)
        case (Inr i)
        then obtain pre resp where "exchanges send (CreateSubnet cfg) w1 = pre @ [(subnet4_add cfg i, Inr resp)]"
          "Result resp = 0" "\<forall>e\<in>set pre. fst e = subnet4_list" "length pre \<le> 1"
          using CreateSubnet_backed [of send cfg w1 i] c by auto
        then show ?thesis
          using Inl True Inr c bound R E
          by (auto intro!: exI [of _ "(subnet4_list, r1) # pre"])
      next
        case (Inl createErr)
        then show ?thesis
          using \<open>subnetID_of (sc_Subnet cfg) r1 = Inl err\<close> True c s3 bound R E
          by (auto split: sum.splits)
      qed
    qed
  qed
qed

text \<open>The fake \<open>rejectingKea\<close> of \<open>getorcreatesubnet_test.go\<close>: the prefix is listed only
  after an add was attempted, and every add is rejected. A request of the fake holds its
  mutex from start to end and so is one step.\<close>

record rejectingKea =
  rk_addAttempted :: bool
  rk_existing :: "string \<times> int"
  rk_rejectText :: string
  rk_addCalls :: nat

definition subnetListResponse :: "(string \<times> int) list \<Rightarrow> Response" where
  "subnetListResponse xs = \<lparr>Result = 0, Text = [], Arguments = [(''subnets'',
     GoSlice (map (\<lambda>(cidr, i). GoMap [(''id'', GoInt i), (''subnet'', GoString cidr)]) xs))]\<rparr>"

definition rk_send :: "rejectingKea sender" where
  "rk_send cmd f =
     (if Command cmd = ''subnet4-list'' then
        (Inr (subnetListResponse (if \<not> rk_addAttempted f then [] else [rk_existing f])), f)
      else if Command cmd = ''subnet4-add'' then
        (Inr \<lparr>Result = 1, Text = rk_rejectText f, Arguments = []\<rparr>,
         f\<lparr>rk_addCalls := Suc (rk_addCalls f), rk_addAttempted := True\<rparr>)
      else (Inr zero_Response, f))"

text \<open>The input of \<open>TestGetOrCreateSubnet_ReResolvesWhenCreateRejected\<close>.\<close>

definition rk_demo :: rejectingKea where
  "rk_demo = \<lparr>rk_addAttempted = False, rk_existing = (''10.0.0.0/24'', 5),
     rk_rejectText = ''ID '' @ [CHR 0x27] @ ''5'' @ [CHR 0x27] @ '' is already in use'', rk_addCalls = 0\<rparr>"

theorem GetOrCreateSubnet_backed_witness:
  "let ex = exchanges rk_send (GetOrCreateSubnet (zero_SubnetConfig\<lparr>sc_Subnet := ''10.0.0.0/24''\<rparr>)) rk_demo
   in length ex = 4 \<and> fst (last ex) = subnet4_list \<and> subnetID_of ''10.0.0.0/24'' (snd (last ex)) = Inr 5"
proof -
  let ?cfg = "zero_SubnetConfig\<lparr>sc_Subnet := ''10.0.0.0/24''\<rparr>"
  have r: "run rk_send (GetOrCreateSubnet ?cfg) rk_demo =
      (Inr (5, False), rk_demo\<lparr>rk_addCalls := 1, rk_addAttempted := True\<rparr>)"
    and "length (exchanges rk_send (GetOrCreateSubnet ?cfg) rk_demo) = 4"
    by code_simp+
  then show ?thesis
    using GetOrCreateSubnet_backed [OF r refl] by (simp add: Let_def zero_SubnetConfig_def)
qed

end
