(* ===== verification/SubnetLock.thy ===== *)
theory SubnetLock
  imports KeaServiceFacts
begin

text \<open>
  \<open>Service.subnetLocks\<close>, the mutex per CIDR that serializes
  \<open>GetOrCreateSubnet\<close>, and what it buys: several reconciles run the request
  programs of \<open>GetOrCreateSubnet\<close> interleaved over one Kea server, one request at
  a time, and still no prefix is added twice.
\<close>

section \<open>The lock table\<close>

text \<open>The \<open>sync.Map\<close> from CIDRs to mutexes, the mutexes numbered in the order they
  are allocated, and the goroutine that holds each mutex.\<close>

record lockTable =
  lt_mutex :: "string \<rightharpoonup> nat"
  lt_next :: nat
  lt_owner :: "nat \<rightharpoonup> nat"

definition empty_table :: lockTable where
  "empty_table = \<lparr>lt_mutex = Map.empty, lt_next = 0, lt_owner = Map.empty\<rparr>"

text \<open>\<open>subnetLock\<close>: \<open>LoadOrStore\<close> returns the stored mutex, or stores a new one.\<close>

definition subnetLock :: "string \<Rightarrow> lockTable \<Rightarrow> nat \<times> lockTable" where
  "subnetLock cidr l =
     (case lt_mutex l cidr of
        Some m \<Rightarrow> (m, l)
      | None \<Rightarrow> (lt_next l, l\<lparr>lt_mutex := (lt_mutex l)(cidr \<mapsto> lt_next l), lt_next := Suc (lt_next l)\<rparr>))"

text \<open>\<open>lock := s.subnetLock(cidr); lock.Lock()\<close>: \<open>None\<close> while another goroutine
  holds the mutex; and \<open>lock.Unlock()\<close>: \<open>None\<close> is the run-time panic for a mutex
  that is not locked.\<close>

definition acquire :: "string \<Rightarrow> nat \<Rightarrow> lockTable \<Rightarrow> lockTable option" where
  "acquire cidr t l =
     (case subnetLock cidr l of (m, l') \<Rightarrow>
        (case lt_owner l' m of
           Some _ \<Rightarrow> None
         | None \<Rightarrow> Some (l'\<lparr>lt_owner := (lt_owner l')(m \<mapsto> t)\<rparr>)))"

definition release :: "string \<Rightarrow> lockTable \<Rightarrow> lockTable option" where
  "release cidr l =
     (case subnetLock cidr l of (m, l') \<Rightarrow>
        (case lt_owner l' m of
           None \<Rightarrow> None
         | Some _ \<Rightarrow> Some (l'\<lparr>lt_owner := (lt_owner l')(m := None)\<rparr>)))"

definition holder :: "lockTable \<Rightarrow> string \<Rightarrow> nat option" where
  "holder l cidr = (case lt_mutex l cidr of None \<Rightarrow> None | Some m \<Rightarrow> lt_owner l m)"

definition lock_invar :: "lockTable \<Rightarrow> bool" where
  "lock_invar l \<longleftrightarrow>
     (\<forall>c m. lt_mutex l c = Some m \<longrightarrow> m < lt_next l) \<and>
     (\<forall>c c' m. lt_mutex l c = Some m \<longrightarrow> lt_mutex l c' = Some m \<longrightarrow> c = c') \<and>
     (\<forall>m. lt_next l \<le> m \<longrightarrow> lt_owner l m = None)"

section \<open>A mutex per key, as an interface\<close>

locale keyed_lock =
  fixes acq :: "'k \<Rightarrow> 't \<Rightarrow> 's \<Rightarrow> 's option"
    and rel :: "'k \<Rightarrow> 's \<Rightarrow> 's option"
    and held_by :: "'s \<Rightarrow> 'k \<Rightarrow> 't option"
    and invar :: "'s \<Rightarrow> bool"
  assumes acq_blocks: "invar s \<Longrightarrow> acq k t s = None \<longleftrightarrow> held_by s k \<noteq> None"
    and acq_takes: "invar s \<Longrightarrow> acq k t s = Some s' \<Longrightarrow> invar s' \<and> held_by s' = (held_by s)(k \<mapsto> t)"
    and rel_panics: "invar s \<Longrightarrow> rel k s = None \<longleftrightarrow> held_by s k = None"
    and rel_frees: "invar s \<Longrightarrow> rel k s = Some s' \<Longrightarrow> invar s' \<and> held_by s' = (held_by s)(k := None)"
begin

lemma acq_was_free: "invar s \<Longrightarrow> acq k t s = Some s' \<Longrightarrow> held_by s k = None"
  using acq_blocks [of s k t] by fastforce

lemma acq_other: "invar s \<Longrightarrow> acq k t s = Some s' \<Longrightarrow> held_by s k' = Some u \<Longrightarrow> held_by s' k' = Some u"
  using acq_takes [of s k t s'] acq_was_free [of s k t s'] by auto

lemma rel_other: "invar s \<Longrightarrow> rel k s = Some s' \<Longrightarrow> k' \<noteq> k \<Longrightarrow> held_by s' k' = held_by s k'"
  using rel_frees [of s k s'] by auto

lemma rel_then_acq:
  assumes "invar s" "rel k s = Some s'"
  shows "\<exists>s''. acq k t s' = Some s''"
  using acq_blocks [of s' k t] rel_frees [OF assms] by fastforce

end

lemma holder_subnetLock:
  assumes "lock_invar l" "subnetLock cidr l = (m, l')"
  shows "lock_invar l' \<and> holder l' = holder l \<and> lt_mutex l' cidr = Some m \<and> lt_owner l' = lt_owner l"
proof (cases "lt_mutex l cidr")
  case None
  then have l': "l' = l\<lparr>lt_mutex := (lt_mutex l)(cidr \<mapsto> lt_next l), lt_next := Suc (lt_next l)\<rparr>"
    and m: "m = lt_next l" using assms(2) by (auto simp: subnetLock_def)
  have "lock_invar l'"
    using assms(1) unfolding lock_invar_def l' by (auto simp: less_SucI split: if_splits)
  moreover have "holder l' = holder l"
    using assms(1) None by (auto simp: holder_def l' lock_invar_def fun_eq_iff split: option.splits)
  ultimately show ?thesis by (simp add: l' m)
next
  case (Some n)
  then show ?thesis using assms by (simp add: subnetLock_def)
qed

lemma holder_owner_upd:
  assumes "lock_invar l" "lt_mutex l c = Some m"
  shows "lock_invar (l\<lparr>lt_owner := (lt_owner l)(m := x)\<rparr>) \<and>
    holder (l\<lparr>lt_owner := (lt_owner l)(m := x)\<rparr>) = (holder l)(c := x)"
proof
  show "lock_invar (l\<lparr>lt_owner := (lt_owner l)(m := x)\<rparr>)"
    using assms unfolding lock_invar_def by fastforce
  show "holder (l\<lparr>lt_owner := (lt_owner l)(m := x)\<rparr>) = (holder l)(c := x)"
    using assms by (auto simp: holder_def fun_eq_iff lock_invar_def split: option.splits)
qed

text \<open>The lock table implements the interface.\<close>

interpretation subnet_locks: keyed_lock acquire release holder lock_invar
proof unfold_locales
  fix s k t s'
  assume inv: "lock_invar s"
  obtain m l' where sl: "subnetLock k s = (m, l')" by fastforce
  note h = holder_subnetLock [OF inv sl]
  then have hk: "holder s k = lt_owner l' m" unfolding holder_def by (metis holder_def option.simps(5))
  show "acquire k t s = None \<longleftrightarrow> holder s k \<noteq> None"
    by (auto simp: acquire_def sl hk split: option.splits)
  show "release k s = None \<longleftrightarrow> holder s k = None"
    by (auto simp: release_def sl hk split: option.splits)
  show "lock_invar s' \<and> holder s' = (holder s)(k \<mapsto> t)" if "acquire k t s = Some s'"
    using that h holder_owner_upd [of l' k m "Some t"]
    by (auto simp: acquire_def sl split: option.splits)
  show "lock_invar s' \<and> holder s' = (holder s)(k := None)" if "release k s = Some s'"
    using that h holder_owner_upd [of l' k m None]
    by (auto simp: release_def sl split: option.splits)
qed

section \<open>Interleaved runs\<close>

text \<open>The goroutines' programs, the lock table and the server. A step is one
  goroutine's next request with its reply, or its next lock or unlock.\<close>

record 'w conc =
  c_prog :: "nat \<Rightarrow> (int \<times> bool) result prog"
  c_locks :: lockTable
  c_world :: 'w

inductive conc_step :: "'w sender \<Rightarrow> 'w conc \<Rightarrow> 'w conc \<Rightarrow> bool" for send where
  step_call: "c_prog s t = Call r k \<Longrightarrow> send r (c_world s) = (x, w') \<Longrightarrow>
     conc_step send s (s\<lparr>c_prog := (c_prog s)(t := k x), c_world := w'\<rparr>)"
| step_lock: "c_prog s t = Lock c p \<Longrightarrow> acquire c t (c_locks s) = Some l \<Longrightarrow>
     conc_step send s (s\<lparr>c_prog := (c_prog s)(t := p), c_locks := l\<rparr>)"
| step_unlock: "c_prog s t = Unlock c p \<Longrightarrow> release c (c_locks s) = Some l \<Longrightarrow>
     conc_step send s (s\<lparr>c_prog := (c_prog s)(t := p), c_locks := l\<rparr>)"

inductive conc_reach :: "'w sender \<Rightarrow> 'w conc \<Rightarrow> 'w conc \<Rightarrow> bool" for send s0 where
  reach_start: "conc_reach send s0 s0"
| reach_step: "conc_reach send s0 s \<Longrightarrow> conc_step send s s' \<Longrightarrow> conc_reach send s0 s'"

inductive_cases conc_stepE: "conc_step send s s'"

definition conc_init :: "(nat \<Rightarrow> SubnetConfig) \<Rightarrow> 'w \<Rightarrow> 'w conc" where
  "conc_init cfgs w = \<lparr>c_prog = (\<lambda>t. GetOrCreateSubnet (cfgs t)), c_locks = empty_table, c_world = w\<rparr>"

section \<open>What is assumed of the server\<close>

text \<open>
  The documented behaviour of Kea's \<open>subnet4-list\<close> and \<open>subnet4-add\<close>, over the
  list \<open>subs w\<close> of the subnets a server in state \<open>w\<close> stores. A listing shows them or
  fails, and changes nothing; an accepted add stores one more subnet, and one that is
  rejected or whose reply is lost stores one or none: the client may have repeated it
  at the second server after the first had carried it out. Nothing is assumed about
  which adds are rejected: a server that accepts the same prefix twice satisfies this
  too.
\<close>

definition list_reply :: "(string \<rightharpoonup> int) \<Rightarrow> Response result \<Rightarrow> bool" where
  "list_reply m x \<longleftrightarrow>
     (\<exists>resp xs. x = Inr resp \<and> Result resp = 0 \<and> idx (Arguments resp) ''subnets'' = GoSlice xs \<and>
        (\<forall>p. findSubnetID p xs = m p))"

definition list_failure :: "Response result \<Rightarrow> bool" where
  "list_failure x \<longleftrightarrow>
     (\<forall>p. \<exists>e. subnetID_of p x = Inl e \<and> \<not> Contains e ''no matching Kea subnet'')"

definition accepted :: "Response result \<Rightarrow> bool" where
  "accepted x = (case x of Inl _ \<Rightarrow> False | Inr resp \<Rightarrow> Result resp = 0)"

definition subnet_server :: "'w sender \<Rightarrow> ('w \<Rightarrow> (string \<times> int) list) \<Rightarrow> bool" where
  "subnet_server send subs \<longleftrightarrow>
     (\<forall>w x w'. send subnet4_list w = (x, w') \<longrightarrow>
        w' = w \<and> (list_reply (map_of (subs w)) x \<or> list_failure x)) \<and>
     (\<forall>cfg i w x w'. send (subnet4_add cfg i) w = (x, w') \<longrightarrow>
        subs w' = subs w @ [(sc_Subnet cfg, i)] \<or>
        (subs w' = subs w \<and> \<not> accepted x))"

definition entries :: "string \<Rightarrow> (string \<times> int) list \<Rightarrow> nat" where
  "entries c xs = length (filter (\<lambda>e. fst e = c) xs)"

lemma entries_append [simp]: "entries c (xs @ ys) = entries c xs + entries c ys"
  by (simp add: entries_def)

lemma entries_single [simp]: "entries c [(c', i)] = (if c' = c then 1 else 0)"
  by (simp add: entries_def)

lemma entries_zero: "entries c xs = 0 \<longleftrightarrow> map_of xs c = None"
  by (auto simp: entries_def map_of_eq_None_iff filter_empty_conv)

lemma subnet_server_list:
  assumes "subnet_server send subs" "send subnet4_list w = (x, w')"
  shows "w' = w \<and> (list_reply (map_of (subs w)) x \<or> list_failure x)"
  using assms unfolding subnet_server_def by blast

lemma subnet_server_add:
  assumes "subnet_server send subs" "send (subnet4_add cfg i) w = (x, w')"
  shows "subs w' = subs w @ [(sc_Subnet cfg, i)] \<or>
    (subs w' = subs w \<and> \<not> accepted x)"
  using assms unfolding subnet_server_def by blast

lemma list_reply_subnetID:
  "list_reply m x \<Longrightarrow> subnetID_of p x =
     (case m p of Some i \<Rightarrow> Inr i | None \<Rightarrow> Inl (''no matching Kea subnet for prefix '' @ p))"
  by (auto simp: list_reply_def subnetID_of_def)

lemma list_failure_subnetID:
  "list_failure x \<Longrightarrow> \<exists>e. subnetID_of p x = Inl e \<and> \<not> Contains e ''no matching Kea subnet''"
  by (simp add: list_failure_def)

lemma Contains_no_matching [simp]:
  "Contains (''no matching Kea subnet for prefix '' @ p) ''no matching Kea subnet''"
  by (simp add: Contains_iff)

section \<open>Programs that add a prefix only while they know it is absent\<close>

text \<open>What a goroutine knows of its prefix: nothing, that it is absent (and stays so
  while the lock is held), or the id it is stored under.\<close>

datatype knowledge = Unknown | Absent | Present int

definition learn_list :: "bool \<Rightarrow> int option \<Rightarrow> knowledge" where
  "learn_list held m = (case m of Some i \<Rightarrow> Present i | None \<Rightarrow> if held then Absent else Unknown)"

definition learn_add :: "int \<Rightarrow> Response result \<Rightarrow> knowledge" where
  "learn_add i x = (if accepted x then Present i else Unknown)"

text \<open>
  The program adds only the prefix of \<open>cfg\<close>, only while it holds that prefix's
  lock and only while it knows the prefix to be absent; and it returns only an id
  it knows to be the prefix's.
\<close>

primrec guarded :: "(int \<times> bool) result prog \<Rightarrow> SubnetConfig \<Rightarrow> bool \<Rightarrow> knowledge \<Rightarrow> bool" where
  "guarded (Return a) cfg held kn = (\<not> held \<and> (\<forall>i b. a = Inr (i, b) \<longrightarrow> kn = Present i))"
| "guarded (Call r k) cfg held kn =
     ((r = subnet4_list \<and>
        (\<forall>x. list_failure x \<longrightarrow> guarded (k x) cfg held kn) \<and>
        (\<forall>x m. list_reply m x \<longrightarrow> (held \<and> kn = Absent \<longrightarrow> m (sc_Subnet cfg) = None) \<longrightarrow>
           guarded (k x) cfg held (learn_list held (m (sc_Subnet cfg))))) \<or>
      (\<exists>i. r = subnet4_add cfg i \<and> held \<and> kn = Absent \<and> (\<forall>x. guarded (k x) cfg held (learn_add i x))))"
| "guarded (Lock c p) cfg held kn = (c = sc_Subnet cfg \<and> \<not> held \<and> guarded p cfg True Unknown)"
| "guarded (Unlock c p) cfg held kn =
     (c = sc_Subnet cfg \<and> held \<and> guarded p cfg False (if kn = Absent then Unknown else kn))"

text \<open>The body of \<open>GetOrCreateSubnet\<close> and its unlock, cut after the creation.\<close>

definition finish_create :: "SubnetConfig \<Rightarrow> int result \<Rightarrow> (int \<times> bool) result prog" where
  "finish_create cfg created =
     (case created of
        Inr newID \<Rightarrow> Unlock (sc_Subnet cfg) (Return (Inr (newID, True)))
      | Inl createErr \<Rightarrow>
          Call subnet4_list (\<lambda>r. Unlock (sc_Subnet cfg) (Return
            (case subnetID_of (sc_Subnet cfg) r of
               Inr i \<Rightarrow> Inr (i, False)
             | Inl e \<Rightarrow> Inl (''failed to create subnet: '' @ createErr)))))"

lemma GetOrCreateSubnet_cut:
  "GetOrCreateSubnet cfg =
   Lock (sc_Subnet cfg) (Call subnet4_list (\<lambda>r.
     case subnetID_of (sc_Subnet cfg) r of
       Inr i \<Rightarrow> Unlock (sc_Subnet cfg) (Return (Inr (i, False)))
     | Inl err \<Rightarrow>
         if \<not> Contains err ''no matching Kea subnet'' then Unlock (sc_Subnet cfg) (Return (Inl err))
         else bindP (CreateSubnet cfg) (finish_create cfg)))"
  unfolding GetOrCreateSubnet_def getOrCreateBody_def GetSubnetID_def
  by (auto simp: finish_create_def bindP_assoc fun_eq_iff split: sum.splits
    intro: arg_cong [where f = "bindP (CreateSubnet cfg)"])

lemma guarded_finish_error: "guarded (finish_create cfg (Inl e)) cfg True kn"
  by (auto simp: finish_create_def list_reply_subnetID learn_list_def
    dest!: list_failure_subnetID [of _ "sc_Subnet cfg"] split: option.splits)

lemma guarded_addI:
  "(\<And>x. guarded (k x) cfg True (learn_add i x)) \<Longrightarrow> guarded (Call (subnet4_add cfg i) k) cfg True Absent"
  by auto

lemma guarded_add:
  "guarded (Call (subnet4_add cfg i) (\<lambda>r. finish_create cfg (case r of
       Inl err \<Rightarrow> Inl (''failed to send subnet4-add request: '' @ err)
     | Inr resp \<Rightarrow> if Result resp \<noteq> 0 then Inl (''kea subnet4-add failed: '' @ Text resp) else Inr i)))
    cfg True Absent"
proof -
  have "guarded (finish_create cfg (case r of
       Inl err \<Rightarrow> Inl (''failed to send subnet4-add request: '' @ err)
     | Inr resp \<Rightarrow> if Result resp \<noteq> 0 then Inl (''kea subnet4-add failed: '' @ Text resp) else Inr i))
     cfg True (learn_add i r)" for r
    using guarded_finish_error
    by (auto simp: learn_add_def accepted_def finish_create_def [of _ "Inr _"] split: sum.splits)
  then show ?thesis by (rule guarded_addI)
qed

lemma guarded_create: "guarded (bindP (CreateSubnet cfg) (finish_create cfg)) cfg True Absent"
  using guarded_add [of cfg] guarded_finish_error [of cfg]
  by (auto simp: CreateSubnet_def getNextSubnetID_def learn_list_def simp del: guarded.simps(2)
    simp: guarded.simps(2) [of subnet4_list])

lemma guarded_GetOrCreateSubnet: "guarded (GetOrCreateSubnet cfg) cfg False Unknown"
  using guarded_create [of cfg]
  by (auto simp: GetOrCreateSubnet_cut list_reply_subnetID learn_list_def simp del: append.simps
    dest!: list_failure_subnetID [of _ "sc_Subnet cfg"] split: option.splits)

section \<open>The invariant of interleaved runs\<close>

text \<open>
  Goroutine \<open>t\<close> is at a point of its program where it holds the lock of its prefix
  exactly if the table says so, and where what it knows of its prefix is true.
\<close>

definition knows :: "(string \<times> int) list \<Rightarrow> string \<Rightarrow> bool \<Rightarrow> knowledge \<Rightarrow> bool" where
  "knows xs c held kn =
     (case kn of Unknown \<Rightarrow> True | Absent \<Rightarrow> held \<and> map_of xs c = None | Present i \<Rightarrow> map_of xs c = Some i)"

definition thread_ok :: "('w \<Rightarrow> (string \<times> int) list) \<Rightarrow> (nat \<Rightarrow> SubnetConfig) \<Rightarrow> 'w conc \<Rightarrow> nat \<Rightarrow> bool" where
  "thread_ok subs cfgs s t \<longleftrightarrow>
     (\<exists>held kn. guarded (c_prog s t) (cfgs t) held kn \<and>
        (held \<longleftrightarrow> holder (c_locks s) (sc_Subnet (cfgs t)) = Some t) \<and>
        knows (subs (c_world s)) (sc_Subnet (cfgs t)) held kn)"

definition conc_inv :: "('w \<Rightarrow> (string \<times> int) list) \<Rightarrow> (nat \<Rightarrow> SubnetConfig) \<Rightarrow> 'w conc \<Rightarrow> bool" where
  "conc_inv subs cfgs s \<longleftrightarrow>
     lock_invar (c_locks s) \<and> (\<forall>t. thread_ok subs cfgs s t) \<and>
     (\<forall>c u. holder (c_locks s) c = Some u \<longrightarrow> c = sc_Subnet (cfgs u)) \<and>
     (\<forall>c. entries c (subs (c_world s)) \<le> 1)"

lemma thread_okE:
  assumes "thread_ok subs cfgs s t"
  obtains held kn where "guarded (c_prog s t) (cfgs t) held kn"
    "held \<longleftrightarrow> holder (c_locks s) (sc_Subnet (cfgs t)) = Some t"
    "knows (subs (c_world s)) (sc_Subnet (cfgs t)) held kn"
  using assms unfolding thread_ok_def by blast

lemma thread_okI:
  assumes "guarded (c_prog s t) (cfgs t) held kn"
    "held \<longleftrightarrow> holder (c_locks s) (sc_Subnet (cfgs t)) = Some t"
    "knows (subs (c_world s)) (sc_Subnet (cfgs t)) held kn"
  shows "thread_ok subs cfgs s t"
  using assms unfolding thread_ok_def by blast

lemma knows_learn_list: "knows xs c held (learn_list held (map_of xs c))"
  by (auto simp: knows_def learn_list_def split: option.splits)

lemma knows_append_other:
  "knows xs c held kn \<Longrightarrow> (held \<Longrightarrow> c \<noteq> c') \<Longrightarrow> knows (xs @ [(c', i)]) c held kn"
  by (auto simp: knows_def map_add_def split: knowledge.splits option.splits)

lemma conc_inv_thread: "conc_inv subs cfgs s \<Longrightarrow> thread_ok subs cfgs s t"
  by (simp add: conc_inv_def)

lemma conc_inv_world:
  assumes inv: "conc_inv subs cfgs s"
    and own: "thread_ok subs cfgs (s\<lparr>c_prog := (c_prog s)(t := p), c_world := w'\<rparr>) t"
    and other: "\<And>u hd kn. u \<noteq> t \<Longrightarrow> (hd \<longleftrightarrow> holder (c_locks s) (sc_Subnet (cfgs u)) = Some u) \<Longrightarrow>
      knows (subs (c_world s)) (sc_Subnet (cfgs u)) hd kn \<Longrightarrow> knows (subs w') (sc_Subnet (cfgs u)) hd kn"
    and one: "\<And>c. entries c (subs w') \<le> 1"
  shows "conc_inv subs cfgs (s\<lparr>c_prog := (c_prog s)(t := p), c_world := w'\<rparr>)"
proof -
  have "thread_ok subs cfgs (s\<lparr>c_prog := (c_prog s)(t := p), c_world := w'\<rparr>) u" for u
  proof (cases "u = t")
    case False
    from conc_inv_thread [OF inv, of u] show ?thesis
      by (rule thread_okE) (use False other in \<open>auto intro!: thread_okI\<close>)
  qed (use own in simp)
  then show ?thesis using inv one by (simp add: conc_inv_def)
qed

lemma conc_inv_locks:
  assumes inv: "conc_inv subs cfgs s" and l: "lock_invar l"
    and own: "thread_ok subs cfgs (s\<lparr>c_prog := (c_prog s)(t := p), c_locks := l\<rparr>) t"
    and other: "\<And>c u. u \<noteq> t \<Longrightarrow> holder l c = Some u \<longleftrightarrow> holder (c_locks s) c = Some u"
    and mine: "\<And>c. holder l c = Some t \<Longrightarrow> c = sc_Subnet (cfgs t)"
  shows "conc_inv subs cfgs (s\<lparr>c_prog := (c_prog s)(t := p), c_locks := l\<rparr>)"
proof -
  have "thread_ok subs cfgs (s\<lparr>c_prog := (c_prog s)(t := p), c_locks := l\<rparr>) u" for u
    using inv own other by (cases "u = t") (auto simp: conc_inv_def thread_ok_def)
  moreover have "holder l c = Some u \<Longrightarrow> c = sc_Subnet (cfgs u)" for c u
    using inv other mine by (cases "u = t") (auto simp: conc_inv_def)
  ultimately show ?thesis using inv l by (simp add: conc_inv_def)
qed

lemma conc_inv_call:
  assumes inv: "conc_inv subs cfgs s" and srv: "subnet_server send subs"
    and c: "c_prog s t = Call r k" and r: "send r (c_world s) = (x, w')"
  shows "conc_inv subs cfgs (s\<lparr>c_prog := (c_prog s)(t := k x), c_world := w'\<rparr>)"
proof -
  let ?p = "sc_Subnet (cfgs t)" and ?xs = "subs (c_world s)"
  from conc_inv_thread [OF inv, of t] obtain hd kn where g: "guarded (Call r k) (cfgs t) hd kn"
    and h: "hd \<longleftrightarrow> holder (c_locks s) ?p = Some t" and kn: "knows ?xs ?p hd kn"
    unfolding c [symmetric] by (rule thread_okE)
  have one: "entries c ?xs \<le> 1" for c using inv by (simp add: conc_inv_def)
  from g consider
      (l) "r = subnet4_list" "\<And>x. list_failure x \<Longrightarrow> guarded (k x) (cfgs t) hd kn"
        "\<And>x m. list_reply m x \<Longrightarrow> (hd \<and> kn = Absent \<longrightarrow> m ?p = None) \<Longrightarrow>
           guarded (k x) (cfgs t) hd (learn_list hd (m ?p))"
    | (a) i where "r = subnet4_add (cfgs t) i" hd "kn = Absent" "guarded (k x) (cfgs t) True (learn_add i x)"
    by auto
  then show ?thesis
  proof cases
    case l
    have w': "w' = c_world s" and "list_reply (map_of ?xs) x \<or> list_failure x"
      using subnet_server_list [OF srv] r l(1) by auto
    moreover have "hd \<and> kn = Absent \<longrightarrow> map_of ?xs ?p = None" using kn by (auto simp: knows_def)
    ultimately have "\<exists>kn. guarded (k x) (cfgs t) hd kn \<and> knows ?xs ?p hd kn"
      using l(2,3) kn knows_learn_list [of ?xs ?p hd] by blast
    then show ?thesis
      using h w' one by (intro conc_inv_world [OF inv]) (auto intro: thread_okI)
  next
    case (a i)
    have none: "map_of ?xs ?p = None" using kn a by (simp add: knows_def)
    have srv': "subs w' = ?xs @ [(?p, i)] \<or> subs w' = ?xs \<and> \<not> accepted x"
      using subnet_server_add [OF srv] r a(1) by blast
    then have "knows (subs w') ?p True (learn_add i x)"
      using none by (auto simp: knows_def learn_add_def map_add_def)
    moreover have "entries c (subs w') \<le> 1" for c
      using srv' one [of c] none by (cases "c = ?p") (auto simp: entries_zero)
    moreover have "knows (subs w') (sc_Subnet (cfgs u)) hu ku"
      if "u \<noteq> t" "hu \<longleftrightarrow> holder (c_locks s) (sc_Subnet (cfgs u)) = Some u"
        "knows ?xs (sc_Subnet (cfgs u)) hu ku" for u hu ku
    proof -
      have "hu \<Longrightarrow> sc_Subnet (cfgs u) \<noteq> ?p" using that h a(2) by auto
      then show ?thesis using srv' that(3) knows_append_other [OF that(3)] by auto
    qed
    ultimately show ?thesis
      using a h by (intro conc_inv_world [OF inv]) (auto intro: thread_okI)
  qed
qed

lemma conc_inv_step:
  assumes "conc_step send s s'" and inv: "conc_inv subs cfgs s" and srv: "subnet_server send subs"
  shows "conc_inv subs cfgs s'"
  using assms(1)
proof cases
  case (step_call t r k x w')
  then show ?thesis using conc_inv_call [OF inv srv] by simp
next
  case (step_lock t c p l)
  have li: "lock_invar (c_locks s)" using inv by (simp add: conc_inv_def)
  note l = subnet_locks.acq_takes [OF li step_lock(3)] and free = subnet_locks.acq_was_free [OF li step_lock(3)]
  from conc_inv_thread [OF inv, of t]
  have "c = sc_Subnet (cfgs t)" "guarded p (cfgs t) True Unknown"
    using step_lock(2) by (auto elim!: thread_okE)
  then show ?thesis unfolding step_lock(1)
    using l free inv
    by (intro conc_inv_locks [OF inv]) (auto intro: thread_okI simp: knows_def conc_inv_def split: if_splits)
next
  case (step_unlock t c p l)
  have li: "lock_invar (c_locks s)" using inv by (simp add: conc_inv_def)
  note l = subnet_locks.rel_frees [OF li step_unlock(3)]
  from conc_inv_thread [OF inv, of t] obtain kn where g: "c = sc_Subnet (cfgs t)"
    "guarded p (cfgs t) False (if kn = Absent then Unknown else kn)"
    "holder (c_locks s) c = Some t" "knows (subs (c_world s)) c True kn"
    using step_unlock(2) by (auto elim!: thread_okE)
  let ?s' = "s\<lparr>c_prog := (c_prog s)(t := p), c_locks := l\<rparr>"
  have "thread_ok subs cfgs ?s' t"
    using g l by (intro thread_okI [where held = False and kn = "if kn = Absent then Unknown else kn"])
      (auto simp: knows_def split: knowledge.splits)
  moreover have "holder l c' = Some t \<Longrightarrow> c' = sc_Subnet (cfgs t)" for c'
    using inv l by (auto simp: conc_inv_def split: if_splits)
  moreover have "holder l c' = Some u \<longleftrightarrow> holder (c_locks s) c' = Some u" if "u \<noteq> t" for c' u
    using l g(3) that by auto
  ultimately show ?thesis unfolding step_unlock(1)
    using l by (intro conc_inv_locks [OF inv]) blast+
qed

lemma conc_inv_init:
  assumes "\<And>c. entries c (subs w) \<le> 1"
  shows "conc_inv subs cfgs (conc_init cfgs w)"
  using assms guarded_GetOrCreateSubnet
  by (auto simp: conc_inv_def conc_init_def lock_invar_def empty_table_def holder_def knows_def
    intro!: thread_okI [where held = False and kn = Unknown])

lemma conc_inv_reach:
  assumes "conc_reach send s0 s" "conc_inv subs cfgs s0" "subnet_server send subs"
  shows "conc_inv subs cfgs s"
  using assms by (induction rule: conc_reach.induct) (auto intro: conc_inv_step)

section \<open>No deadlock\<close>

lemma conc_progress:
  assumes inv: "conc_inv subs cfgs s" and t: "\<And>a. c_prog s t \<noteq> Return a"
  shows "\<exists>s'. conc_step send s s'"
proof -
  have li: "lock_invar (c_locks s)" using inv by (simp add: conc_inv_def)
  have call: "\<exists>s'. conc_step send s s'" if "c_prog s u = Call r k" for u r k
    using step_call [OF that, of send "fst (send r (c_world s))" "snd (send r (c_world s))"] by auto
  have unlock: "\<exists>s'. conc_step send s s'" if u: "c_prog s u = Unlock c p" for u c p
  proof -
    have "holder (c_locks s) c = Some u"
      using conc_inv_thread [OF inv, of u] u by (auto elim!: thread_okE)
    then obtain l where "release c (c_locks s) = Some l"
      using subnet_locks.rel_panics [OF li, of c] by auto
    then show ?thesis using step_unlock [OF u] by blast
  qed
  have holds: "\<exists>s'. conc_step send s s'" if u: "holder (c_locks s) c = Some u" for c u
  proof -
    have "c = sc_Subnet (cfgs u)" using inv u by (simp add: conc_inv_def)
    then have "\<exists>kn. guarded (c_prog s u) (cfgs u) True kn"
      using conc_inv_thread [OF inv, of u] u by (auto elim!: thread_okE)
    then show ?thesis using call unlock by (cases "c_prog s u") auto
  qed
  show ?thesis
  proof (cases "c_prog s t")
    case (Lock c p)
    show ?thesis
    proof (cases "acquire c t (c_locks s)")
      case None
      then show ?thesis using holds subnet_locks.acq_blocks [OF li, of c t] by auto
    next
      case (Some l)
      then show ?thesis using step_lock [OF Lock] by blast
    qed
  qed (use t call unlock in auto)
qed

text \<open>A program that ends within \<open>n\<close> steps, whatever the replies.\<close>

primrec ends_within :: "'a prog \<Rightarrow> nat \<Rightarrow> bool" where
  "ends_within (Return a) n = True"
| "ends_within (Call r k) n = (0 < n \<and> (\<forall>x. ends_within (k x) (n - 1)))"
| "ends_within (Lock c p) n = (0 < n \<and> ends_within p (n - 1))"
| "ends_within (Unlock c p) n = (0 < n \<and> ends_within p (n - 1))"

lemma ends_within_finish_create: "ends_within (finish_create cfg c) 2"
  by (auto simp: finish_create_def split: sum.splits)

lemma ends_within_mono: "ends_within p n \<Longrightarrow> n \<le> m \<Longrightarrow> ends_within p m"
proof (induction p arbitrary: n m)
  case (Call r k)
  then show ?case by (auto intro: Call.IH [OF rangeI, of _ "n - 1"])
next
  case (Lock c p)
  then show ?case by (auto intro: Lock.IH [of "n - 1"])
next
  case (Unlock c p)
  then show ?case by (auto intro: Unlock.IH [of "n - 1"])
qed simp

lemma ends_within_GetOrCreateSubnet: "ends_within (GetOrCreateSubnet cfg) 6"
proof -
  have "ends_within (bindP (CreateSubnet cfg) (finish_create cfg)) 4"
    by (auto simp: CreateSubnet_def getNextSubnetID_def intro: ends_within_mono [OF ends_within_finish_create])
  then show ?thesis by (auto simp: GetOrCreateSubnet_cut split: sum.splits)
qed

section \<open>Schedules and the stateful fake\<close>

text \<open>A schedule names the goroutine to move next; a goroutine that is blocked or
  has ended passes.\<close>

definition sched_step :: "'w sender \<Rightarrow> nat \<Rightarrow> 'w conc \<Rightarrow> 'w conc option" where
  "sched_step send t s =
     (case c_prog s t of
        Return a \<Rightarrow> None
      | Call r k \<Rightarrow>
          (case send r (c_world s) of (x, w') \<Rightarrow>
             Some (s\<lparr>c_prog := (c_prog s)(t := k x), c_world := w'\<rparr>))
      | Lock c p \<Rightarrow> map_option (\<lambda>l. s\<lparr>c_prog := (c_prog s)(t := p), c_locks := l\<rparr>) (acquire c t (c_locks s))
      | Unlock c p \<Rightarrow> map_option (\<lambda>l. s\<lparr>c_prog := (c_prog s)(t := p), c_locks := l\<rparr>) (release c (c_locks s)))"

primrec sched :: "'w sender \<Rightarrow> nat list \<Rightarrow> 'w conc \<Rightarrow> 'w conc" where
  "sched send [] s = s"
| "sched send (t # ts) s = sched send ts (case sched_step send t s of None \<Rightarrow> s | Some s' \<Rightarrow> s')"

lemma sched_step_sound: "sched_step send t s = Some s' \<Longrightarrow> conc_step send s s'"
  by (auto simp: sched_step_def intro: conc_step.intros split: prog.splits prod.splits)

lemma sched_reach: "conc_reach send s0 s \<Longrightarrow> conc_reach send s0 (sched send ts s)"
proof (induction ts arbitrary: s)
  case (Cons t ts)
  then have "conc_reach send s0 (case sched_step send t s of None \<Rightarrow> s | Some s' \<Rightarrow> s')"
    by (auto intro: reach_step sched_step_sound split: option.splits)
  then show ?case using Cons.IH by simp
qed simp

text \<open>\<open>statefulKea\<close> of \<open>getorcreatesubnet_test.go\<close>.\<close>

record statefulKea =
  sk_subnets :: "(string \<times> int) list"
  sk_addCalls :: nat

definition parseSubnet4Add :: "Request \<Rightarrow> string \<times> int" where
  "parseSubnet4Add cmd =
     (case idx (Args cmd) ''subnet4'' of
        GoMaps (m # ms) \<Rightarrow>
          (str_of (idx m ''subnet''),
           (case idx m ''id'' of GoInt v \<Rightarrow> v | GoFloat v \<Rightarrow> f64_to_int v | _ \<Rightarrow> 0))
      | _ \<Rightarrow> ([], 0))"

definition sk_send :: "statefulKea sender" where
  "sk_send cmd f =
     (if Command cmd = ''subnet4-list'' then (Inr (subnetListResponse (sk_subnets f)), f)
      else if Command cmd = ''subnet4-add'' then
        (Inr zero_Response, f\<lparr>sk_addCalls := Suc (sk_addCalls f), sk_subnets := sk_subnets f @ [parseSubnet4Add cmd]\<rparr>)
      else (Inr zero_Response, f))"

definition sk_empty :: statefulKea where
  "sk_empty = \<lparr>sk_subnets = [], sk_addCalls = 0\<rparr>"

lemma findSubnetID_entries:
  "findSubnetID p (map (\<lambda>(cidr, i). GoMap [(''id'', GoInt i), (''subnet'', GoString cidr)]) xs) = map_of xs p"
  by (induction xs) (auto simp: subnetStr_of_def subnetIntID_of_def idx_def)

lemma parseSubnet4Add_add [simp]: "parseSubnet4Add (subnet4_add cfg i) = (sc_Subnet cfg, i)"
  by (simp add: parseSubnet4Add_def subnet4_add_def subnet4_of_def idx_def str_of_def)

lemma Command_requests [simp]:
  "Command subnet4_list = ''subnet4-list''"
  "Command (subnet4_add cfg i) = ''subnet4-add''"
  by (simp_all add: subnet4_list_def subnet4_add_def)

lemma subnet_server_statefulKea: "subnet_server sk_send sk_subnets"
  by (auto simp: subnet_server_def sk_send_def list_reply_def subnetListResponse_def idx_def
    findSubnetID_entries accepted_def zero_Response_def)

section \<open>The properties\<close>

text \<open>
  C9: however the \<open>GetOrCreateSubnet\<close> calls of any number of reconciles interleave
  over a Kea server that may fail at any request and may lose replies, no prefix is
  ever stored twice, and every call that has returned an id has returned the one
  its prefix is stored under, so all callers for one prefix agree.
\<close>

theorem GetOrCreateSubnet_no_duplicates:
  assumes srv: "subnet_server send subs" and start: "\<And>c. entries c (subs w) \<le> 1"
    and reach: "conc_reach send (conc_init cfgs w) s"
  shows "(\<forall>c. entries c (subs (c_world s)) \<le> 1) \<and>
    (\<forall>t i created. c_prog s t = Return (Inr (i, created)) \<longrightarrow>
       map_of (subs (c_world s)) (sc_Subnet (cfgs t)) = Some i)"
proof -
  have inv: "conc_inv subs cfgs s"
    by (rule conc_inv_reach [OF reach conc_inv_init srv]) (rule start)
  then have "map_of (subs (c_world s)) (sc_Subnet (cfgs t)) = Some i"
    if "c_prog s t = Return (Inr (i, created))" for t i created
    using conc_inv_thread [OF inv, of t] that by (auto elim!: thread_okE simp: knows_def)
  then show ?thesis using inv by (simp add: conc_inv_def)
qed

text \<open>
  The locks cannot deadlock: in every reachable state in which some call has
  not returned, some call can take a step, and no call takes more than six.
\<close>

theorem GetOrCreateSubnet_no_deadlock:
  assumes srv: "subnet_server send subs" and start: "\<And>c. entries c (subs w) \<le> 1"
    and reach: "conc_reach send (conc_init cfgs w) s"
    and running: "\<And>a. c_prog s t \<noteq> Return a"
  shows "(\<exists>s'. conc_step send s s') \<and> ends_within (GetOrCreateSubnet (cfgs t)) 6"
proof -
  have "conc_inv subs cfgs s"
    by (rule conc_inv_reach [OF reach conc_inv_init srv]) (rule start)
  then show ?thesis using conc_progress [OF _ running] ends_within_GetOrCreateSubnet by blast
qed

abbreviation demo_cfg :: SubnetConfig where
  "demo_cfg \<equiv> zero_SubnetConfig\<lparr>sc_Subnet := ''10.0.0.0/24''\<rparr>"

definition demo_run :: "statefulKea conc" where
  "demo_run = sched sk_send [0, 1, 0, 2, 0, 1, 0, 0, 1, 2, 1, 1] (conc_init (\<lambda>_. demo_cfg) sk_empty)"

definition outcome :: "'a prog \<Rightarrow> 'a option" where
  "outcome p = (case p of Return a \<Rightarrow> Some a | _ \<Rightarrow> None)"

lemma outcome_Some [simp]: "outcome p = Some a \<longleftrightarrow> p = Return a"
  by (cases p) (auto simp: outcome_def)

lemma demo_run_outcome:
  "outcome (c_prog demo_run 1) = Some (Inr (1, False))"
  "outcome (c_prog demo_run 2) = None"
  by code_simp+

theorem GetOrCreateSubnet_no_duplicates_witness:
  "map_of (sk_subnets (c_world demo_run)) ''10.0.0.0/24'' = Some 1 \<and>
   entries ''10.0.0.0/24'' (sk_subnets (c_world demo_run)) \<le> 1"
proof -
  have r: "conc_reach sk_send (conc_init (\<lambda>_. demo_cfg) sk_empty) demo_run"
    unfolding demo_run_def by (rule sched_reach) (rule reach_start)
  have e: "entries c (sk_subnets sk_empty) \<le> 1" for c by (simp add: entries_def sk_empty_def)
  show ?thesis
    using GetOrCreateSubnet_no_duplicates [OF subnet_server_statefulKea e r] demo_run_outcome(1)
    by (auto simp: zero_SubnetConfig_def)
qed

theorem GetOrCreateSubnet_no_deadlock_witness: "\<exists>s'. conc_step sk_send demo_run s'"
proof -
  have r: "conc_reach sk_send (conc_init (\<lambda>_. demo_cfg) sk_empty) demo_run"
    unfolding demo_run_def by (rule sched_reach) (rule reach_start)
  have e: "entries c (sk_subnets sk_empty) \<le> 1" for c by (simp add: entries_def sk_empty_def)
  have "c_prog demo_run 2 \<noteq> Return a" for a
    using demo_run_outcome(2) by (metis option.discI outcome_Some)
  then show ?thesis
    using GetOrCreateSubnet_no_deadlock [OF subnet_server_statefulKea e r] by blast
qed

end
