(* ===== verification/ReservationFacts.thy ===== *)
theory ReservationFacts
  imports KeaServiceFacts
begin

text \<open>
  The reservation and lease operations of the Kea service: what their results
  mean in terms of Kea's replies, idempotence and round trips over a server that
  stores host reservations, which lease is selected, and that
  \<open>GetSubnetInfo\<close> reads back what \<open>CreateSubnet\<close> wrote.
\<close>

section \<open>Normalised MACs\<close>

lemma normMAC_idem [simp]: "normMAC (normMAC mac) = normMAC mac"
  by (simp add: normMAC_def ToLower_TrimSpace)

lemma normMAC_Nil [simp]: "normMAC [] = []"
  by (simp add: normMAC_def)

section \<open>The scans over hosts\<close>

lemma hostInSubnet_iff:
  "hostInSubnet mac i hosts \<longleftrightarrow>
     (\<exists>hm. GoMap hm \<in> set hosts \<and> hostHasMAC mac hm \<and> \<not> hostSubnetDiffers i hm)"
  by (induction mac i hosts rule: hostInSubnet.induct) (auto split: go_any.splits)

lemma hostWithMAC_iff: "hostWithMAC mac hosts \<longleftrightarrow> (\<exists>hm. GoMap hm \<in> set hosts \<and> hostHasMAC mac hm)"
  by (induction mac hosts rule: hostWithMAC.induct) (auto split: go_any.splits)

section \<open>What a result of EnsureReservationForMACIP means\<close>

text \<open>The replies that count as evidence of a reservation.\<close>

definition shows_reservation :: "string \<Rightarrow> int \<Rightarrow> Request \<times> Response result \<Rightarrow> bool" where
  "shows_reservation mac i e \<longleftrightarrow>
     (\<exists>resp hosts hm. snd e = Inr resp \<and> Result resp = 0 \<and> idx (Arguments resp) ''hosts'' = GoSlice hosts \<and>
        GoMap hm \<in> set hosts \<and> hostHasMAC mac hm \<and>
        (fst e = reservationGetByID mac \<and> \<not> hostSubnetDiffers i hm \<or>
         fst e = mk_request ''reservation-get-all'' [(keaFieldSubnetID, GoInt i)]))"

lemma existsByID_True:
  "existsByID mac i x = Some True \<Longrightarrow> shows_reservation mac i (reservationGetByID mac, x)"
  by (auto simp: existsByID_def shows_reservation_def hostInSubnet_iff Let_def
    split: sum.splits if_splits option.splits elim!: as_slice.elims)

lemma existsInAll_True:
  "existsInAll mac x \<Longrightarrow>
   shows_reservation mac i (mk_request ''reservation-get-all'' [(keaFieldSubnetID, GoInt i)], x)"
  by (auto simp: existsInAll_def shows_reservation_def hostWithMAC_iff
    split: sum.splits if_splits option.splits elim!: as_slice.elims)

lemma macReservationExists_backed:
  assumes "normMAC mac \<noteq> []"
  shows "exchanges send (macReservationExists mac i) w \<noteq> [] \<and>
    (fst (run send (macReservationExists mac i) w) \<longrightarrow>
       shows_reservation (normMAC mac) i (last (exchanges send (macReservationExists mac i) w)))"
  using assms existsByID_True existsInAll_True
  by (auto simp: macReservationExists_def Let_def split: prod.splits option.splits)

text \<open>
  C11: a reservation reported as created is an accepted \<open>reservation-add\<close> for the
  normalised MAC, subnet and address, the last request sent; one reported as existing
  rests on a host with that MAC in Kea's last reply, and nothing was written. An
  empty MAC is refused without a request.
\<close>

theorem EnsureReservation_backed:
  assumes res: "run send (EnsureReservationForMACIP mac i ip) w = (res, w')"
    and ex: "exchanges send (EnsureReservationForMACIP mac i ip) w = ex"
  shows "(res = Inr True \<longrightarrow>
      (\<exists>pre resp. ex = pre @ [(reservation_add (normMAC mac) i ip, Inr resp)] \<and> Result resp = 0 \<and>
         (\<forall>e\<in>set pre. read_cmd (fst e)))) \<and>
    (res = Inr False \<longrightarrow>
      ex \<noteq> [] \<and> shows_reservation (normMAC mac) i (last ex) \<and> (\<forall>e\<in>set ex. read_cmd (fst e))) \<and>
    (normMAC mac = [] \<longrightarrow> res = Inl ''missing mac'' \<and> ex = [] \<and> w' = w)"
proof (cases "normMAC mac = []")
  case True
  then show ?thesis using res ex by (auto simp: EnsureReservationForMACIP_def)
next
  case False
  let ?m = "macReservationExists (normMAC mac) i"
  have reads: "\<forall>e\<in>set (exchanges send ?m w). read_cmd (fst e)"
    by (auto intro: exchanges_calls_only [OF macReservationExists_reads])
  obtain b w1 where m: "run send ?m w = (b, w1)" by fastforce
  note backed = macReservationExists_backed [of "normMAC mac" send i w, unfolded m]
  show ?thesis
  proof (cases b)
    case True
    then show ?thesis using False res ex m backed reads
      by (auto simp: EnsureReservationForMACIP_def Let_def)
  next
    case nb: False
    then show ?thesis using False res ex m reads
      by (auto simp: EnsureReservationForMACIP_def Let_def split: prod.splits sum.splits if_splits)
  qed
qed

section \<open>A server that stores reservations\<close>

text \<open>
  The documented behaviour of Kea's host commands over the list \<open>hosts w\<close> of the
  reservations (MAC, subnet id, address or the empty string) it stores:
  \<open>reservation-get-by-id\<close> shows those of a MAC, or says that there are none;
  \<open>reservation-add\<close>, if accepted, stores one more; \<open>reservation-del\<close>, if accepted,
  removes those of the MAC in the subnet. Numbers arrive as JSON numbers.
\<close>

type_synonym host = "string \<times> int \<times> string"

definition host_json :: "host \<Rightarrow> go_any" where
  "host_json h = (case h of (mac, sid, ip) \<Rightarrow>
     GoMap ([(keaFieldHWAddress, GoString mac), (keaFieldSubnetID, GoFloat (of_int sid))] @
       (if ip = [] then [] else [(keaFieldIPAddress, GoString ip)])))"

definition hosts_reply :: "host list \<Rightarrow> Response result \<Rightarrow> bool" where
  "hosts_reply hs x \<longleftrightarrow>
     (\<exists>resp. x = Inr resp \<and>
        (Result resp = 0 \<and> idx (Arguments resp) ''hosts'' = GoSlice (map host_json hs) \<or>
         hs = [] \<and> Result resp \<noteq> 0 \<and> Contains (ToLower (Text resp)) ''0 ipv4 host''))"

definition reservation_del :: "string \<Rightarrow> int \<Rightarrow> Request" where
  "reservation_del mac i =
     mk_request ''reservation-del''
       [(keaFieldSubnetID, GoInt i), (keaFieldIdentifierType, GoString keaFieldHWAddress),
        (keaFieldIdentifier, GoString mac), (''operation-target'', GoString ''all'')]"

definition host_server :: "'w sender \<Rightarrow> ('w \<Rightarrow> host list) \<Rightarrow> bool" where
  "host_server send hosts \<longleftrightarrow>
     (\<forall>mac w. \<exists>x. send (reservationGetByID mac) w = (x, w) \<and>
        hosts_reply (filter (\<lambda>h. fst h = mac) (hosts w)) x) \<and>
     (\<forall>mac i ip w. \<exists>resp w'. send (reservation_add mac i ip) w = (Inr resp, w') \<and>
        hosts w' = (if Result resp = 0 then hosts w @ [(mac, i, TrimSpace ip)] else hosts w)) \<and>
     (\<forall>mac i w. \<exists>resp w'. send (reservation_del mac i) w = (Inr resp, w') \<and>
        hosts w' = (if Result resp = 0 then filter (\<lambda>h. \<not> (fst h = mac \<and> fst (snd h) = i)) (hosts w)
                    else hosts w))"

definition reserved :: "host list \<Rightarrow> string \<Rightarrow> int \<Rightarrow> bool" where
  "reserved hs mac i \<longleftrightarrow> (\<exists>ip. (mac, i, ip) \<in> set hs)"

text \<open>Positive Go \<open>int\<close>s; Kea's subnet ids are among them.\<close>

abbreviation id_range :: "int \<Rightarrow> bool" where
  "id_range i \<equiv> 0 < i \<and> i < 2 ^ 63"

lemma f64_to_int_eq: "id_range i \<Longrightarrow> f64_to_int (of_int s) = i \<longleftrightarrow> s = i"
  by (auto simp: f64_to_int_def Let_def split: if_splits)

lemma host_json_match:
  assumes "id_range i"
  shows "(\<exists>hm. host_json (m, s, ip) = GoMap hm \<and> hostHasMAC mac hm \<and> \<not> hostSubnetDiffers i hm)
    \<longleftrightarrow> EqualFold m mac \<and> s = i"
  using assms f64_to_int_eq [OF assms, of s]
  by (auto simp: host_json_def hostHasMAC_def hostSubnetDiffers_def idx_def)

lemma existsByID_hosts_reply:
  assumes "hosts_reply (filter (\<lambda>h. fst h = mac) hs) x" and i: "id_range i"
  shows "existsByID mac i x = Some (reserved hs mac i)"
proof -
  have "(\<exists>hm. GoMap hm \<in> set (map host_json (filter (\<lambda>h. fst h = mac) hs)) \<and>
      hostHasMAC mac hm \<and> \<not> hostSubnetDiffers i hm) \<longleftrightarrow> reserved hs mac i"
    (is "?l \<longleftrightarrow> ?r")
  proof
    assume ?l
    then obtain h hm where h: "h \<in> set hs" "fst h = mac" "GoMap hm = host_json h"
      "hostHasMAC mac hm" "\<not> hostSubnetDiffers i hm"
      unfolding set_map set_filter image_iff by blast
    obtain s ip where hs: "h = (mac, s, ip)" using h(2) by (cases h) auto
    then have "s = i" using host_json_match [OF i, of mac s ip mac] h(3-5) by metis
    then show ?r using h(1) hs by (auto simp: reserved_def)
  next
    assume ?r
    then obtain ip where "(mac, i, ip) \<in> set hs" by (auto simp: reserved_def)
    moreover obtain hm where "host_json (mac, i, ip) = GoMap hm" "hostHasMAC mac hm" "\<not> hostSubnetDiffers i hm"
      using host_json_match [OF i, of mac i ip mac] by auto
    ultimately show ?l by force
  qed
  then have found: "hostInSubnet mac i (map host_json (filter (\<lambda>h. fst h = mac) hs)) \<longleftrightarrow> reserved hs mac i"
    by (simp only: hostInSubnet_iff)
  have none: "filter (\<lambda>h. fst h = mac) hs = [] \<Longrightarrow> \<not> reserved hs mac i"
    by (auto simp: reserved_def filter_empty_conv)
  from assms(1) obtain resp where x: "x = Inr resp" and
    "Result resp = 0 \<and> idx (Arguments resp) ''hosts'' = GoSlice (map host_json (filter (\<lambda>h. fst h = mac) hs)) \<or>
     filter (\<lambda>h. fst h = mac) hs = [] \<and> Result resp \<noteq> 0 \<and> Contains (ToLower (Text resp)) ''0 ipv4 host''"
    unfolding hosts_reply_def by blast
  then show ?thesis
    by (elim disjE conjE) (simp_all add: existsByID_def found none Let_def del: filter_empty_conv)
qed

lemma macReservationExists_server:
  assumes srv: "host_server send hosts" and mac: "normMAC mac \<noteq> []" and i: "id_range i"
  shows "run send (macReservationExists mac i) w = (reserved (hosts w) (normMAC mac) i, w)"
proof -
  obtain x where x: "send (reservationGetByID (normMAC mac)) w = (x, w)"
    "hosts_reply (filter (\<lambda>h. fst h = normMAC mac) (hosts w)) x"
    using srv unfolding host_server_def by blast
  then show ?thesis
    using existsByID_hosts_reply [OF x(2) i] mac by (simp add: macReservationExists_def Let_def)
qed

lemma EnsureReservation_server:
  assumes srv: "host_server send hosts" and mac: "normMAC mac \<noteq> []" and i: "id_range i"
  shows "run send (EnsureReservationForMACIP mac i ip) w =
    (if reserved (hosts w) (normMAC mac) i then (Inr False, w)
     else case send (reservation_add (normMAC mac) i ip) w of (r, w') \<Rightarrow>
       (case r of
          Inl e \<Rightarrow> Inl e
        | Inr resp \<Rightarrow> if Result resp \<noteq> 0 then Inl (''kea reservation-add failed: '' @ Text resp) else Inr True, w'))"
  using macReservationExists_server [OF srv, of "normMAC mac" i w] mac i
  by (auto simp: EnsureReservationForMACIP_def Let_def split: prod.splits)

lemma host_server_add:
  assumes "host_server send hosts"
  obtains resp w' where "send (reservation_add mac i ip) w = (Inr resp, w')"
    "hosts w' = (if Result resp = 0 then hosts w @ [(mac, i, TrimSpace ip)] else hosts w)"
  using assms unfolding host_server_def by blast

text \<open>
  C12: over a server that stores reservations, ensuring a reservation is
  idempotent and is indifferent to case and surrounding space of the MAC: after a
  success the MAC is reserved in the subnet, and ensuring it again, with any
  spelling of the MAC and any address, reports an existing reservation and changes
  nothing. Nothing but this reservation was added, and it was added only if it was
  not there.
\<close>

theorem EnsureReservation_idempotent:
  assumes srv: "host_server send hosts" and mac: "normMAC mac \<noteq> []" and i: "id_range i"
    and run1: "run send (EnsureReservationForMACIP mac i ip) w = (Inr created, w')"
    and same: "normMAC mac' = normMAC mac"
  shows "reserved (hosts w') (normMAC mac) i \<and>
    run send (EnsureReservationForMACIP mac' i ip') w' = (Inr False, w') \<and>
    (created \<longleftrightarrow> \<not> reserved (hosts w) (normMAC mac) i) \<and>
    hosts w' = (if created then hosts w @ [(normMAC mac, i, TrimSpace ip)] else hosts w)"
proof -
  obtain resp w2 where add: "send (reservation_add (normMAC mac) i ip) w = (Inr resp, w2)"
    "hosts w2 = (if Result resp = 0 then hosts w @ [(normMAC mac, i, TrimSpace ip)] else hosts w)"
    using host_server_add [OF srv] by blast
  have "reserved (hosts w') (normMAC mac) i \<and> (created \<longleftrightarrow> \<not> reserved (hosts w) (normMAC mac) i) \<and>
    hosts w' = (if created then hosts w @ [(normMAC mac, i, TrimSpace ip)] else hosts w)"
    using run1 add unfolding EnsureReservation_server [OF srv mac i]
    by (auto simp: reserved_def split: if_splits)
  moreover have "run send (EnsureReservationForMACIP mac' i ip') w' = (Inr False, w')"
    if "reserved (hosts w') (normMAC mac) i"
    using that EnsureReservation_server [OF srv _ i, of mac' ip' w'] same mac by simp
  ultimately show ?thesis by blast
qed

lemma DeleteReservation_hosts:
  assumes srv: "host_server send hosts" and mac: "normMAC mac \<noteq> []"
    and del: "run send (DeleteReservationForMAC mac i) w = (r, w')"
  shows "hosts w' = (if r = Inr () then filter (\<lambda>h. \<not> (fst h = normMAC mac \<and> fst (snd h) = i)) (hosts w) else hosts w)"
proof -
  obtain resp w2 where d: "send (reservation_del (normMAC mac) i) w = (Inr resp, w2)"
    "hosts w2 = (if Result resp = 0
       then filter (\<lambda>h. \<not> (fst h = normMAC mac \<and> fst (snd h) = i)) (hosts w) else hosts w)"
    using srv unfolding host_server_def by blast
  then show ?thesis
    using del mac by (auto simp: DeleteReservationForMAC_def reservation_del_def Let_def split: if_splits)
qed

text \<open>
  C13: over such a server, deleting a reservation undoes ensuring it: after a
  successful delete the MAC is no longer reserved in the subnet, every other
  reservation is untouched, and ensuring it again never reports it as existing.
\<close>

theorem DeleteReservation_undoes:
  assumes srv: "host_server send hosts" and mac: "normMAC mac \<noteq> []" and i: "id_range i"
    and del: "run send (DeleteReservationForMAC mac i) w = (Inr (), w')"
  shows "\<not> reserved (hosts w') (normMAC mac) i \<and>
    (\<forall>h. h \<in> set (hosts w') \<longleftrightarrow> h \<in> set (hosts w) \<and> (fst h, fst (snd h)) \<noteq> (normMAC mac, i)) \<and>
    fst (run send (EnsureReservationForMACIP mac i ip) w') \<noteq> Inr False"
proof -
  have "hosts w' = filter (\<lambda>h. \<not> (fst h = normMAC mac \<and> fst (snd h) = i)) (hosts w)"
    using DeleteReservation_hosts [OF srv mac del] by simp
  then have h: "\<not> reserved (hosts w') (normMAC mac) i"
    "\<forall>h. h \<in> set (hosts w') \<longleftrightarrow> h \<in> set (hosts w) \<and> (fst h, fst (snd h)) \<noteq> (normMAC mac, i)"
    by (auto simp: reserved_def)
  moreover have "fst (run send (EnsureReservationForMACIP mac i ip) w') \<noteq> Inr False"
    using h(1) EnsureReservation_server [OF srv mac i, of ip w']
    by (auto split: prod.splits sum.splits)
  ultimately show ?thesis by blast
qed

section \<open>A concrete host server\<close>

text \<open>A server that keeps a list of hosts and accepts every command.\<close>

definition host_of_request :: "Request \<Rightarrow> host" where
  "host_of_request r =
     (case idx (Args r) ''reservation'' of
        GoMap m \<Rightarrow> (str_of (idx m keaFieldHWAddress), sid_of m, str_of (idx m keaFieldIPAddress))
      | _ \<Rightarrow> ([], 0, []))"

definition hk_send :: "host list sender" where
  "hk_send r hs =
     (if Command r = ''reservation-get-by-id'' then
        (Inr \<lparr>Result = 0, Text = [], Arguments = [(''hosts'',
           GoSlice (map host_json (filter (\<lambda>h. fst h = str_of (idx (Args r) keaFieldIdentifier)) hs)))]\<rparr>, hs)
      else if Command r = ''reservation-add'' then (Inr zero_Response, hs @ [host_of_request r])
      else if Command r = ''reservation-del'' then
        (Inr zero_Response, filter (\<lambda>h. \<not> (fst h = str_of (idx (Args r) keaFieldIdentifier) \<and>
            fst (snd h) = sid_of (Args r))) hs)
      else (Inr zero_Response, hs))"

lemma host_server_hk: "host_server hk_send (\<lambda>hs. hs)"
  by (auto simp: host_server_def hk_send_def hosts_reply_def reservationGetByID_def reservation_add_def
    reservation_del_def reservation_of_def host_of_request_def idx_def str_of_def sid_of_def zero_Response_def)

lemma hk_ensure:
  "run hk_send (EnsureReservationForMACIP '' AA:BB:CC:DD:EE:FF'' 7 ''10.0.0.9'') [] =
     (Inr True, [(''aa:bb:cc:dd:ee:ff'', 7, ''10.0.0.9'')])"
  by code_simp

theorem EnsureReservation_backed_witness:
  "\<exists>pre resp. exchanges hk_send (EnsureReservationForMACIP '' AA:BB:CC:DD:EE:FF'' 7 ''10.0.0.9'') [] =
     pre @ [(reservation_add (normMAC '' AA:BB:CC:DD:EE:FF'') 7 ''10.0.0.9'', Inr resp)] \<and> Result resp = 0"
  using EnsureReservation_backed [OF hk_ensure refl] by blast

theorem EnsureReservation_idempotent_witness:
  "run hk_send (EnsureReservationForMACIP ''aa:bb:cc:dd:ee:FF'' 7 [])
     [(''aa:bb:cc:dd:ee:ff'', 7, ''10.0.0.9'')] = (Inr False, [(''aa:bb:cc:dd:ee:ff'', 7, ''10.0.0.9'')])"
proof -
  have n: "normMAC '' AA:BB:CC:DD:EE:FF'' \<noteq> []" "normMAC ''aa:bb:cc:dd:ee:FF'' = normMAC '' AA:BB:CC:DD:EE:FF''"
    by code_simp+
  show ?thesis
    by (rule EnsureReservation_idempotent [OF host_server_hk n(1) _ hk_ensure n(2), of "[]",
      THEN conjunct2, THEN conjunct1]) simp
qed

theorem DeleteReservation_undoes_witness:
  "\<not> reserved [(''aa:bb:cc:dd:ee:01'', 7, [])] (normMAC ''AA:bb:cc:dd:ee:ff'') 7"
proof -
  have "normMAC ''AA:bb:cc:dd:ee:ff'' \<noteq> []" by code_simp
  moreover have "run hk_send (DeleteReservationForMAC ''AA:bb:cc:dd:ee:ff'' 7)
      [(''aa:bb:cc:dd:ee:ff'', 7, ''10.0.0.9''), (''aa:bb:cc:dd:ee:01'', 7, [])]
      = (Inr (), [(''aa:bb:cc:dd:ee:01'', 7, [])])"
    by code_simp
  ultimately show ?thesis using DeleteReservation_undoes [OF host_server_hk] by fastforce
qed

section \<open>Which lease is selected\<close>

text \<open>The leases the loop considers: an object with the MAC and an address.\<close>

definition lease_of :: "string \<Rightarrow> go_any \<Rightarrow> (string \<times> int \<times> rat) option" where
  "lease_of mac e =
     (case e of
        GoMap m \<Rightarrow>
          if EqualFold (TrimSpace (str_of (idx m keaFieldHWAddress))) mac \<and> str_of (idx m keaFieldIPAddress) \<noteq> []
          then Some (str_of (idx m keaFieldIPAddress), sid_of m, num_of (idx m ''cltt'')) else None
      | _ \<Rightarrow> None)"

abbreviation cltt_of :: "string \<times> int \<times> rat \<Rightarrow> rat" where
  "cltt_of l \<equiv> snd (snd l)"

definition better :: "string \<times> int \<times> rat \<Rightarrow> string \<times> int \<times> rat \<Rightarrow> string \<times> int \<times> rat" where
  "better l best = (if fst best = [] \<or> cltt_of l > cltt_of best then l else best)"

lemma bestLease_fold: "bestLease mac arr best = fold better (List.map_filter (lease_of mac) arr) best"
proof (induction arr arbitrary: best)
  case (Cons e arr)
  show ?case
  proof (cases best)
    case (fields bestIP bestSID bestCLTT)
    then show ?thesis using Cons
      by (auto simp: lease_of_def better_def Let_def split: go_any.splits option.splits)
  qed
qed simp

lemma fold_better:
  assumes "\<forall>l\<in>set ls. fst l \<noteq> []" "fst b \<noteq> []"
  shows "\<exists>us vs. b # ls = us @ fold better ls b # vs \<and>
    (\<forall>u\<in>set us. cltt_of u < cltt_of (fold better ls b)) \<and>
    (\<forall>v\<in>set vs. cltt_of v \<le> cltt_of (fold better ls b))"
  using assms
proof (induction ls arbitrary: b rule: rev_induct)
  case Nil
  then show ?case by (intro exI [of _ "[]"]) simp
next
  case (snoc l ls)
  let ?r = "fold better ls b"
  obtain us vs where IH: "b # ls = us @ ?r # vs" "\<forall>u\<in>set us. cltt_of u < cltt_of ?r"
    "\<forall>v\<in>set vs. cltt_of v \<le> cltt_of ?r" using snoc.IH [of b] snoc.prems by auto
  have "?r \<in> set (b # ls)" unfolding IH(1) by simp
  then have ne: "fst ?r \<noteq> []" using snoc.prems by auto
  show ?case
  proof (cases "cltt_of l > cltt_of ?r")
    case True
    then have r: "fold better (ls @ [l]) b = l" using ne by (simp add: better_def)
    have "\<forall>u\<in>set (b # ls). cltt_of u < cltt_of l"
      unfolding IH(1) using IH(2,3) True by (auto intro: less_trans le_less_trans)
    then show ?thesis unfolding r by (intro exI [of _ "b # ls"] exI [of _ "[]"]) simp
  next
    case False
    then have r: "fold better (ls @ [l]) b = ?r" using ne by (simp add: better_def)
    show ?thesis unfolding r using IH False
      by (intro exI [of _ us] exI [of _ "vs @ [l]"]) auto
  qed
qed

lemma map_filter_lease_ip: "l \<in> set (List.map_filter (lease_of mac) arr) \<Longrightarrow> fst l \<noteq> []"
  by (induction arr) (auto simp: lease_of_def split: go_any.splits option.splits if_splits)

text \<open>
  C14: when Kea lists leases for the MAC, the one returned is, among those that
  carry the MAC and an address, the one with the largest last-transmission time,
  the first such if several share it, and no second request is sent.
\<close>

theorem GetLease_newest:
  assumes reply: "send (lease4_get (normMAC mac)) w = (Inr resp, w')" and ok: "Result resp = 0"
    and list: "idx (Arguments resp) ''leases'' = GoSlice arr"
    and mac: "normMAC mac \<noteq> []"
    and cands: "List.map_filter (lease_of (normMAC mac)) arr \<noteq> []"
  shows "\<exists>us ip sid cltt vs.
    List.map_filter (lease_of (normMAC mac)) arr = us @ (ip, sid, cltt) # vs \<and>
    (\<forall>u\<in>set us. cltt_of u < cltt) \<and> (\<forall>v\<in>set vs. cltt_of v \<le> cltt) \<and>
    run send (GetLeaseIPv4ForMAC mac) w = (Inr (ip, sid), w') \<and>
    length (exchanges send (GetLeaseIPv4ForMAC mac) w) = 1"
proof -
  let ?ls = "List.map_filter (lease_of (normMAC mac)) arr"
  obtain l ls where ls: "?ls = l # ls" using cands by (cases ?ls) auto
  have ips: "\<forall>l\<in>set ?ls. fst l \<noteq> []" using map_filter_lease_ip by blast
  have best: "bestLease (normMAC mac) arr ([], 0, 0) = fold better ls l"
    by (simp add: bestLease_fold ls better_def)
  obtain us vs where f: "?ls = us @ fold better ls l # vs"
    "\<forall>u\<in>set us. cltt_of u < cltt_of (fold better ls l)" "\<forall>v\<in>set vs. cltt_of v \<le> cltt_of (fold better ls l)"
    using fold_better [of ls l] ips ls by auto
  obtain ip sid cltt where r: "fold better ls l = (ip, sid, cltt)" by (cases "fold better ls l") auto
  have "ip \<noteq> []" using ips f(1) r by fastforce
  then have "leaseFromReply (normMAC mac) (Inr resp) = Some (ip, sid)"
    using ok list best r by (simp add: leaseFromReply_def)
  then show ?thesis
    using f r reply mac
    by (intro exI [of _ us] exI [of _ ip] exI [of _ sid] exI [of _ cltt] exI [of _ vs])
      (simp add: GetLeaseIPv4ForMAC_def Let_def)
qed

theorem GetLease_newest_witness:
  "\<exists>ip sid. run (\<lambda>(r :: Request) (w :: unit). (Inr \<lparr>Result = 0, Text = [], Arguments = [(''leases'', GoSlice
      [GoMap [(''hw-address'', GoString ''aa:bb:cc:dd:ee:ff''), (''ip-address'', GoString ''10.0.0.5''),
              (''cltt'', GoFloat 100), (''subnet-id'', GoFloat 3)],
       GoMap [(''hw-address'', GoString ''aa:bb:cc:dd:ee:ff''), (''ip-address'', GoString ''10.0.0.6''),
              (''cltt'', GoFloat 200), (''subnet-id'', GoFloat 3)]])]\<rparr>, w))
      (GetLeaseIPv4ForMAC ''AA:BB:CC:DD:EE:FF'') () = (Inr (ip, sid), ())"
proof -
  let ?arr = "[GoMap [(''hw-address'', GoString ''aa:bb:cc:dd:ee:ff''), (''ip-address'', GoString ''10.0.0.5''),
              (''cltt'', GoFloat 100), (''subnet-id'', GoFloat 3)],
       GoMap [(''hw-address'', GoString ''aa:bb:cc:dd:ee:ff''), (''ip-address'', GoString ''10.0.0.6''),
              (''cltt'', GoFloat 200), (''subnet-id'', GoFloat 3)]]"
  let ?resp = "\<lparr>Result = 0, Text = [], Arguments = [(''leases'', GoSlice ?arr)]\<rparr>"
  let ?send = "\<lambda>(r :: Request) (w :: unit). (Inr ?resp :: Response result, w)"
  have "normMAC ''AA:BB:CC:DD:EE:FF'' \<noteq> []"
    "List.map_filter (lease_of (normMAC ''AA:BB:CC:DD:EE:FF'')) ?arr \<noteq> []"
    by code_simp+
  then show ?thesis
    using GetLease_newest [of ?send "''AA:BB:CC:DD:EE:FF''" "()" ?resp "()" ?arr]
    by (auto simp: idx_def)
qed

section \<open>GetSubnetInfo reads what CreateSubnet wrote\<close>

text \<open>The value that decoding the JSON encoding of a Go value yields.\<close>

primrec via_json :: "go_any \<Rightarrow> go_any" where
  "via_json GoNil = GoNil"
| "via_json (GoBool b) = GoBool b"
| "via_json (GoFloat f) = GoFloat f"
| "via_json (GoInt i) = GoFloat (f64_of_int i)"
| "via_json (GoString s) = GoString s"
| "via_json (GoStrings ss) = GoSlice (map GoString ss)"
| "via_json (GoSlice xs) = GoSlice (map via_json xs)"
| "via_json (GoMap m) = GoMap (map (map_prod id via_json) m)"
| "via_json (GoMaps ms) = GoSlice (map GoMap (map (map (map_prod id via_json)) ms))"
| "via_json (GoPtr p) = (case map_option via_json p of None \<Rightarrow> GoNil | Some v \<Rightarrow> v)"

lemma TrimSpace_space: "TrimSpace (CHR '' '' # s) = TrimSpace s"
  by (simp add: TrimSpace_def is_space_def)

lemma SplitByte_Join:
  assumes "\<forall>d\<in>set ds. CHR '','' \<notin> set d" "ds \<noteq> []"
  shows "map TrimSpace (SplitByte (CHR '','') (Join ds '', '')) = map TrimSpace ds"
  using assms
proof (induction ds "'', ''" rule: Join.induct)
  case (2 x)
  then show ?case by (simp add: SplitByte_no_sep)
next
  case (3 x y xs)
  let ?t = "Join (y # xs) '', ''"
  obtain p ps where p: "SplitByte (CHR '','') ?t = p # ps"
    by (cases "SplitByte (CHR '','') ?t") auto
  have "SplitByte (CHR '','') (x @ '', '' @ ?t) = x # (CHR '' '' # p) # ps"
    using 3 SplitByte_append [of "CHR '',''" x "CHR '' '' # ?t"] p by simp
  then show ?case using 3 p by (simp add: TrimSpace_space)
qed simp

lemma splitDNS_Join:
  assumes "\<forall>d\<in>set ds. CHR '','' \<notin> set d \<and> d \<noteq> [] \<and> TrimSpace d = d" "ds \<noteq> []"
  shows "splitDNS (Join ds '', '') = ds"
proof -
  have "map TrimSpace ds = ds" using assms by (simp add: map_idI)
  then show ?thesis
    using SplitByte_Join [of ds] assms by (simp add: splitDNS_def filter_id_conv)
qed

lemma Join_nonempty: "ds \<noteq> [] \<Longrightarrow> \<forall>d\<in>set ds. d \<noteq> [] \<Longrightarrow> Join ds sep \<noteq> []"
  by (cases ds; cases "tl ds") auto

lemma via_json_options:
  "via_json (GoMaps (optionData_of cfg)) = GoSlice (map (\<lambda>m. via_json (GoMap m)) (optionData_of cfg))"
  by simp

lemma readOptions_written:
  assumes "\<forall>d\<in>set (sc_DNS cfg). CHR '','' \<notin> set d \<and> d \<noteq> [] \<and> TrimSpace d = d"
  shows "readOptions (map (\<lambda>m. via_json (GoMap m)) (optionData_of cfg))
      \<lparr>si_ID = i, si_Subnet = s, si_Gateway = [], si_DNS = []\<rparr> =
    \<lparr>si_ID = i, si_Subnet = s, si_Gateway = sc_Gateway cfg, si_DNS = sc_DNS cfg\<rparr>"
  using assms Join_nonempty [of "sc_DNS cfg" "'', ''"]
  by (auto simp: optionData_of_def optCode_of_def optData_of_def idx_def f64_of_int_small splitDNS_Join Let_def)

lemma subnet4_of_lookup:
  "idx (subnet4_of cfg i) ''subnet'' = GoString (sc_Subnet cfg)"
  "idx (subnet4_of cfg i) ''option-data'' =
     (if optionData_of cfg = [] then GoNil else GoMaps (optionData_of cfg))"
  by (auto simp: subnet4_of_def idx_def)

lemma idx_via_json: "idx (map (map_prod id via_json) m) k = via_json (idx m k)"
  by (induction m) (auto simp: idx_def)

text \<open>
  C15: round trip through Kea. If \<open>subnet4-get\<close> answers with the subnet object that
  \<open>CreateSubnet\<close> sent, as decoded from JSON, then \<open>GetSubnetInfo\<close> returns exactly the
  subnet, gateway and DNS servers of the configuration, whenever the DNS servers are
  non-empty, free of commas and without surrounding space.
\<close>

theorem GetSubnetInfo_reads_created:
  assumes reply: "send (mk_request ''subnet4-get'' [(''id'', GoInt i)]) w = (Inr resp, w')"
    and ok: "Result resp = 0"
    and data: "idx (Arguments resp) ''subnet4'' = GoSlice (via_json (GoMap (subnet4_of cfg i)) # rest)"
    and dns: "\<forall>d\<in>set (sc_DNS cfg). CHR '','' \<notin> set d \<and> d \<noteq> [] \<and> TrimSpace d = d"
  shows "run send (GetSubnetInfo i) w =
    (Inr \<lparr>si_ID = i, si_Subnet = sc_Subnet cfg, si_Gateway = sc_Gateway cfg, si_DNS = sc_DNS cfg\<rparr>, w')"
proof (cases "optionData_of cfg = []")
  case True
  then have "sc_Gateway cfg = []" "sc_DNS cfg = []" by (auto simp: optionData_of_def split: if_splits)
  then show ?thesis using assms True
    by (simp add: GetSubnetInfo_def subnetInfo_of_def Let_def subnetStr_of_def idx_via_json subnet4_of_lookup)
next
  case False
  then show ?thesis using assms readOptions_written [OF dns]
    by (simp add: GetSubnetInfo_def subnetInfo_of_def Let_def subnetStr_of_def idx_via_json subnet4_of_lookup
      comp_def)
qed

theorem GetSubnetInfo_reads_created_witness:
  "run (\<lambda>(r :: Request) (w :: unit). (Inr \<lparr>Result = 0, Text = [], Arguments = [(''subnet4'', GoSlice [
        via_json (GoMap (subnet4_of (zero_SubnetConfig\<lparr>sc_Subnet := ''10.0.0.0/24'', sc_Gateway := ''10.0.0.1'',
          sc_DNS := [''1.1.1.1'', ''8.8.8.8'']\<rparr>) 4))])]\<rparr>, w)) (GetSubnetInfo 4) () =
    (Inr \<lparr>si_ID = 4, si_Subnet = ''10.0.0.0/24'', si_Gateway = ''10.0.0.1'', si_DNS = [''1.1.1.1'', ''8.8.8.8'']\<rparr>, ())"
proof -
  let ?cfg = "zero_SubnetConfig\<lparr>sc_Subnet := ''10.0.0.0/24'', sc_Gateway := ''10.0.0.1'',
    sc_DNS := [''1.1.1.1'', ''8.8.8.8'']\<rparr>"
  let ?resp = "\<lparr>Result = 0, Text = [], Arguments = [(''subnet4'', GoSlice [via_json (GoMap (subnet4_of ?cfg 4))])]\<rparr>"
  have "\<forall>d\<in>set (sc_DNS ?cfg). CHR '','' \<notin> set d \<and> d \<noteq> [] \<and> TrimSpace d = d"
    by (simp add: TrimSpace_def is_space_def)
  then show ?thesis
    using GetSubnetInfo_reads_created [of "\<lambda>(r :: Request) (w :: unit). (Inr ?resp, w)" 4 "()" ?resp "()" ?cfg "[]"]
    by (simp add: idx_def del: via_json.simps)
qed

end
