(* ===== verification/GoJSON.thy ===== *)
theory GoJSON
  imports KeaModels
begin

text \<open>
  The decoder of Go's package \<open>encoding/json\<close>: from text to a tree, and from a tree to a
  value of type \<open>any\<close>. The text is cut into tokens, and a machine with a stack of open
  arrays and objects builds the tree; the two passes accept what Go's scanner accepts,
  including its limit on nesting.
\<close>

section \<open>Trees\<close>

text \<open>A number written without fraction and exponent is \<open>JInt\<close>; any other is \<open>JFloat\<close> with
  its exact value.\<close>

datatype jval =
    JNull
  | JBool bool
  | JInt int
  | JFloat rat
  | JStr string
  | JArr "jval list"
  | JObj "(string \<times> jval) list"

section \<open>Strings\<close>

abbreviation byte_of :: "char \<Rightarrow> nat" where
  "byte_of c \<equiv> of_char c"

definition hex_val :: "char \<Rightarrow> nat option" where
  "hex_val c =
     (let n = byte_of c in
      if 48 \<le> n \<and> n \<le> 57 then Some (n - 48)
      else if 97 \<le> n \<and> n \<le> 102 then Some (n - 87)
      else if 65 \<le> n \<and> n \<le> 70 then Some (n - 55)
      else None)"

text \<open>The four hexadecimal digits at the start of a text.\<close>

fun hex4 :: "string \<Rightarrow> nat option" where
  "hex4 (a # b # c # d # s) =
     (case (hex_val a, hex_val b, hex_val c, hex_val d) of
        (Some w, Some x, Some y, Some z) \<Rightarrow> Some (((w * 16 + x) * 16 + y) * 16 + z)
      | _ \<Rightarrow> None)"
| "hex4 _ = None"

text \<open>The bytes of a code point in UTF-8.\<close>

definition utf8 :: "nat \<Rightarrow> string" where
  "utf8 r =
     (if r < 128 then [char_of r]
      else if r < 2048 then [char_of (192 + r div 64), char_of (128 + r mod 64)]
      else if r < 65536 then [char_of (224 + r div 4096), char_of (128 + r div 64 mod 64), char_of (128 + r mod 64)]
      else [char_of (240 + r div 262144), char_of (128 + r div 4096 mod 64), char_of (128 + r div 64 mod 64),
            char_of (128 + r mod 64)])"

text \<open>The replacement character U+FFFD.\<close>

definition runeError :: string where
  "runeError = utf8 65533"

text \<open>The length of the UTF-8 sequence at the start of a text that does not start with an
  ASCII character, 0 if there is none.\<close>

definition cont_byte :: "nat \<Rightarrow> nat \<Rightarrow> string \<Rightarrow> nat \<Rightarrow> bool" where
  "cont_byte lo hi s i \<longleftrightarrow> i < length s \<and> lo \<le> byte_of (s ! i) \<and> byte_of (s ! i) \<le> hi"

definition utf8_len :: "string \<Rightarrow> nat" where
  "utf8_len s =
     (let b = byte_of (hd s) in
      if 194 \<le> b \<and> b \<le> 223 then (if cont_byte 128 191 s 1 then 2 else 0)
      else if 224 \<le> b \<and> b \<le> 239 then
        (if cont_byte (if b = 224 then 160 else 128) (if b = 237 then 159 else 191) s 1 \<and> cont_byte 128 191 s 2 then 3 else 0)
      else if 240 \<le> b \<and> b \<le> 244 then
        (if cont_byte (if b = 240 then 144 else 128) (if b = 244 then 143 else 191) s 1 \<and> cont_byte 128 191 s 2 \<and>
            cont_byte 128 191 s 3 then 4 else 0)
      else 0)"

definition unescape :: "char \<Rightarrow> char option" where
  "unescape e =
     (if e = CHR 0x22 then Some (CHR 0x22)
      else if e = CHR 0x5C then Some (CHR 0x5C)
      else if e = CHR ''/'' then Some (CHR ''/'')
      else if e = CHR ''b'' then Some (CHR 0x08)
      else if e = CHR ''f'' then Some (CHR 0x0C)
      else if e = CHR ''n'' then Some (CHR 0x0A)
      else if e = CHR ''r'' then Some (CHR 0x0D)
      else if e = CHR ''t'' then Some (CHR 0x09)
      else None)"

text \<open>The low surrogate that follows a high one, as an escape.\<close>

definition lowSurrogate :: "string \<Rightarrow> nat option" where
  "lowSurrogate s =
     (case s of
        b # u # t \<Rightarrow>
          if b = CHR 0x5C \<and> u = CHR ''u'' then
            (case hex4 t of Some n \<Rightarrow> if 56320 \<le> n \<and> n \<le> 57343 then Some n else None | None \<Rightarrow> None)
          else None
      | _ \<Rightarrow> None)"

definition prepend :: "string \<Rightarrow> (string \<times> string) option \<Rightarrow> (string \<times> string) option" where
  "prepend x r = map_option (\<lambda>(s, rest). (x @ s, rest)) r"

text \<open>A string after its opening quote: its value and the text after the closing quote.
  Invalid UTF-8 and lone surrogates become U+FFFD.\<close>

fun lexStr :: "string \<Rightarrow> (string \<times> string) option" where
  "lexStr [] = None"
| "lexStr (c # s) =
     (if c = CHR 0x22 then Some ([], s)
      else if c = CHR 0x5C then
        (case s of
           [] \<Rightarrow> None
         | e # t \<Rightarrow>
             if e = CHR ''u'' then
               (case hex4 t of
                  None \<Rightarrow> None
                | Some r \<Rightarrow>
                    if 55296 \<le> r \<and> r \<le> 56319 then
                      (case lowSurrogate (drop 4 t) of
                         Some l \<Rightarrow> prepend (utf8 ((r - 55296) * 1024 + (l - 56320) + 65536)) (lexStr (drop 10 t))
                       | None \<Rightarrow> prepend runeError (lexStr (drop 4 t)))
                    else if 56320 \<le> r \<and> r \<le> 57343 then prepend runeError (lexStr (drop 4 t))
                    else prepend (utf8 r) (lexStr (drop 4 t)))
             else (case unescape e of None \<Rightarrow> None | Some d \<Rightarrow> prepend [d] (lexStr t)))
      else if byte_of c < 32 then None
      else if byte_of c < 128 then prepend [c] (lexStr s)
      else if utf8_len (c # s) = 0 then prepend runeError (lexStr s)
      else prepend (take (utf8_len (c # s)) (c # s)) (lexStr (drop (utf8_len (c # s) - 1) s)))"

lemma prepend_Some [simp]: "prepend x r = Some (y, rest) \<longleftrightarrow> (\<exists>s. r = Some (s, rest) \<and> y = x @ s)"
  by (auto simp: prepend_def)

lemma lexStr_length [termination_simp]: "lexStr s = Some (x, rest) \<Longrightarrow> length rest < length s"
proof (induction s arbitrary: x rule: lexStr.induct)
  case (2 c s)
  then show ?case
    by (auto split: if_splits list.splits option.splits) fastforce+
qed simp

section \<open>Numbers\<close>

text \<open>A literal is an optional minus, an integer without leading zeros, and optionally a
  fraction and an exponent.\<close>

definition digits_ok :: "string \<Rightarrow> bool" where
  "digits_ok ds \<longleftrightarrow> ds \<noteq> [] \<and> list_all is_digit ds"

definition int_part_ok :: "string \<Rightarrow> bool" where
  "int_part_ok ds \<longleftrightarrow> digits_ok ds \<and> (hd ds = CHR ''0'' \<longrightarrow> length ds = 1)"

text \<open>The exponent after \<open>e\<close> or \<open>E\<close>.\<close>

definition exponent :: "string \<Rightarrow> int option" where
  "exponent s =
     (let neg = (s \<noteq> [] \<and> hd s = CHR ''-'');
          ds = (if s \<noteq> [] \<and> (hd s = CHR ''-'' \<or> hd s = CHR ''+'') then tl s else s)
      in if digits_ok ds then Some (if neg then - int (digits_val ds) else int (digits_val ds)) else None)"

definition is_exp :: "char \<Rightarrow> bool" where
  "is_exp c \<longleftrightarrow> c = CHR ''e'' \<or> c = CHR ''E''"

definition signed :: "bool \<Rightarrow> 'a :: uminus \<Rightarrow> 'a" where
  "signed neg x = (if neg then - x else x)"

definition parseNumber :: "string \<Rightarrow> jval option" where
  "parseNumber lit =
     (let neg = (lit \<noteq> [] \<and> hd lit = CHR ''-'');
          s = (if neg then tl lit else lit);
          ip = takeWhile is_digit s; s1 = dropWhile is_digit s
      in if \<not> int_part_ok ip then None
         else if s1 = [] then Some (JInt (signed neg (int (digits_val ip))))
         else
           let frac = (if hd s1 = CHR ''.'' then takeWhile is_digit (tl s1) else []);
               s2 = (if hd s1 = CHR ''.'' then dropWhile is_digit (tl s1) else s1);
               ex = (if s2 = [] then Some 0 else if is_exp (hd s2) then exponent (tl s2) else None)
           in if hd s1 = CHR ''.'' \<and> frac = [] then None
              else map_option (\<lambda>e. JFloat (signed neg (of_nat (digits_val (ip @ frac)) * 10 powi (e - int (length frac))))) ex)"

text \<open>The \<open>float64\<close> nearest to a number: 53 significant bits and no finer than \<open>2\<close> to the
  \<open>-1074\<close>, ties to even.\<close>

definition round_even :: "rat \<Rightarrow> int" where
  "round_even x = (let f = \<lfloor>x\<rfloor>; r = x - of_int f in if r > 1 / 2 \<or> (r = 1 / 2 \<and> odd f) then f + 1 else f)"

definition f64_of_rat :: "rat \<Rightarrow> rat" where
  "f64_of_rat q =
     (if q = 0 then 0
      else
        let (n, d) = quotient_of \<bar>q\<bar>;
            e = int (bit_length n) - int (bit_length d) - 53;
            e = (if 2 ^ 53 \<le> \<bar>q\<bar> / 2 powi e then e + 1 else e);
            e = max e (- 1074)
        in signed (q < 0) (of_int (round_even (\<bar>q\<bar> / 2 powi e)) * 2 powi e))"

section \<open>Tokens\<close>

datatype jtok = TLit jval | TStr string | TLBrack | TRBrack | TLBrace | TRBrace | TColon | TComma

definition json_space :: "char \<Rightarrow> bool" where
  "json_space c \<longleftrightarrow> c = CHR 0x20 \<or> c = CHR 0x09 \<or> c = CHR 0x0A \<or> c = CHR 0x0D"

definition punct :: "char \<Rightarrow> jtok option" where
  "punct c =
     (if c = CHR ''['' then Some TLBrack else if c = CHR '']'' then Some TRBrack
      else if c = CHR ''{'' then Some TLBrace else if c = CHR ''}'' then Some TRBrace
      else if c = CHR '':'' then Some TColon else if c = CHR '','' then Some TComma else None)"

definition num_char :: "char \<Rightarrow> bool" where
  "num_char c \<longleftrightarrow> is_digit c \<or> c = CHR ''-'' \<or> c = CHR ''+'' \<or> c = CHR ''.'' \<or> is_exp c"

lemma length_dropWhile [termination_simp]: "length (dropWhile P s) < Suc (length s)"
  by (simp add: length_dropWhile_le less_Suc_eq_le)

fun json_lex :: "string \<Rightarrow> jtok list option" where
  "json_lex [] = Some []"
| "json_lex (c # s) =
     (if json_space c then json_lex s
      else (case punct c of
        Some t \<Rightarrow> map_option (Cons t) (json_lex s)
      | None \<Rightarrow>
          if c = CHR 0x22 then
            (case lexStr s of None \<Rightarrow> None | Some (x, rest) \<Rightarrow> map_option (Cons (TStr x)) (json_lex rest))
          else if is_digit c \<or> c = CHR ''-'' then
            (case parseNumber (c # takeWhile num_char s) of
               None \<Rightarrow> None | Some v \<Rightarrow> map_option (Cons (TLit v)) (json_lex (dropWhile num_char s)))
          else if has_prefix (c # s) ''true'' then map_option (Cons (TLit (JBool True))) (json_lex (drop 3 s))
          else if has_prefix (c # s) ''false'' then map_option (Cons (TLit (JBool False))) (json_lex (drop 4 s))
          else if has_prefix (c # s) ''null'' then map_option (Cons (TLit JNull)) (json_lex (drop 3 s))
          else None))"

section \<open>Trees from tokens\<close>

text \<open>An open array with the elements so far, an open object with the members so far, and
  one whose next member has the given key.\<close>

datatype frame = FArr "jval list" | FObj "(string \<times> jval) list" | FKey "(string \<times> jval) list" string

text \<open>What the machine expects: a value; a value or the end of an array just opened; a key or
  the end of an object just opened; a key; a colon; or, after a value, what may follow it.\<close>

datatype pmode = MVal | MValOrEnd | MKeyOrEnd | MKey | MColon string | MAfter jval

definition maxNestingDepth :: nat where
  "maxNestingDepth = 10000"

definition startValue :: "frame list \<Rightarrow> jtok \<Rightarrow> (pmode \<times> frame list) option" where
  "startValue fs t =
     (case t of
        TLit v \<Rightarrow> Some (MAfter v, fs)
      | TStr x \<Rightarrow> Some (MAfter (JStr x), fs)
      | TLBrack \<Rightarrow> if length fs < maxNestingDepth then Some (MValOrEnd, FArr [] # fs) else None
      | TLBrace \<Rightarrow> if length fs < maxNestingDepth then Some (MKeyOrEnd, FObj [] # fs) else None
      | _ \<Rightarrow> None)"

fun pstep :: "pmode \<times> frame list \<Rightarrow> jtok \<Rightarrow> (pmode \<times> frame list) option" where
  "pstep (MVal, fs) t = startValue fs t"
| "pstep (MValOrEnd, FArr [] # fs) TRBrack = Some (MAfter (JArr []), fs)"
| "pstep (MValOrEnd, fs) t = startValue fs t"
| "pstep (MKeyOrEnd, FObj [] # fs) TRBrace = Some (MAfter (JObj []), fs)"
| "pstep (MKeyOrEnd, FObj m # fs) (TStr k) = Some (MColon k, FObj m # fs)"
| "pstep (MKey, FObj m # fs) (TStr k) = Some (MColon k, FObj m # fs)"
| "pstep (MColon k, FObj m # fs) TColon = Some (MVal, FKey m k # fs)"
| "pstep (MAfter v, FArr xs # fs) TComma = Some (MVal, FArr (xs @ [v]) # fs)"
| "pstep (MAfter v, FArr xs # fs) TRBrack = Some (MAfter (JArr (xs @ [v])), fs)"
| "pstep (MAfter v, FKey m k # fs) TComma = Some (MKey, FObj (m @ [(k, v)]) # fs)"
| "pstep (MAfter v, FKey m k # fs) TRBrace = Some (MAfter (JObj (m @ [(k, v)])), fs)"
| "pstep _ _ = None"

fun psteps :: "jtok list \<Rightarrow> pmode \<times> frame list \<Rightarrow> (pmode \<times> frame list) option" where
  "psteps [] st = Some st"
| "psteps (t # ts) st = (case pstep st t of None \<Rightarrow> None | Some st' \<Rightarrow> psteps ts st')"

text \<open>The tree of a text, \<open>None\<close> if it is not valid JSON.\<close>

definition json_parse :: "string \<Rightarrow> jval option" where
  "json_parse data =
     (case json_lex data of
        None \<Rightarrow> None
      | Some ts \<Rightarrow> (case psteps ts (MVal, []) of Some (MAfter v, []) \<Rightarrow> Some v | _ \<Rightarrow> None))"

section \<open>Values\<close>

text \<open>Decoding into \<open>any\<close>: numbers become \<open>float64\<close>, the last of several equal keys wins. A
  number beyond the range of \<open>float64\<close> makes the decoding fail (\<open>json_range\<close>).\<close>

primrec of_json :: "jval \<Rightarrow> go_any" where
  "of_json JNull = GoNil"
| "of_json (JBool b) = GoBool b"
| "of_json (JInt i) = GoFloat (f64_of_int i)"
| "of_json (JFloat f) = GoFloat (f64_of_rat f)"
| "of_json (JStr s) = GoString s"
| "of_json (JArr xs) = GoSlice (map of_json xs)"
| "of_json (JObj m) = GoMap (fold (\<lambda>(k, v). alist_put k v) (map (map_prod id of_json) m) [])"

primrec json_range :: "jval \<Rightarrow> bool" where
  "json_range JNull = True"
| "json_range (JBool b) = True"
| "json_range (JInt i) = (\<bar>f64_of_int i\<bar> < 2 ^ 1024)"
| "json_range (JFloat f) = (\<bar>f64_of_rat f\<bar> < 2 ^ 1024)"
| "json_range (JStr s) = True"
| "json_range (JArr xs) = list_all id (map json_range xs)"
| "json_range (JObj m) = list_all id (map snd (map (map_prod id json_range) m))"

end
