(* ===== verification/GoURL.thy ===== *)
theory GoURL
  imports GoStrings
begin

text \<open>
  What the client uses of Go's packages \<open>net/url\<close> and \<open>net\<close>: parsing and printing of
  URLs, and joining and splitting of hosts and ports.

  A URL of the form \<open>scheme://host[:port][/path]\<close> whose host and path consist of
  characters that are never escaped is parsed and printed here as every release of the
  package does it. How anything else is parsed (escapes, user information, queries,
  fragments, IP literals) has changed between releases and is left to a parameter, the
  record \<open>netEnv\<close>.
\<close>

section \<open>Characters\<close>

definition is_letter :: "char \<Rightarrow> bool" where
  "is_letter c \<longleftrightarrow> (let n = (of_char c :: nat) in 65 \<le> n \<and> n \<le> 90 \<or> 97 \<le> n \<and> n \<le> 122)"

definition scheme_char :: "char \<Rightarrow> bool" where
  "scheme_char c \<longleftrightarrow> is_letter c \<or> is_digit c \<or> c \<in> set ''+-.''"

definition scheme_ok :: "string \<Rightarrow> bool" where
  "scheme_ok s \<longleftrightarrow> s \<noteq> [] \<and> is_letter (hd s) \<and> list_all scheme_char s"

text \<open>The unreserved characters, which no part of a URL escapes.\<close>

definition unreserved :: "char \<Rightarrow> bool" where
  "unreserved c \<longleftrightarrow> is_letter c \<or> is_digit c \<or> c \<in> set ''-_.~''"

definition plain_host :: "string \<Rightarrow> bool" where
  "plain_host h \<longleftrightarrow> h \<noteq> [] \<and> list_all unreserved h"

definition plain_path :: "string \<Rightarrow> bool" where
  "plain_path p \<longleftrightarrow> list_all (\<lambda>c. unreserved c \<or> c = CHR ''/'') p"

text \<open>\<open>shouldEscape\<close> for a host, and \<open>escape\<close>.\<close>

definition host_char :: "char \<Rightarrow> bool" where
  "host_char c \<longleftrightarrow> unreserved c \<or> c \<in> set (CHR 0x22 # CHR 0x27 # ''!$&()*+,;=:[]<>'')"

definition upper_hex :: "nat \<Rightarrow> char" where
  "upper_hex d = (if d < 10 then char_of (48 + d) else char_of (55 + d))"

definition escapeHost :: "string \<Rightarrow> string" where
  "escapeHost h =
     concat (map (\<lambda>c. if host_char c then [c]
       else [CHR ''%'', upper_hex (of_char c div 16), upper_hex (of_char c mod 16)]) h)"

section \<open>URLs\<close>

datatype 'u goURL = PlainURL string string string | OtherURL 'u

record 'u netEnv =
  other_Parse :: "string \<Rightarrow> 'u result"
  other_Host :: "'u \<Rightarrow> string"
  other_withHost :: "string \<Rightarrow> 'u \<Rightarrow> 'u"
  other_String :: "'u \<Rightarrow> string"

definition plainParse :: "string \<Rightarrow> (string \<times> string \<times> string) option" where
  "plainParse s =
     (let scheme = takeWhile (\<lambda>c. c \<noteq> CHR '':'') s; rest = dropWhile (\<lambda>c. c \<noteq> CHR '':'') s;
          authority = takeWhile (\<lambda>c. c \<noteq> CHR ''/'') (drop 3 rest); path = dropWhile (\<lambda>c. c \<noteq> CHR ''/'') (drop 3 rest);
          host = takeWhile (\<lambda>c. c \<noteq> CHR '':'') authority; port = dropWhile (\<lambda>c. c \<noteq> CHR '':'') authority
      in if scheme_ok scheme \<and> has_prefix rest ''://'' \<and> plain_host host \<and> list_all is_digit (tl port) \<and> plain_path path
         then Some (ToLower scheme, authority, path) else None)"

definition url_Parse :: "'u netEnv \<Rightarrow> string \<Rightarrow> 'u goURL result" where
  "url_Parse env s =
     (case plainParse s of
        Some (scheme, host, path) \<Rightarrow> Inr (PlainURL scheme host path)
      | None \<Rightarrow> (case other_Parse env s of Inl err \<Rightarrow> Inl err | Inr u \<Rightarrow> Inr (OtherURL u)))"

primrec u_Host :: "'u netEnv \<Rightarrow> 'u goURL \<Rightarrow> string" where
  "u_Host env (PlainURL scheme host path) = host"
| "u_Host env (OtherURL u) = other_Host env u"

primrec u_withHost :: "'u netEnv \<Rightarrow> string \<Rightarrow> 'u goURL \<Rightarrow> 'u goURL" where
  "u_withHost env h (PlainURL scheme host path) = PlainURL scheme h path"
| "u_withHost env h (OtherURL u) = OtherURL (other_withHost env h u)"

primrec u_String :: "'u netEnv \<Rightarrow> 'u goURL \<Rightarrow> string" where
  "u_String env (PlainURL scheme host path) =
     scheme @ '':'' @ (if host \<noteq> [] \<or> path \<noteq> [] then ''//'' else []) @ escapeHost host @ path"
| "u_String env (OtherURL u) = other_String env u"

text \<open>\<open>http.NewRequestWithContext\<close> with the method \<open>POST\<close> fails if the URL does not parse.\<close>

definition http_NewRequest :: "'u netEnv \<Rightarrow> string \<Rightarrow> go_error option" where
  "http_NewRequest env s = (case url_Parse env s of Inl err \<Rightarrow> Some err | Inr u \<Rightarrow> None)"

section \<open>Hosts and ports\<close>

text \<open>\<open>net.SplitHostPort\<close> succeeds on \<open>host:port\<close> and \<open>[host]:port\<close>. The model needs only
  whether it succeeds.\<close>

definition lastColon :: "string \<Rightarrow> (string \<times> string) option" where
  "lastColon s =
     (if CHR '':'' \<in> set s
      then Some (rev (tl (dropWhile (\<lambda>c. c \<noteq> CHR '':'') (rev s))), rev (takeWhile (\<lambda>c. c \<noteq> CHR '':'') (rev s)))
      else None)"

definition SplitHostPort_ok :: "string \<Rightarrow> bool" where
  "SplitHostPort_ok hostport =
     (case lastColon hostport of
        None \<Rightarrow> False
      | Some (h, port) \<Rightarrow>
          if has_prefix hostport ''['' then
            (let inner = takeWhile (\<lambda>c. c \<noteq> CHR '']'') (tl hostport) in
             Suc (length inner) < length hostport \<and> length h = length inner + 2 \<and>
             CHR ''['' \<notin> set (tl hostport) \<and> CHR '']'' \<notin> set (drop (length inner + 2) hostport))
          else CHR '':'' \<notin> set h \<and> CHR ''['' \<notin> set hostport \<and> CHR '']'' \<notin> set hostport)"

definition JoinHostPort :: "string \<Rightarrow> string \<Rightarrow> string" where
  "JoinHostPort host port =
     (if CHR '':'' \<in> set host then ''['' @ host @ '']:'' @ port else host @ '':'' @ port)"

text \<open>\<open>URL.Hostname\<close>: the host without a numeric or empty port and without brackets.\<close>

definition Hostname :: "string \<Rightarrow> string" where
  "Hostname hostPort =
     (let host = (case lastColon hostPort of
                    Some (h, port) \<Rightarrow> if list_all is_digit port then h else hostPort
                  | None \<Rightarrow> hostPort)
      in if has_prefix host ''['' \<and> host \<noteq> [] \<and> last host = CHR '']'' then butlast (tl host) else host)"

section \<open>Lemmas\<close>

lemma not_unreserved [simp]:
  "\<not> unreserved (CHR '':'')" "\<not> unreserved (CHR ''/'')" "\<not> unreserved (CHR ''['')" "\<not> unreserved (CHR '']'')"
  by (simp_all add: unreserved_def is_letter_def is_digit_def)

lemma plain_hostD:
  assumes "plain_host h"
  shows "CHR '':'' \<notin> set h" "CHR ''/'' \<notin> set h" "CHR ''['' \<notin> set h" "CHR '']'' \<notin> set h" "list_all host_char h" "h \<noteq> []"
  using assms by (auto simp: plain_host_def list_all_iff host_char_def)

lemma digits_no_slash: "list_all is_digit ds \<Longrightarrow> CHR ''/'' \<notin> set ds"
  by (auto simp: list_all_iff is_digit_def)

lemma escapeHost_id: "list_all host_char h \<Longrightarrow> escapeHost h = h"
  by (induction h) (auto simp: escapeHost_def)

lemma scheme_no_colon: "scheme_ok s \<Longrightarrow> CHR '':'' \<notin> set s"
  by (auto simp: scheme_ok_def list_all_iff scheme_char_def is_letter_def is_digit_def)

lemma takeWhile_until:
  assumes "x \<notin> set xs" "ys = [] \<or> hd ys = x"
  shows "takeWhile (\<lambda>c. c \<noteq> x) (xs @ ys) = xs" "dropWhile (\<lambda>c. c \<noteq> x) (xs @ ys) = ys"
  using assms by (induction xs) (cases ys; auto)+

text \<open>A port with its colon, or nothing.\<close>

definition plain_port :: "string \<Rightarrow> bool" where
  "plain_port p \<longleftrightarrow> p = [] \<or> hd p = CHR '':'' \<and> list_all is_digit (tl p)"

lemma plainParse_plain:
  assumes "scheme_ok scheme" "plain_host h" "plain_port p" "plain_path path" "path = [] \<or> hd path = CHR ''/''"
  shows "plainParse (scheme @ ''://'' @ h @ p @ path) = Some (ToLower scheme, h @ p, path)"
proof -
  note h = plain_hostD [OF assms(2)]
  have "CHR ''/'' \<notin> set p" using assms(3) digits_no_slash [of "tl p"] by (cases p) (auto simp: plain_port_def)
  then have "takeWhile (\<lambda>c. c \<noteq> CHR ''/'') ((h @ p) @ path) = h @ p" "dropWhile (\<lambda>c. c \<noteq> CHR ''/'') ((h @ p) @ path) = path"
    using h(2) assms(5) by (intro takeWhile_until; simp)+
  moreover have "takeWhile (\<lambda>c. c \<noteq> CHR '':'') (h @ p) = h" "dropWhile (\<lambda>c. c \<noteq> CHR '':'') (h @ p) = p"
    using h(1) assms(3) by (intro takeWhile_until; auto simp: plain_port_def)+
  moreover have "takeWhile (\<lambda>c. c \<noteq> CHR '':'') (scheme @ ''://'' @ r) = scheme"
    "dropWhile (\<lambda>c. c \<noteq> CHR '':'') (scheme @ ''://'' @ r) = ''://'' @ r" for r
    using scheme_no_colon [OF assms(1)] by (intro takeWhile_until; simp)+
  ultimately show ?thesis using assms by (auto simp: plainParse_def plain_port_def)
qed

end
