(* ===== verification/KeaClient.thy ===== *)
theory KeaClient
  imports SubnetLock ReservationFacts GoJSON GoURL
begin

text \<open>
  The package \<open>pkg/clients/keaclient\<close>, file \<open>keaclient.go\<close>: the client behind the
  interface \<open>KeaClient\<close>. Its state is the struct \<open>keaClient\<close>; \<open>Send\<close> posts a request
  to the primary URL and, if that fails, to the secondary, and parses the reply;
  \<open>buildHTTPClient\<close> rebuilds the transport when the configuration changed.

  Parameters of the model are what the process gets from outside: the HTTP round
  trip, the file system and the X.509 routines (record \<open>osEnv\<close>), and the parser of
  uncommon URLs (record \<open>netEnv\<close> of theory \<open>GoURL\<close>). A byte slice is a \<open>string\<close>. A reply is decoded from its text (theory
  \<open>GoJSON\<close>); the body of a request is represented by its syntax tree. The field \<open>Context\<close> is never read and is left
  out, as is logging.
\<close>

section \<open>Encoding and typed decoding\<close>

text \<open>Encoding of a value.\<close>

primrec to_json :: "go_any \<Rightarrow> jval" where
  "to_json GoNil = JNull"
| "to_json (GoBool b) = JBool b"
| "to_json (GoFloat f) = (if f = of_int \<lfloor>f\<rfloor> \<and> \<bar>f\<bar> < 10 ^ 21 then JInt \<lfloor>f\<rfloor> else JFloat f)"
| "to_json (GoInt i) = JInt i"
| "to_json (GoString s) = JStr s"
| "to_json (GoStrings ss) = JArr (map JStr ss)"
| "to_json (GoSlice xs) = JArr (map to_json xs)"
| "to_json (GoMap m) = JObj (map (map_prod id to_json) m)"
| "to_json (GoMaps ms) = JArr (map JObj (map (map (map_prod id to_json)) ms))"
| "to_json (GoPtr p) = (case map_option to_json p of None \<Rightarrow> JNull | Some j \<Rightarrow> j)"

text \<open>\<open>json.Marshal\<close> of a \<open>Request\<close>, with its \<open>omitempty\<close> fields.\<close>

definition Marshal :: "Request \<Rightarrow> jval" where
  "Marshal cmd =
     JObj ([(''command'', JStr (Command cmd))] @
       (if Service cmd \<noteq> [] then [(''service'', JStr (Service cmd))] else []) @
       (if Args cmd \<noteq> [] then [(''arguments'', to_json (GoMap (Args cmd)))] else []))"

text \<open>
  Decoding into a \<open>Response\<close> and into a \<open>laxResponse\<close>. Object keys match field names
  up to case; null leaves a number or string as it is; a value of the wrong type is
  an error, which does not stop the decoding but makes \<open>Unmarshal\<close> fail (the second
  component says that none occurred). The lax form takes arguments of any type and
  keeps them if they are an object without numbers that are out of range.
\<close>

definition put_all :: "go_map \<Rightarrow> (string \<times> jval) list \<Rightarrow> go_map" where
  "put_all old m = fold (\<lambda>(k, v). alist_put k v) (map (map_prod id of_json) m) old"

fun decResponseFields :: "bool \<Rightarrow> (string \<times> jval) list \<Rightarrow> Response \<times> bool \<Rightarrow> Response \<times> bool" where
  "decResponseFields lax [] st = st"
| "decResponseFields lax ((k, v) # m) (r, ok) =
     (if EqualFold k ''result'' then
        decResponseFields lax m (case v of
            JNull \<Rightarrow> (r, ok)
          | JInt i \<Rightarrow> if - (2 ^ 63) \<le> i \<and> i < 2 ^ 63 then (r\<lparr>Result := i\<rparr>, ok) else (r, False)
          | _ \<Rightarrow> (r, False))
      else if EqualFold k ''text'' then
        decResponseFields lax m (case v of
            JNull \<Rightarrow> (r, ok)
          | JStr s \<Rightarrow> (r\<lparr>Text := s\<rparr>, ok)
          | _ \<Rightarrow> (r, False))
      else if EqualFold k ''arguments'' then
        decResponseFields lax m (case v of
            JNull \<Rightarrow> (r\<lparr>Arguments := []\<rparr>, ok)
          | JObj a \<Rightarrow>
              if json_range v then (r\<lparr>Arguments := put_all (if lax then [] else Arguments r) a\<rparr>, ok)
              else if lax then (r\<lparr>Arguments := []\<rparr>, ok) else (r, False)
          | _ \<Rightarrow> if lax then (r\<lparr>Arguments := []\<rparr>, ok) else (r, False))
      else decResponseFields lax m (r, ok))"

definition decResponse :: "bool \<Rightarrow> jval \<Rightarrow> Response \<times> bool" where
  "decResponse lax v =
     (case v of
        JNull \<Rightarrow> (zero_Response, True)
      | JObj m \<Rightarrow> decResponseFields lax m (zero_Response, True)
      | _ \<Rightarrow> (zero_Response, False))"

text \<open>Decoding into a slice of responses; \<open>None\<close> is an error.\<close>

definition decResponses :: "bool \<Rightarrow> jval \<Rightarrow> Response list option" where
  "decResponses lax v =
     (case v of
        JNull \<Rightarrow> Some []
      | JArr xs \<Rightarrow>
          if list_all (\<lambda>x. snd (decResponse lax x)) xs then Some (map (\<lambda>x. fst (decResponse lax x)) xs) else None
      | _ \<Rightarrow> None)"

text \<open>Decoding into the struct with the one field \<open>responses\<close>.\<close>

definition decWrapped :: "bool \<Rightarrow> jval \<Rightarrow> Response list option" where
  "decWrapped lax v =
     (case v of
        JNull \<Rightarrow> Some []
      | JObj m \<Rightarrow>
          fold (\<lambda>(k, w) acc.
            if EqualFold k ''responses''
            then (case acc of None \<Rightarrow> None | Some _ \<Rightarrow> decResponses lax w) else acc) m (Some [])
      | _ \<Rightarrow> None)"

section \<open>parseResponse\<close>

definition parseResponse :: "string \<Rightarrow> Response result" where
  "parseResponse data =
     (case json_parse data of
        None \<Rightarrow> Inl ''unrecognized Kea response format''
      | Some v \<Rightarrow>
          (case decResponses False v of Some (r # _) \<Rightarrow> Inr r | _ \<Rightarrow>
          (case decResponses True v of Some (r # _) \<Rightarrow> Inr r | _ \<Rightarrow>
          (case decWrapped False v of Some (r # _) \<Rightarrow> Inr r | _ \<Rightarrow>
          (case decWrapped True v of Some (r # _) \<Rightarrow> Inr r | _ \<Rightarrow>
           if snd (decResponse False v) then Inr (fst (decResponse False v))
           else if snd (decResponse True v) then Inr (fst (decResponse True v))
           else Inl ''unrecognized Kea response format'')))))"

section \<open>The client and its transport\<close>

record tlsConfig =
  tc_InsecureSkipVerify :: bool
  tc_ServerName :: string
  tc_RootCAs :: "string option"
  tc_Certificates :: "(string \<times> string) list"

record transport =
  tr_TLSClientConfig :: tlsConfig
  tr_DisableKeepAlives :: bool

record httpClient =
  hc_Timeout :: int
  hc_Transport :: "transport option"

record keaClient =
  kc_BaseUrl :: string
  kc_SecondaryUrl :: string
  kc_Port :: string
  kc_HttpClient :: "httpClient option"
  kc_lastConfigHash :: string
  kc_disableKeepAlives :: bool
  kc_currentUrl :: string
  kc_CACertPath :: string
  kc_ClientCertPath :: string
  kc_ClientKeyPath :: string
  kc_InsecureSkipVerify :: bool
  kc_ServerName :: string
  kc_BasicAuthUsername :: string
  kc_BasicAuthPassword :: string
  kc_CACertPEM :: string
  kc_ClientCertPEM :: string
  kc_ClientKeyPEM :: string
  kc_Timeout :: int

definition seconds :: "int \<Rightarrow> int" where
  "seconds n = wrap64 (n * 1000000000)"

definition zero_keaClient :: keaClient where
  "zero_keaClient =
     \<lparr>kc_BaseUrl = [], kc_SecondaryUrl = [], kc_Port = [], kc_HttpClient = None, kc_lastConfigHash = [],
      kc_disableKeepAlives = False, kc_currentUrl = [], kc_CACertPath = [], kc_ClientCertPath = [],
      kc_ClientKeyPath = [], kc_InsecureSkipVerify = False, kc_ServerName = [], kc_BasicAuthUsername = [],
      kc_BasicAuthPassword = [], kc_CACertPEM = [], kc_ClientCertPEM = [], kc_ClientKeyPEM = [],
      kc_Timeout = 0\<rparr>"

definition applyDefaults :: "keaClient \<Rightarrow> keaClient" where
  "applyDefaults kc =
     kc\<lparr>kc_Timeout := seconds 30, kc_HttpClient := Some \<lparr>hc_Timeout = seconds 30, hc_Transport = None\<rparr>\<rparr>"

definition getDefaultKeaConnectionConfig :: keaClient where
  "getDefaultKeaConnectionConfig = applyDefaults zero_keaClient"

section \<open>buildBaseURL\<close>

definition buildBaseURL :: "'u netEnv \<Rightarrow> keaClient \<Rightarrow> string result" where
  "buildBaseURL env c =
     (if kc_BaseUrl c = [] then Inl ''base URL is empty''
      else
        let s = TrimRightByte (CHR ''/'') (kc_BaseUrl c);
            s = (if \<not> Contains s ''://'' then
                   (if kc_ClientCertPath c \<noteq> [] \<or> kc_CACertPath c \<noteq> [] then ''https://'' @ s else ''http://'' @ s)
                 else s)
        in (case url_Parse env s of
              Inl err \<Rightarrow> Inl err
            | Inr u \<Rightarrow>
                let host = u_Host env u;
                    host = (if \<not> SplitHostPort_ok host \<and> kc_Port c \<noteq> []
                            then JoinHostPort (Hostname host) (kc_Port c) else host)
                in Inr (u_String env (u_withHost env host u))))"

section \<open>Paths\<close>

text \<open>\<open>filepath.Clean\<close>, \<open>Dir\<close> and \<open>Join\<close> of two elements, on a Unix system. The
  accumulator of \<open>cleanParts\<close> is the reversed list of elements kept so far.\<close>

fun cleanParts :: "bool \<Rightarrow> string list \<Rightarrow> string list \<Rightarrow> string list" where
  "cleanParts rooted [] acc = rev acc"
| "cleanParts rooted (p # ps) acc =
     (if p = [] \<or> p = ''.'' then cleanParts rooted ps acc
      else if p = ''..'' then
        (case acc of
           [] \<Rightarrow> cleanParts rooted ps (if rooted then [] else [''..''])
         | a # as \<Rightarrow> cleanParts rooted ps (if a = ''..'' then ''..'' # acc else as))
      else cleanParts rooted ps (p # acc))"

definition filepath_Clean :: "string \<Rightarrow> string" where
  "filepath_Clean path =
     (let rooted = has_prefix path ''/'';
          out = Join (cleanParts rooted (SplitByte (CHR ''/'') path) []) ''/''
      in if rooted then ''/'' @ out else if out = [] then ''.'' else out)"

definition filepath_Dir :: "string \<Rightarrow> string" where
  "filepath_Dir path = filepath_Clean (rev (dropWhile (\<lambda>c. c \<noteq> CHR ''/'') (rev path)))"

definition filepath_Join :: "string \<Rightarrow> string \<Rightarrow> string" where
  "filepath_Join dir name = filepath_Clean (dir @ ''/'' @ name)"

section \<open>buildHTTPClient\<close>

record osEnv =
  os_ReadFile :: "string \<Rightarrow> string result"
  os_Stat :: "string \<Rightarrow> bool"
  x509_AppendCertsFromPEM :: "string \<Rightarrow> bool"
  tls_X509KeyPair :: "string \<Rightarrow> string \<Rightarrow> bool"

definition boolToStr :: "bool \<Rightarrow> string" where
  "boolToStr b = (if b then ''1'' else ''0'')"

definition hexBytes :: "string \<Rightarrow> string" where
  "hexBytes b = concat (map (\<lambda>c. [hex_digit (of_char c div 16), hex_digit (of_char c mod 16)]) b)"

definition hashBytes :: "string \<Rightarrow> string" where
  "hashBytes b =
     (if b = [] then []
      else if length b < 8 then nat_digits (length b) @ '':'' @ hexBytes b
      else nat_digits (length b) @ '':'' @ hexBytes (take 4 b) @ '':'' @ hexBytes (drop (length b - 4) b))"

text \<open>\<open>tls.LoadX509KeyPair\<close> reads both files; a certificate is the pair of texts it was
  made of.\<close>

definition LoadX509KeyPair :: "osEnv \<Rightarrow> string \<Rightarrow> string \<Rightarrow> (string \<times> string) option" where
  "LoadX509KeyPair os certPath keyPath =
     (case os_ReadFile os certPath of
        Inl _ \<Rightarrow> None
      | Inr c \<Rightarrow>
          (case os_ReadFile os keyPath of
             Inl _ \<Rightarrow> None
           | Inr k \<Rightarrow> if tls_X509KeyPair os c k then Some (c, k) else None))"

fun firstLoadable :: "osEnv \<Rightarrow> (string \<times> string) list \<Rightarrow> (string \<times> string) option" where
  "firstLoadable os [] = None"
| "firstLoadable os ((certPath, keyPath) # ps) =
     (if certPath = [] \<or> keyPath = [] then firstLoadable os ps
      else if \<not> os_Stat os certPath then firstLoadable os ps
      else if \<not> os_Stat os keyPath then firstLoadable os ps
      else (case LoadX509KeyPair os certPath keyPath of
              Some cert \<Rightarrow> Some cert
            | None \<Rightarrow> firstLoadable os ps))"

definition loadClientCertWithFallback :: "osEnv \<Rightarrow> keaClient \<Rightarrow> (string \<times> string) option" where
  "loadClientCertWithFallback os c =
     (let dir = filepath_Dir (kc_ClientCertPath c) in
      firstLoadable os
        [(kc_ClientCertPath c, kc_ClientKeyPath c),
         (filepath_Join dir ''client.crt'', filepath_Join dir ''client.key''),
         (filepath_Join dir ''tls.crt'', filepath_Join dir ''tls.key'')])"

definition configHash :: "keaClient \<Rightarrow> string" where
  "configHash c =
     Join [kc_BaseUrl c, kc_Port c, kc_CACertPath c, kc_ClientCertPath c, kc_ClientKeyPath c, kc_ServerName c,
       boolToStr (kc_InsecureSkipVerify c), hashBytes (kc_CACertPEM c), hashBytes (kc_ClientCertPEM c),
       hashBytes (kc_ClientKeyPEM c)] ''|''"

definition tlsNeeded :: "keaClient \<Rightarrow> bool" where
  "tlsNeeded c \<longleftrightarrow>
     kc_CACertPath c \<noteq> [] \<or> kc_CACertPEM c \<noteq> [] \<or>
     (kc_ClientCertPath c \<noteq> [] \<and> kc_ClientKeyPath c \<noteq> [] \<or> kc_ClientCertPEM c \<noteq> [] \<and> kc_ClientKeyPEM c \<noteq> []) \<or>
     kc_InsecureSkipVerify c \<or> kc_ServerName c \<noteq> []"

definition rootCAs_of :: "osEnv \<Rightarrow> keaClient \<Rightarrow> string option" where
  "rootCAs_of os c =
     (if kc_CACertPEM c \<noteq> [] then
        (if x509_AppendCertsFromPEM os (kc_CACertPEM c) then Some (kc_CACertPEM c) else None)
      else if kc_CACertPath c \<noteq> [] then
        (case os_ReadFile os (kc_CACertPath c) of
           Inr caPEM \<Rightarrow> if x509_AppendCertsFromPEM os caPEM then Some caPEM else None
         | Inl err \<Rightarrow> None)
      else None)"

definition certificates_of :: "osEnv \<Rightarrow> keaClient \<Rightarrow> (string \<times> string) list" where
  "certificates_of os c =
     (if kc_ClientCertPEM c \<noteq> [] \<and> kc_ClientKeyPEM c \<noteq> [] then
        (if tls_X509KeyPair os (kc_ClientCertPEM c) (kc_ClientKeyPEM c)
         then [(kc_ClientCertPEM c, kc_ClientKeyPEM c)] else [])
      else if kc_ClientCertPath c \<noteq> [] \<and> kc_ClientKeyPath c \<noteq> [] then
        (case loadClientCertWithFallback os c of Some cert \<Rightarrow> [cert] | None \<Rightarrow> [])
      else [])"

definition buildHTTPClient :: "osEnv \<Rightarrow> keaClient \<Rightarrow> keaClient" where
  "buildHTTPClient os c =
     (let hc = (case kc_HttpClient c of None \<Rightarrow> \<lparr>hc_Timeout = 0, hc_Transport = None\<rparr> | Some hc \<Rightarrow> hc);
          newHash = configHash c
      in if kc_lastConfigHash c = newHash \<and> hc_Transport hc \<noteq> None
         then c\<lparr>kc_HttpClient := Some (hc\<lparr>hc_Timeout := kc_Timeout c\<rparr>)\<rparr>
         else if \<not> tlsNeeded c then c\<lparr>kc_HttpClient := Some (hc\<lparr>hc_Timeout := kc_Timeout c\<rparr>)\<rparr>
         else
           let tlsCfg = \<lparr>tc_InsecureSkipVerify = kc_InsecureSkipVerify c, tc_ServerName = kc_ServerName c,
                         tc_RootCAs = rootCAs_of os c, tc_Certificates = certificates_of os c\<rparr>;
               tr = \<lparr>tr_TLSClientConfig = tlsCfg, tr_DisableKeepAlives = kc_disableKeepAlives c\<rparr>
           in c\<lparr>kc_HttpClient := Some \<lparr>hc_Timeout = kc_Timeout c, hc_Transport = Some tr\<rparr>,
                kc_lastConfigHash := newHash\<rparr>)"

section \<open>Send\<close>

record httpRequest =
  hr_URL :: string
  hr_ContentType :: string
  hr_BasicAuth :: "(string \<times> string) option"
  hr_Body :: jval

datatype httpOutcome = DoErr go_error | ReadErr go_error | Body string

text \<open>The HTTP round trip of a request through the client's transport.\<close>

type_synonym 'w http_Do = "httpClient option \<Rightarrow> httpRequest \<Rightarrow> 'w \<Rightarrow> httpOutcome \<times> 'w"

definition mkHTTPRequest :: "keaClient \<Rightarrow> Request \<Rightarrow> string \<Rightarrow> httpRequest" where
  "mkHTTPRequest c cmd base =
     \<lparr>hr_URL = base @ ''/'', hr_ContentType = ''application/json'',
      hr_BasicAuth = (if kc_BasicAuthUsername c \<noteq> [] \<and> kc_ClientCertPath c = [] \<and> kc_ClientCertPEM c = []
                      then Some (kc_BasicAuthUsername c, kc_BasicAuthPassword c) else None),
      hr_Body = Marshal cmd\<rparr>"

text \<open>The loop over the URLs; its state is the client, the outside world and
  \<open>lastErr\<close>.\<close>

fun sendLoop :: "'u netEnv \<Rightarrow> 'w http_Do \<Rightarrow> Request \<Rightarrow> string list \<Rightarrow> go_error \<Rightarrow> keaClient \<times> 'w \<Rightarrow>
    Response result \<times> keaClient \<times> 'w" where
  "sendLoop env do cmd [] lastErr (c, w) = (Inl (''all KEA servers failed: '' @ lastErr), c, w)"
| "sendLoop env do cmd (baseUrl # urls) lastErr (c, w) =
     (let originalBase = kc_BaseUrl c;
          c = c\<lparr>kc_BaseUrl := baseUrl\<rparr>;
          built = buildBaseURL env c;
          c = c\<lparr>kc_BaseUrl := originalBase\<rparr>
      in (case built of
            Inl err \<Rightarrow> sendLoop env do cmd urls (''failed to build URL for '' @ baseUrl @ '': '' @ err) (c, w)
          | Inr base \<Rightarrow>
              (case http_NewRequest env (base @ ''/'') of
                 Some err \<Rightarrow> sendLoop env do cmd urls (''failed to create request for '' @ base @ '': '' @ err) (c, w)
               | None \<Rightarrow>
                   (case do (kc_HttpClient c) (mkHTTPRequest c cmd base) w of
                      (DoErr err, w') \<Rightarrow>
                        sendLoop env do cmd urls (''request failed for '' @ base @ '': '' @ err) (c, w')
                    | (ReadErr err, w') \<Rightarrow>
                        sendLoop env do cmd urls (''failed to read response from '' @ base @ '': '' @ err) (c, w')
                    | (Body data, w') \<Rightarrow>
                        (parseResponse data, c\<lparr>kc_currentUrl := baseUrl\<rparr>, w')))))"

definition Send :: "'u netEnv \<Rightarrow> osEnv \<Rightarrow> 'w http_Do \<Rightarrow> (keaClient \<times> 'w) sender" where
  "Send env os do cmd st =
     (case st of (c, w) \<Rightarrow>
        let c = buildHTTPClient os c;
            urls = [kc_BaseUrl c] @ (if kc_SecondaryUrl c \<noteq> [] then [kc_SecondaryUrl c] else [])
        in sendLoop env do cmd urls [] (c, w))"

end
