(* ===== verification/GoJSONFacts.thy ===== *)
theory GoJSONFacts
  imports GoJSON
begin

text \<open>
  The decoder reads back what a printer of JSON writes: a reference printer, and the proof
  that tokens and tree of its text are those of the value.
\<close>

section \<open>A printer\<close>

definition esc_char :: "char \<Rightarrow> string" where
  "esc_char c =
     (if c = CHR 0x22 \<or> c = CHR 0x5C then [CHR 0x5C, c]
      else if byte_of c < 32
      then [CHR 0x5C, CHR ''u'', CHR ''0'', CHR ''0'', hex_digit (byte_of c div 16), hex_digit (byte_of c mod 16)]
      else [c])"

definition str_text :: "string \<Rightarrow> string" where
  "str_text s = CHR 0x22 # concat (map esc_char s) @ [CHR 0x22]"

text \<open>The text of a value. Numbers that are not integers are not printed (\<open>json_plain\<close>).\<close>

primrec json_text :: "jval \<Rightarrow> string" where
  "json_text JNull = ''null''"
| "json_text (JBool b) = (if b then ''true'' else ''false'')"
| "json_text (JInt i) = Itoa i"
| "json_text (JFloat f) = []"
| "json_text (JStr s) = str_text s"
| "json_text (JArr xs) = ''['' @ Join (map json_text xs) '','' @ '']''"
| "json_text (JObj m) =
     ''{'' @ Join (map (\<lambda>(k, t). str_text k @ '':'' @ t) (map (map_prod id json_text) m)) '','' @ ''}''"

definition ascii :: "string \<Rightarrow> bool" where
  "ascii s \<longleftrightarrow> list_all (\<lambda>c. byte_of c < 128) s"

primrec json_plain :: "jval \<Rightarrow> bool" where
  "json_plain JNull = True"
| "json_plain (JBool b) = True"
| "json_plain (JInt i) = True"
| "json_plain (JFloat f) = False"
| "json_plain (JStr s) = ascii s"
| "json_plain (JArr xs) = list_all id (map json_plain xs)"
| "json_plain (JObj m) = list_all (\<lambda>(k, b). ascii k \<and> b) (map (map_prod id json_plain) m)"

primrec json_depth :: "jval \<Rightarrow> nat" where
  "json_depth JNull = 0"
| "json_depth (JBool b) = 0"
| "json_depth (JInt i) = 0"
| "json_depth (JFloat f) = 0"
| "json_depth (JStr s) = 0"
| "json_depth (JArr xs) = Suc (foldr max (map json_depth xs) 0)"
| "json_depth (JObj m) = Suc (foldr max (map snd (map (map_prod id json_depth) m)) 0)"

section \<open>Strings\<close>

lemma char_of_byte [simp]: "char_of (byte_of c) = c"
  by simp

lemma hex_val_digit: "d < 16 \<Longrightarrow> hex_val (hex_digit d) = Some d"
  by (auto simp: hex_val_def hex_digit_def Let_def)

lemma hex4_byte:
  assumes "n < 32"
  shows "hex4 (CHR ''0'' # CHR ''0'' # hex_digit (n div 16) # hex_digit (n mod 16) # s) = Some n"
proof -
  have "hex_val (CHR ''0'') = Some 0" by (simp add: hex_val_def)
  moreover have "hex_val (hex_digit (n div 16)) = Some (n div 16)" "hex_val (hex_digit (n mod 16)) = Some (n mod 16)"
    using assms by (auto intro!: hex_val_digit)
  ultimately show ?thesis by simp
qed

lemma lexStr_esc_char:
  assumes "byte_of c < 128"
  shows "lexStr (esc_char c @ t) = prepend [c] (lexStr t)"
proof -
  consider "c = CHR 0x22 \<or> c = CHR 0x5C" | "c \<noteq> CHR 0x22" "c \<noteq> CHR 0x5C" "byte_of c < 32"
    | "c \<noteq> CHR 0x22" "c \<noteq> CHR 0x5C" "\<not> byte_of c < 32" by blast
  then show ?thesis
  proof cases
    case 1
    then show ?thesis by (auto simp: esc_char_def unescape_def)
  next
    case 2
    then show ?thesis using hex4_byte [of "byte_of c" t] by (simp add: esc_char_def utf8_def)
  next
    case 3
    then show ?thesis using assms by (simp add: esc_char_def)
  qed
qed

lemma lexStr_text: "ascii s \<Longrightarrow> lexStr (concat (map esc_char s) @ CHR 0x22 # rest) = Some (s, rest)"
  by (induction s) (auto simp: ascii_def lexStr_esc_char simp del: lexStr.simps(2), simp)

section \<open>Numbers\<close>

lemma digit_num_char: "is_digit c \<Longrightarrow> num_char c"
  by (simp add: num_char_def)

lemma digit_char_0:
  assumes "d < 10" "digit_char d = CHR ''0''"
  shows "d = 0"
proof -
  have "digit_val (digit_char d) = digit_val (CHR ''0'')" using assms(2) by simp
  then show ?thesis using digit_char_props(2) [OF assms(1)] by (simp add: digit_val_def)
qed

lemma nat_digits_hd: "0 < n \<Longrightarrow> hd (nat_digits n) \<noteq> CHR ''0''"
proof (induction n rule: nat_digits.induct)
  case (1 n)
  show ?case
  proof (cases "n < 10")
    case True
    then show ?thesis using 1(2) digit_char_0 [of n] by (subst nat_digits.simps) auto
  next
    case False
    then show ?thesis using 1(1) by (subst nat_digits.simps) simp
  qed
qed

lemma int_part_ok_nat_digits: "int_part_ok (nat_digits n)"
proof -
  have "length (nat_digits 0) = 1" by (subst nat_digits.simps) simp
  then show ?thesis
    using nat_digits_hd [of n] nat_digits_are_digits [of n] by (cases "n = 0") (auto simp: int_part_ok_def digits_ok_def)
qed

lemma takeWhile_all: "list_all P xs \<Longrightarrow> takeWhile P xs = xs" "list_all P xs \<Longrightarrow> dropWhile P xs = []"
  by (induction xs) auto

lemma minus_no_digit: "\<not> is_digit (CHR ''-'')"
  by (simp add: is_digit_def)

lemma nat_digits_Cons: "\<exists>c s. nat_digits n = c # s \<and> is_digit c \<and> list_all is_digit s"
  using nat_digits_are_digits [of n] nat_digits_nonempty [of n] by (cases "nat_digits n") auto

lemma parseNumber_Itoa: "parseNumber (Itoa i) = Some (JInt i)"
proof -
  have d: "takeWhile is_digit (nat_digits n) = nat_digits n" "dropWhile is_digit (nat_digits n) = []" for n
    using takeWhile_all [OF nat_digits_are_digits] by auto
  have h: "hd (nat_digits n) \<noteq> CHR ''-''" for n using nat_digits_Cons [of n] minus_no_digit by auto
  show ?thesis
    by (auto simp: parseNumber_def Itoa_def d h int_part_ok_nat_digits signed_def)
qed

lemma Itoa_Cons: "\<exists>c s. Itoa i = c # s \<and> (is_digit c \<or> c = CHR ''-'') \<and> list_all num_char s"
proof -
  have "list_all num_char (nat_digits n)" for n
    using nat_digits_are_digits [of n] by (auto simp: list_all_iff digit_num_char)
  then show ?thesis
    using nat_digits_Cons [of "nat i"] by (auto simp: Itoa_def list_all_iff digit_num_char)
qed

section \<open>Tokens\<close>

definition stops :: "string \<Rightarrow> bool" where
  "stops rest \<longleftrightarrow> rest = [] \<or> \<not> num_char (hd rest)"

lemma takeWhile_stops:
  assumes "list_all num_char s" "stops rest"
  shows "takeWhile num_char (s @ rest) = s" "dropWhile num_char (s @ rest) = rest"
  using assms by (induction s) (auto simp: stops_def dropWhile_eq_self_iff takeWhile_eq_Nil_iff)

lemma number_start:
  assumes "is_digit c \<or> c = CHR ''-''"
  shows "\<not> json_space c" "punct c = None" "c \<noteq> CHR 0x22"
  using assms by (auto simp: json_space_def punct_def is_digit_def)

lemma lex_Itoa:
  assumes "stops rest"
  shows "json_lex (Itoa i @ rest) = map_option (Cons (TLit (JInt i))) (json_lex rest)"
proof -
  obtain c s where cs: "Itoa i = c # s" "is_digit c \<or> c = CHR ''-''" "list_all num_char s" using Itoa_Cons by blast
  then show ?thesis
    using number_start [OF cs(2)] takeWhile_stops [OF cs(3) assms] parseNumber_Itoa [of i] by simp
qed

lemma lex_str_text: "ascii s \<Longrightarrow> json_lex (str_text s @ rest) = map_option (Cons (TStr s)) (json_lex rest)"
  using lexStr_text [of s rest] by (simp add: str_text_def json_space_def punct_def)

text \<open>The tokens of a value.\<close>

fun commas :: "jtok list list \<Rightarrow> jtok list" where
  "commas [] = []"
| "commas [ts] = ts"
| "commas (ts # us # tss) = ts @ TComma # commas (us # tss)"

primrec toks :: "jval \<Rightarrow> jtok list" where
  "toks JNull = [TLit JNull]"
| "toks (JBool b) = [TLit (JBool b)]"
| "toks (JInt i) = [TLit (JInt i)]"
| "toks (JFloat f) = [TLit (JFloat f)]"
| "toks (JStr s) = [TStr s]"
| "toks (JArr xs) = TLBrack # commas (map toks xs) @ [TRBrack]"
| "toks (JObj m) = TLBrace # commas (map (\<lambda>(k, ts). TStr k # TColon # ts) (map (map_prod id toks) m)) @ [TRBrace]"

lemma lex_punct:
  "json_lex (CHR ''['' # s) = map_option (Cons TLBrack) (json_lex s)" "json_lex (CHR '']'' # s) = map_option (Cons TRBrack) (json_lex s)"
  "json_lex (CHR ''{'' # s) = map_option (Cons TLBrace) (json_lex s)" "json_lex (CHR ''}'' # s) = map_option (Cons TRBrace) (json_lex s)"
  "json_lex (CHR '':'' # s) = map_option (Cons TColon) (json_lex s)" "json_lex (CHR '','' # s) = map_option (Cons TComma) (json_lex s)"
  by (simp_all add: json_space_def punct_def)

lemma stops_punct:
  "stops (CHR '']'' # s)" "stops (CHR ''}'' # s)" "stops (CHR '','' # s)"
  by (simp_all add: stops_def num_char_def is_digit_def is_exp_def)

lemma lex_literals:
  "json_lex (CHR ''n'' # CHR ''u'' # CHR ''l'' # CHR ''l'' # s) = map_option (Cons (TLit JNull)) (json_lex s)"
  "json_lex (CHR ''t'' # CHR ''r'' # CHR ''u'' # CHR ''e'' # s) = map_option (Cons (TLit (JBool True))) (json_lex s)"
  "json_lex (CHR ''f'' # CHR ''a'' # CHR ''l'' # CHR ''s'' # CHR ''e'' # s) = map_option (Cons (TLit (JBool False))) (json_lex s)"
  by (simp_all add: json_space_def punct_def is_digit_def)

text \<open>Lists of texts and of tokens between commas.\<close>

lemma lex_Join:
  assumes "\<And>t. t \<in> set tts \<Longrightarrow> \<forall>rest. stops rest \<longrightarrow> json_lex (fst t @ rest) = map_option ((@) (snd t)) (json_lex rest)"
    and "stops rest"
  shows "json_lex (Join (map fst tts) '','' @ rest) = map_option ((@) (commas (map snd tts))) (json_lex rest)"
  using assms
proof (induction tts rule: induct_list012)
  case 1
  then show ?case by (simp add: option.map_id0 [unfolded id_def] comp_def)
next
  case (2 t)
  then show ?case by simp
next
  case (3 t u tts)
  have "json_lex (fst t @ CHR '','' # Join (map fst (u # tts)) '','' @ rest) =
      map_option ((@) (snd t)) (map_option (Cons TComma) (map_option ((@) (commas (map snd (u # tts)))) (json_lex rest)))"
    using 3 by (simp add: stops_punct lex_punct del: json_lex.simps(2))
  then show ?case by (simp add: option.map_comp comp_def del: json_lex.simps(2))
qed

lemma lex_json_text: "json_plain v \<Longrightarrow> stops rest \<Longrightarrow> json_lex (json_text v @ rest) = map_option ((@) (toks v)) (json_lex rest)"
proof (induction v arbitrary: rest)
  case (JBool b)
  then show ?case by (cases b) (simp_all add: lex_literals del: json_lex.simps(2))
next
  case (JArr xs)
  let ?tts = "map (\<lambda>x. (json_text x, toks x)) xs"
  have "json_lex (Join (map fst ?tts) '','' @ CHR '']'' # rest) = map_option ((@) (commas (map snd ?tts))) (json_lex (CHR '']'' # rest))"
    by (rule lex_Join) (use JArr in \<open>auto simp: list_all_iff stops_punct\<close>)
  then show ?case by (simp add: lex_punct option.map_comp comp_def del: json_lex.simps(2))
next
  case (JObj m)
  let ?tts = "map (\<lambda>(k, x). (str_text k @ '':'' @ json_text x, TStr k # TColon # toks x)) m"
  have "json_lex (Join (map fst ?tts) '','' @ CHR ''}'' # rest) = map_option ((@) (commas (map snd ?tts))) (json_lex (CHR ''}'' # rest))"
  proof (rule lex_Join)
    fix t assume "t \<in> set ?tts"
    then obtain k x where t: "(k, x) \<in> set m" "t = (str_text k @ '':'' @ json_text x, TStr k # TColon # toks x)" by auto
    then have "ascii k" "json_plain x" using JObj.prems(1) by (auto simp: list_all_iff)
    then show "\<forall>rest. stops rest \<longrightarrow> json_lex (fst t @ rest) = map_option ((@) (snd t)) (json_lex rest)"
      using t JObj.IH [of "(k, x)" x]
      by (auto simp: lex_str_text lex_punct option.map_comp comp_def simp del: json_lex.simps(2) intro!: option.map_cong0)
  qed (simp add: stops_punct)
  moreover have "map fst ?tts = map (\<lambda>(k, t). str_text k @ '':'' @ t) (map (map_prod id json_text) m)"
    "map snd ?tts = map (\<lambda>(k, ts). TStr k # TColon # ts) (map (map_prod id toks) m)"
    by auto
  ultimately show ?case by (simp add: lex_punct option.map_comp comp_def del: json_lex.simps(2) map_map)
next
  case JNull
  then show ?case by (simp add: lex_literals del: json_lex.simps(2))
qed (auto simp: lex_Itoa lex_str_text simp del: json_lex.simps(2) intro!: option.map_cong0)

section \<open>Trees\<close>

lemma toks_Cons: "\<exists>t ts. toks v = t # ts \<and> t \<noteq> TRBrack"
  by (cases v) auto

lemma psteps_value_or_end: "psteps (toks v @ ts) (MValOrEnd, fs) = psteps (toks v @ ts) (MVal, fs)"
proof -
  obtain t us where "toks v = t # us" "t \<noteq> TRBrack" using toks_Cons by blast
  moreover have "pstep (MValOrEnd, fs) t = startValue fs t" if "t \<noteq> TRBrack" for t
    using that by (cases fs; cases t) (auto split: frame.splits list.splits elim: pstep.elims)
  ultimately show ?thesis by simp
qed

lemma foldr_max: "x \<in> set xs \<Longrightarrow> f x \<le> foldr max (map f xs) (0 :: nat)"
  by (induction xs) auto

lemma psteps_elements:
  assumes "\<And>x fs ts. x \<in> set xs \<Longrightarrow> length fs + json_depth x \<le> maxNestingDepth \<Longrightarrow>
      psteps (toks x @ ts) (MVal, fs) = psteps ts (MAfter x, fs)"
    and "\<And>x. x \<in> set xs \<Longrightarrow> Suc (length fs) + json_depth x \<le> maxNestingDepth" and "xs \<noteq> []"
  shows "psteps (commas (map toks xs) @ TRBrack # ts) (MVal, FArr acc # fs) = psteps ts (MAfter (JArr (acc @ xs)), fs)"
  using assms
proof (induction xs arbitrary: acc rule: induct_list012)
  case (3 x y xs)
  show ?case using "3.IH"(2) [of "acc @ [x]"] "3.prems" by simp
qed simp_all

lemma psteps_members:
  assumes "\<And>e fs ts. e \<in> set m \<Longrightarrow> length fs + json_depth (snd e) \<le> maxNestingDepth \<Longrightarrow>
      psteps (toks (snd e) @ ts) (MVal, fs) = psteps ts (MAfter (snd e), fs)"
    and "\<And>e. e \<in> set m \<Longrightarrow> Suc (length fs) + json_depth (snd e) \<le> maxNestingDepth" and "m \<noteq> []"
    and "mode = MKey \<or> mode = MKeyOrEnd \<and> acc = []"
  shows "psteps (commas (map (\<lambda>(k, x). TStr k # TColon # toks x) m) @ TRBrace # ts) (mode, FObj acc # fs) =
    psteps ts (MAfter (JObj (acc @ m)), fs)"
  using assms
proof (induction m arbitrary: acc mode rule: induct_list012)
  case (2 e)
  obtain k x where "e = (k, x)" by fastforce
  then show ?case using "2.prems" by auto
next
  case (3 e e' m)
  obtain k x where e: "e = (k, x)" by fastforce
  have x: "psteps (toks x @ us) (MVal, FKey acc k # fs) = psteps us (MAfter x, FKey acc k # fs)" for us
    using "3.prems"(1) [of e "FKey acc k # fs" us] "3.prems"(2) [of e] e by simp
  have "psteps (commas (map (\<lambda>(k, x). TStr k # TColon # toks x) (e' # m)) @ TRBrace # ts) (MKey, FObj (acc @ [e]) # fs) =
      psteps ts (MAfter (JObj ((acc @ [e]) @ e' # m)), fs)"
    by (rule "3.IH"(2)) (use "3.prems" in auto)
  then show ?case using x e "3.prems"(4) by (elim disjE) simp_all
qed simp

lemma psteps_toks:
  "length fs + json_depth v \<le> maxNestingDepth \<Longrightarrow> psteps (toks v @ ts) (MVal, fs) = psteps ts (MAfter v, fs)"
proof (induction v arbitrary: fs ts)
  case (JArr xs)
  have d: "Suc (length fs) + json_depth x \<le> maxNestingDepth" if "x \<in> set xs" for x
    using foldr_max [OF that, of json_depth] JArr.prems by simp
  show ?case
  proof (cases xs)
    case Nil
    then show ?thesis using JArr.prems by (simp add: startValue_def)
  next
    case (Cons x ys)
    have "psteps (commas (map toks xs) @ TRBrack # ts) (MValOrEnd, FArr [] # fs) =
        psteps (commas (map toks xs) @ TRBrack # ts) (MVal, FArr [] # fs)"
      using psteps_value_or_end [of x] Cons by (cases ys) (simp_all del: psteps.simps)
    also have "\<dots> = psteps ts (MAfter (JArr xs), fs)"
      using psteps_elements [of xs fs ts "[]"] JArr.IH d Cons by simp
    finally show ?thesis using JArr.prems by (simp add: startValue_def)
  qed
next
  case (JObj m)
  have d: "Suc (length fs) + json_depth (snd e) \<le> maxNestingDepth" if "e \<in> set m" for e
    using foldr_max [of e m "\<lambda>e. json_depth (snd e)"] that JObj.prems by (simp add: comp_def)
  have IH: "psteps (toks (snd e) @ ts) (MVal, fs) = psteps ts (MAfter (snd e), fs)"
    if "e \<in> set m" "length fs + json_depth (snd e) \<le> maxNestingDepth" for e fs ts
    using JObj.IH [of e "snd e"] that by (simp add: snds.simps)
  have m: "map (\<lambda>(k, ts). TStr k # TColon # ts) (map (map_prod id toks) m) = map (\<lambda>(k, x). TStr k # TColon # toks x) m"
    by auto
  show ?case
  proof (cases "m = []")
    case True
    then show ?thesis using JObj.prems by (simp add: startValue_def)
  next
    case False
    then show ?thesis
      using psteps_members [of m fs MKeyOrEnd "[]" ts] IH d JObj.prems m
      by (simp add: startValue_def del: map_map)
  qed
qed (simp_all add: startValue_def)

text \<open>The decoder reads back what the printer wrote.\<close>

lemma json_parse_text:
  assumes "json_plain v" "json_depth v \<le> maxNestingDepth"
  shows "json_parse (json_text v) = Some v"
proof -
  have "json_lex (json_text v) = Some (toks v)"
    using lex_json_text [OF assms(1), of "[]"] by (simp add: stops_def)
  moreover have "psteps (toks v) (MVal, []) = Some (MAfter v, [])"
    using psteps_toks [of "[]" v "[]"] assms(2) by simp
  ultimately show ?thesis by (simp add: json_parse_def)
qed

end
