(* ===== verification/KeaClientFacts.thy ===== *)
theory KeaClientFacts
  imports KeaClient GoJSONFacts
begin

text \<open>
  What \<open>keaclient.go\<close> guarantees: failover order, that sending keeps the
  configuration, caching of the transport, the replies it recognises, and what goes
  wrong when two sends run at once.
\<close>

section \<open>Sending keeps the configuration\<close>

text \<open>The part of the struct that is configuration.\<close>

definition config_of :: "keaClient \<Rightarrow> keaClient" where
  "config_of c = c\<lparr>kc_HttpClient := None, kc_lastConfigHash := [], kc_currentUrl := []\<rparr>"

lemma config_of_buildHTTPClient [simp]: "config_of (buildHTTPClient os c) = config_of c"
  by (simp add: config_of_def buildHTTPClient_def Let_def)

lemma config_of_currentUrl [simp]: "config_of (c\<lparr>kc_currentUrl := u\<rparr>) = config_of c"
  by (simp add: config_of_def)

lemma config_fields:
  assumes "config_of c = config_of c'"
  shows "kc_BaseUrl c = kc_BaseUrl c'" "kc_SecondaryUrl c = kc_SecondaryUrl c'" "kc_Port c = kc_Port c'"
    "kc_CACertPath c = kc_CACertPath c'" "kc_ClientCertPath c = kc_ClientCertPath c'"
proof -
  have "f (config_of c) = f (config_of c')" for f :: "keaClient \<Rightarrow> string" using assms by simp
  from this [of kc_BaseUrl] this [of kc_SecondaryUrl] this [of kc_Port] this [of kc_CACertPath]
    this [of kc_ClientCertPath]
  show "kc_BaseUrl c = kc_BaseUrl c'" "kc_SecondaryUrl c = kc_SecondaryUrl c'" "kc_Port c = kc_Port c'"
    "kc_CACertPath c = kc_CACertPath c'" "kc_ClientCertPath c = kc_ClientCertPath c'"
    by (simp_all add: config_of_def)
qed

lemma fields_buildHTTPClient [simp]:
  "kc_BaseUrl (buildHTTPClient os c) = kc_BaseUrl c"
  "kc_SecondaryUrl (buildHTTPClient os c) = kc_SecondaryUrl c"
  "kc_currentUrl (buildHTTPClient os c) = kc_currentUrl c"
  by (simp_all add: buildHTTPClient_def Let_def)

lemma restore_BaseUrl [simp]: "c\<lparr>kc_BaseUrl := u, kc_BaseUrl := kc_BaseUrl c\<rparr> = c"
  by simp

lemma restore_BaseUrl' [simp]: "c\<lparr>kc_BaseUrl := kc_BaseUrl c\<rparr> = c"
  by simp

lemma buildBaseURL_config:
  "config_of c = config_of c' \<Longrightarrow>
   buildBaseURL env (c\<lparr>kc_BaseUrl := u\<rparr>) = buildBaseURL env (c'\<lparr>kc_BaseUrl := u\<rparr>)"
  using config_fields [of c c'] by (simp add: buildBaseURL_def cong: if_cong sum.case_cong)

lemma sendLoop_client:
  assumes "sendLoop env do cmd urls e (c, w) = (r, c', w')"
  shows "c' = c \<or> (\<exists>u\<in>set urls. c' = c\<lparr>kc_currentUrl := u\<rparr>)"
  using assms
proof (induction urls arbitrary: e w)
  case (Cons u urls)
  from Cons.prems consider
      (more) e2 w2 where "sendLoop env do cmd urls e2 (c, w2) = (r, c', w')"
    | (fin) "c' = c\<lparr>kc_currentUrl := u\<rparr>"
    by (auto simp: Let_def split: sum.splits option.splits prod.splits httpOutcome.splits)
  then show ?case
  proof cases
    case more
    then show ?thesis using Cons.IH by auto
  qed simp
qed simp

definition client_inv :: "keaClient \<Rightarrow> keaClient \<times> 'w \<Rightarrow> bool" where
  "client_inv c0 st \<longleftrightarrow>
     config_of (fst st) = config_of c0 \<and>
     kc_currentUrl (fst st) \<in> {kc_currentUrl c0, kc_BaseUrl c0, kc_SecondaryUrl c0}"

lemma Send_client_inv:
  assumes "client_inv c0 st"
  shows "client_inv c0 (snd (Send env os do cmd st))"
proof -
  obtain c w where st: "st = (c, w)" by fastforce
  let ?c = "buildHTTPClient os c"
  let ?urls = "[kc_BaseUrl c] @ (if kc_SecondaryUrl c \<noteq> [] then [kc_SecondaryUrl c] else [])"
  obtain r c' w' where s: "sendLoop env do cmd ?urls [] (?c, w) = (r, c', w')"
    by (cases "sendLoop env do cmd ?urls [] (?c, w)") auto
  then have "Send env os do cmd st = (r, c', w')"
    by (simp only: Send_def st Let_def prod.case fields_buildHTTPClient)
  moreover have "kc_BaseUrl c = kc_BaseUrl c0" "kc_SecondaryUrl c = kc_SecondaryUrl c0"
    using assms config_fields [of c c0] by (auto simp: client_inv_def st)
  ultimately show ?thesis
    using assms sendLoop_client [OF s] by (auto simp: client_inv_def st split: if_splits)
qed

text \<open>The client implements the interface that the service programs run over.\<close>

interpretation kea_http: kea_client "Send env os do" "client_inv c0" for env os do c0
  by unfold_locales (rule Send_client_inv)

text \<open>
  C16: whatever request program runs over the client, and whatever the servers
  answer, the client's configuration (URLs, port, credentials, TLS material,
  timeout) is the same afterwards, and the URL it records as current is one of its
  two configured URLs or the one recorded before.
\<close>

theorem Send_keeps_configuration:
  "config_of (fst (snd (run (Send env os do) p (c, w)))) = config_of c \<and>
   kc_currentUrl (fst (snd (run (Send env os do) p (c, w)))) \<in> {kc_currentUrl c, kc_BaseUrl c, kc_SecondaryUrl c}"
  using kea_http.run_inv [of c "(c, w)" env os do p] by (simp add: client_inv_def)

section \<open>Failover\<close>

text \<open>One turn of the loop, the temporary assignment to \<open>BaseUrl\<close> undone.\<close>

lemma sendLoop_Cons:
  "sendLoop env do cmd (u # urls) e (c, w) =
     (case buildBaseURL env (c\<lparr>kc_BaseUrl := u\<rparr>) of
        Inl err \<Rightarrow> sendLoop env do cmd urls (''failed to build URL for '' @ u @ '': '' @ err) (c, w)
      | Inr base \<Rightarrow>
          (case http_NewRequest env (base @ ''/'') of
             Some err \<Rightarrow> sendLoop env do cmd urls (''failed to create request for '' @ base @ '': '' @ err) (c, w)
           | None \<Rightarrow>
               (case do (kc_HttpClient c) (mkHTTPRequest c cmd base) w of
                  (DoErr err, w') \<Rightarrow> sendLoop env do cmd urls (''request failed for '' @ base @ '': '' @ err) (c, w')
                | (ReadErr err, w') \<Rightarrow>
                    sendLoop env do cmd urls (''failed to read response from '' @ base @ '': '' @ err) (c, w')
                | (Body data, w') \<Rightarrow> (parseResponse data, c\<lparr>kc_currentUrl := u\<rparr>, w'))))"
  unfolding sendLoop.simps(2) Let_def restore_BaseUrl by (rule refl)


text \<open>A concrete environment: plain URLs only, a primary that refuses
  connections and a secondary that answers.\<close>

definition demo_env :: "string netEnv" where
  "demo_env = \<lparr>other_Parse = (\<lambda>_. Inl ''unsupported URL''), other_Host = id, other_withHost = (\<lambda>_ u. u), other_String = id\<rparr>"

text \<open>The text \<open>[{"result":0}]\<close>.\<close>

definition demo_body :: string where
  "demo_body = json_text (JArr [JObj [(''result'', JInt 0)]])"

definition demo_os :: osEnv where
  "demo_os = \<lparr>os_ReadFile = (\<lambda>_. Inl ''no such file''), os_Stat = (\<lambda>_. False),
     x509_AppendCertsFromPEM = (\<lambda>_. False), tls_X509KeyPair = (\<lambda>_ _. False)\<rparr>"

definition demo_do :: "string list http_Do" where
  "demo_do hc r w =
     (if hr_URL r = ''http://kea1:8000/'' then (DoErr ''connection refused'', w @ [hr_URL r])
      else (Body demo_body, w @ [hr_URL r]))"

definition demo_client :: keaClient where
  "demo_client = getDefaultKeaConnectionConfig\<lparr>kc_BaseUrl := ''kea1'', kc_SecondaryUrl := ''http://kea2'', kc_Port := ''8000''\<rparr>"


section \<open>Addresses\<close>

lemma TrimRight_replicate: "s = [] \<or> last s \<noteq> x \<Longrightarrow> TrimRightByte x (s @ replicate n x) = s"
proof -
  assume "s = [] \<or> last s \<noteq> x"
  moreover have "dropWhile (\<lambda>d. d = x) (replicate n x @ t) = dropWhile (\<lambda>d. d = x) t" for t by (induction n) simp_all
  ultimately show ?thesis by (cases s rule: rev_cases) (simp_all add: TrimRightByte_def)
qed

lemma lastColon_plain: "plain_host h \<Longrightarrow> lastColon h = None"
  using plain_hostD(1) by (simp add: lastColon_def)

lemma SplitHostPort_plain:
  assumes h: "plain_host h"
  shows "\<not> SplitHostPort_ok h" "list_all is_digit q \<Longrightarrow> SplitHostPort_ok (h @ CHR '':'' # q)" "Hostname h = h"
proof -
  note hd = plain_hostD [OF h]
  have b': "\<not> has_prefix (h @ t) ''[''" for t using hd(3,6) by (cases h) auto
  have b: "\<not> has_prefix h ''[''" using b' [of "[]"] by simp
  show "\<not> SplitHostPort_ok h" "Hostname h = h" using b by (simp_all add: SplitHostPort_ok_def Hostname_def lastColon_plain [OF h])
  assume q: "list_all is_digit q"
  then have q': "CHR '':'' \<notin> set q" "CHR ''['' \<notin> set q" "CHR '']'' \<notin> set q" by (auto simp: list_all_iff is_digit_def)
  have "takeWhile (\<lambda>c. c \<noteq> CHR '':'') (rev q @ CHR '':'' # rev h) = rev q"
    "dropWhile (\<lambda>c. c \<noteq> CHR '':'') (rev q @ CHR '':'' # rev h) = CHR '':'' # rev h"
    using q'(1) by (intro takeWhile_until; simp)+
  then show "SplitHostPort_ok (h @ CHR '':'' # q)" using b' [of "CHR '':'' # q"] q' hd(1-4) by (simp add: SplitHostPort_ok_def lastColon_def)
qed

text \<open>A base URL: an optional scheme, a host, an optional port.\<close>

definition base_url :: "string option \<Rightarrow> string \<Rightarrow> string option \<Rightarrow> string" where
  "base_url scheme h port =
     (case scheme of None \<Rightarrow> [] | Some s \<Rightarrow> s @ ''://'') @ h @ (case port of None \<Rightarrow> [] | Some q \<Rightarrow> CHR '':'' # q)"

lemma no_slash_no_scheme: "CHR ''/'' \<notin> set s \<Longrightarrow> \<not> Contains s ''://''"
  by (auto simp: Contains_iff sublist_def)

lemma base_url_facts:
  assumes "plain_host h" "\<forall>s. scheme = Some s \<longrightarrow> scheme_ok s" "\<forall>q. port = Some q \<longrightarrow> list_all is_digit q"
  shows "Contains (base_url scheme h port) ''://'' \<longleftrightarrow> scheme \<noteq> None" "base_url scheme h port \<noteq> []"
    "TrimRightByte (CHR ''/'') (base_url scheme h port @ replicate n (CHR ''/'')) = base_url scheme h port"
proof -
  let ?hp = "h @ (case port of None \<Rightarrow> [] | Some q \<Rightarrow> CHR '':'' # q)"
  have hp: "CHR ''/'' \<notin> set ?hp" "?hp \<noteq> []"
    using plain_hostD(2,6) [OF assms(1)] assms(3) digits_no_slash by (auto split: option.splits)
  have "Contains (s @ ''://'' @ t) ''://''" for s t by (auto simp: Contains_iff sublist_def)
  then show "Contains (base_url scheme h port) ''://'' \<longleftrightarrow> scheme \<noteq> None"
    using no_slash_no_scheme [OF hp(1)] by (cases scheme) (auto simp: base_url_def)
  show n: "base_url scheme h port \<noteq> []" using hp(2) by (simp add: base_url_def)
  have "last ?hp \<noteq> CHR ''/''" using hp last_in_set by metis
  moreover have "last (base_url scheme h port) = last ?hp" using hp(2) by (simp add: base_url_def last_append)
  ultimately show "TrimRightByte (CHR ''/'') (base_url scheme h port @ replicate n (CHR ''/'')) = base_url scheme h port"
    by (intro TrimRight_replicate) simp
qed

text \<open>The scheme that is used, and the address that results.\<close>

definition scheme_used :: "keaClient \<Rightarrow> string option \<Rightarrow> string" where
  "scheme_used c scheme =
     (case scheme of
        Some s \<Rightarrow> ToLower s
      | None \<Rightarrow> if kc_ClientCertPath c \<noteq> [] \<or> kc_CACertPath c \<noteq> [] then ''https'' else ''http'')"

lemma lower_scheme_char:
  "is_letter c \<Longrightarrow> is_letter (lower_char c)" "scheme_char c \<Longrightarrow> scheme_char (lower_char c)"
proof -
  show l: "is_letter (lower_char c)" if "is_letter c" for c using that by (simp add: is_letter_def lower_char_def Let_def)
  assume "scheme_char c"
  then have "is_letter c \<or> lower_char c = c" by (auto simp: scheme_char_def is_digit_def lower_char_def Let_def)
  then show "scheme_char (lower_char c)" using l \<open>scheme_char c\<close> by (auto simp: scheme_char_def)
qed

lemma scheme_ok_ToLower: "scheme_ok s \<Longrightarrow> scheme_ok (ToLower s)"
  using lower_scheme_char by (cases s) (auto simp: scheme_ok_def ToLower_def list_all_iff)

lemma scheme_used_ok:
  assumes "\<forall>s. scheme = Some s \<longrightarrow> scheme_ok s"
  shows "scheme_ok (scheme_used c scheme)" "ToLower (scheme_used c scheme) = scheme_used c scheme"
proof -
  have "scheme_ok ''http''" "scheme_ok ''https''" "ToLower ''http'' = ''http''" "ToLower ''https'' = ''https''" by code_simp+
  then show "scheme_ok (scheme_used c scheme)" "ToLower (scheme_used c scheme) = scheme_used c scheme"
    using assms scheme_ok_ToLower by (auto simp: scheme_used_def split: option.splits)
qed

lemma host_char_colon: "host_char (CHR '':'')"
  by (simp add: host_char_def)

lemma host_char_digit: "is_digit c \<Longrightarrow> host_char c"
  by (simp add: host_char_def unreserved_def)

lemma buildBaseURL_plain:
  assumes h: "plain_host h" and s: "\<forall>s. scheme = Some s \<longrightarrow> scheme_ok s"
    and q: "\<forall>q. port = Some q \<longrightarrow> list_all is_digit q" and p: "kc_Port c \<noteq> []" "list_all is_digit (kc_Port c)"
    and base: "kc_BaseUrl c = base_url scheme h port @ replicate n (CHR ''/'')"
  shows "buildBaseURL env c = Inr (scheme_used c scheme @ ''://'' @ h @ CHR '':'' # (case port of None \<Rightarrow> kc_Port c | Some q \<Rightarrow> q))"
proof -
  note f = base_url_facts [OF h s q]
  let ?t = "h @ (case port of None \<Rightarrow> [] | Some q \<Rightarrow> CHR '':'' # q)"
  let ?s = "(case scheme of None \<Rightarrow> scheme_used c None | Some s \<Rightarrow> s)"
  have "scheme_ok ?s" "ToLower ?s = scheme_used c scheme"
    using scheme_used_ok [of None c] s by (auto simp: scheme_used_def [of _ "Some _"] split: option.splits)
  moreover have "plain_port (case port of None \<Rightarrow> [] | Some q \<Rightarrow> CHR '':'' # q)"
    using q by (auto simp: plain_port_def split: option.splits)
  ultimately have parse: "url_Parse env (?s @ ''://'' @ ?t) = Inr (PlainURL (scheme_used c scheme) ?t [])"
    using plainParse_plain [of ?s h "case port of None \<Rightarrow> [] | Some q \<Rightarrow> CHR '':'' # q" "[]"] h
    by (simp add: url_Parse_def plain_path_def)
  have full: "(if \<not> Contains (base_url scheme h port) ''://'' then
        (if kc_ClientCertPath c \<noteq> [] \<or> kc_CACertPath c \<noteq> [] then ''https://'' @ base_url scheme h port
         else ''http://'' @ base_url scheme h port) else base_url scheme h port) = ?s @ ''://'' @ ?t"
    unfolding f(1) by (auto simp: base_url_def scheme_used_def split: option.splits)
  have esc: "escapeHost (h @ CHR '':'' # r) = h @ CHR '':'' # r" if "list_all is_digit r" for r
    using that plain_hostD(5) [OF h] host_char_colon host_char_digit by (intro escapeHost_id) (auto simp: list_all_iff)
  have join: "JoinHostPort h (kc_Port c) = h @ CHR '':'' # kc_Port c"
    using plain_hostD(1) [OF h] by (simp add: JoinHostPort_def)
  show ?thesis
    using p q esc join SplitHostPort_plain [OF h] base f(2)
    unfolding buildBaseURL_def Let_def base f(3) full parse
    by (cases port) auto
qed

section \<open>The transport is cached\<close>

lemma configHash_caches [simp]:
  "configHash (c\<lparr>kc_HttpClient := h\<rparr>) = configHash c"
  "configHash (c\<lparr>kc_lastConfigHash := x\<rparr>) = configHash c"
  by (simp_all add: configHash_def)

lemma tlsNeeded_caches [simp]:
  "tlsNeeded (c\<lparr>kc_HttpClient := h\<rparr>) = tlsNeeded c"
  "tlsNeeded (c\<lparr>kc_lastConfigHash := x\<rparr>) = tlsNeeded c"
  by (simp_all add: tlsNeeded_def)

lemma nat_digits_no_colon: "CHR '':'' \<notin> set (nat_digits n)"
  using nat_digits_are_digits [of n] by (auto simp: list_all_iff is_digit_def)

lemma colon_split:
  "CHR '':'' \<notin> set a \<Longrightarrow> CHR '':'' \<notin> set b \<Longrightarrow> a @ CHR '':'' # x = b @ CHR '':'' # y \<Longrightarrow> a = b"
  using takeWhile_until(1) [of "CHR '':''" a "CHR '':'' # x"] takeWhile_until(1) [of "CHR '':''" b "CHR '':'' # y"] by simp

text \<open>The fingerprint of a text: equal for texts that agree in their length and their
  ends, different for texts of different length.\<close>

lemma hashBytes_ends:
  assumes "8 \<le> length b" "length b' = length b" "take 4 b' = take 4 b" "drop (length b - 4) b' = drop (length b - 4) b"
  shows "hashBytes b' = hashBytes b"
  using assms by (auto simp: hashBytes_def)

lemma hashBytes_length:
  assumes "b \<noteq> []" "b' \<noteq> []" "hashBytes b @ x = hashBytes b' @ y"
  shows "length b = length b'"
proof -
  have "\<exists>t. hashBytes d = nat_digits (length d) @ CHR '':'' # t" if "d \<noteq> []" for d
    using that by (simp add: hashBytes_def)
  then obtain t t' where "hashBytes b = nat_digits (length b) @ CHR '':'' # t" "hashBytes b' = nat_digits (length b') @ CHR '':'' # t'"
    using assms(1,2) by blast
  then have "nat_digits (length b) = nat_digits (length b')"
    using assms(3) colon_split [OF nat_digits_no_colon nat_digits_no_colon] by simp
  then show ?thesis by (metis digits_val_nat_digits)
qed

lemma configHash_CACertPEM:
  "configHash (c\<lparr>kc_CACertPEM := p\<rparr>) = configHash c \<longleftrightarrow> 
   hashBytes p @ ''|'' @ hashBytes (kc_ClientCertPEM c) @ ''|'' @ hashBytes (kc_ClientKeyPEM c) =
   hashBytes (kc_CACertPEM c) @ ''|'' @ hashBytes (kc_ClientCertPEM c) @ ''|'' @ hashBytes (kc_ClientKeyPEM c)"
  by (simp add: configHash_def Join.simps)

definition trusted :: "keaClient \<Rightarrow> string option" where
  "trusted c = Option.bind (kc_HttpClient c) (\<lambda>h. Option.bind (hc_Transport h) (\<lambda>t. tc_RootCAs (tr_TLSClientConfig t)))"

lemma buildHTTPClient_idempotent: "buildHTTPClient os' (buildHTTPClient os c) = buildHTTPClient os c"
  by (simp add: buildHTTPClient_def Let_def)

lemma buildHTTPClient_rebuilds:
  assumes "kc_lastConfigHash c \<noteq> configHash c" "tlsNeeded c"
  shows "trusted (buildHTTPClient os c) = rootCAs_of os c"
    "kc_lastConfigHash (buildHTTPClient os c) = configHash c"
    "\<exists>h t. kc_HttpClient (buildHTTPClient os c) = Some h \<and> hc_Transport h = Some t \<and> hc_Timeout h = kc_Timeout c"
  using assms by (simp_all add: buildHTTPClient_def trusted_def Let_def)


definition pem_os :: osEnv where
  "pem_os = \<lparr>os_ReadFile = (\<lambda>_. Inl ''no such file''), os_Stat = (\<lambda>_. False),
     x509_AppendCertsFromPEM = (\<lambda>_. True), tls_X509KeyPair = (\<lambda>_ _. False)\<rparr>"


section \<open>Replies\<close>

text \<open>Values whose maps have distinct keys and whose floats are \<open>float64\<close> values that
  survive encoding.\<close>

primrec json_ok :: "go_any \<Rightarrow> bool" where
  "json_ok GoNil = True"
| "json_ok (GoBool b) = True"
| "json_ok (GoFloat f) = ((if f = of_int \<lfloor>f\<rfloor> \<and> \<bar>f\<bar> < 10 ^ 21 then f64_of_int \<lfloor>f\<rfloor> else f64_of_rat f) = f)"
| "json_ok (GoInt i) = True"
| "json_ok (GoString s) = True"
| "json_ok (GoStrings ss) = True"
| "json_ok (GoSlice xs) = list_all id (map json_ok xs)"
| "json_ok (GoMap m) = (distinct (map fst m) \<and> list_all id (map snd (map (map_prod id json_ok) m)))"
| "json_ok (GoMaps ms) =
     (list_all id (map (\<lambda>m. distinct (map fst m) \<and> list_all id (map snd m)) (map (map (map_prod id json_ok)) ms)))"
| "json_ok (GoPtr p) = (case map_option json_ok p of None \<Rightarrow> True | Some b \<Rightarrow> b)"

lemma alist_put_new: "k \<notin> fst ` set m \<Longrightarrow> alist_put k v m = m @ [(k, v)]"
  by (induction k v m rule: alist_put.induct) auto

lemma fold_alist_put_distinct:
  "distinct (map fst (acc @ m)) \<Longrightarrow> fold (\<lambda>(k, v). alist_put k v) m acc = acc @ m"
proof (induction m arbitrary: acc)
  case (Cons e m)
  then have "alist_put (fst e) (snd e) acc = acc @ [e]" by (simp add: alist_put_new)
  then show ?case using Cons by (simp add: case_prod_beta)
qed simp

text \<open>Decoding an encoded value is the function the service lemmas use.\<close>

lemma of_to_json: "json_ok x \<Longrightarrow> of_json (to_json x) = via_json x"
proof (induction x)
  case (GoMap m)
  have "map (map_prod id of_json) (map (map_prod id to_json) m) = map (map_prod id via_json) m"
    using GoMap by (auto simp: list_all_iff map_prod_def split: prod.splits)
  moreover have "distinct (map fst (map (map_prod id via_json) m))"
    using GoMap.prems by (simp add: comp_def map_prod_def case_prod_beta)
  ultimately show ?case
    using fold_alist_put_distinct [of "[]" "map (map_prod id via_json) m"] by (simp del: map_map map_eq_conv)
next
  case (GoMaps ms)
  have "map (map_prod id of_json) (map (map_prod id to_json) m) = map (map_prod id via_json) m \<and>
      distinct (map fst (map (map_prod id via_json) m))" if "m \<in> set ms" for m
    using GoMaps that by (fastforce simp: list_all_iff comp_def map_prod_def case_prod_beta)
  then have "fold (\<lambda>(k, v). alist_put k v) (map (map_prod id of_json) (map (map_prod id to_json) m)) [] =
      map (map_prod id via_json) m" if "m \<in> set ms" for m
    using fold_alist_put_distinct [of "[]" "map (map_prod id via_json) m"] that by (metis append_Nil)
  then show ?case by (simp add: comp_def)
next
  case (GoPtr p)
  then show ?case by (cases p) auto
qed (auto simp: list_all_iff)

definition encResponse :: "Response \<Rightarrow> jval" where
  "encResponse r =
     JObj ([(''result'', JInt (Result r))] @
       (if Text r \<noteq> [] then [(''text'', JStr (Text r))] else []) @
       (if Arguments r \<noteq> [] then [(''arguments'', to_json (GoMap (Arguments r)))] else []))"

text \<open>The keys of an encoded response.\<close>

lemma EqualFold_keys [simp]:
  "EqualFold ''text'' ''result'' \<longleftrightarrow> False" "EqualFold ''arguments'' ''result'' \<longleftrightarrow> False"
  "EqualFold ''arguments'' ''text'' \<longleftrightarrow> False" "EqualFold ''result'' ''responses'' \<longleftrightarrow> False"
  "EqualFold ''text'' ''responses'' \<longleftrightarrow> False" "EqualFold ''arguments'' ''responses'' \<longleftrightarrow> False"
  "EqualFold ''responses'' ''result'' \<longleftrightarrow> False" "EqualFold ''responses'' ''text'' \<longleftrightarrow> False"
  "EqualFold ''responses'' ''arguments'' \<longleftrightarrow> False"
  by code_simp+

definition decoded :: "Response \<Rightarrow> Response" where
  "decoded r = r\<lparr>Arguments := map (map_prod id via_json) (Arguments r)\<rparr>"

lemma put_all_to_json:
  assumes "json_ok (GoMap m)"
  shows "put_all [] (map (map_prod id to_json) m) = map (map_prod id via_json) m"
  using of_to_json [OF assms] by (simp add: put_all_def)

lemma decResponse_enc:
  assumes "- (2 ^ 63) \<le> Result r" "Result r < 2 ^ 63" "json_ok (GoMap (Arguments r))"
    "json_range (to_json (GoMap (Arguments r)))"
  shows "decResponse lax (encResponse r) = (decoded r, True)"
  using assms put_all_to_json [OF assms(3)]
  by (auto simp: decResponse_def encResponse_def decoded_def zero_Response_def)

lemma parseResponse_encoded:
  assumes r: "- (2 ^ 63) \<le> Result r" "Result r < 2 ^ 63" "json_ok (GoMap (Arguments r))"
      "json_range (to_json (GoMap (Arguments r)))"
    and plain: "json_plain (encResponse r)" "json_depth (encResponse r) + 2 \<le> maxNestingDepth"
    and data: "data \<in> {json_text (JArr [encResponse r]), json_text (JObj [(''responses'', JArr [encResponse r])]),
      json_text (encResponse r)}"
  shows "parseResponse data = Inr (decoded r)"
proof -
  have p: "json_parse (json_text v) = Some v"
    if "v \<in> {JArr [encResponse r], JObj [(''responses'', JArr [encResponse r])], encResponse r}" for v
    using that plain by (intro json_parse_text) (auto simp: ascii_def)
  have "parseResponse (json_text (JArr [encResponse r])) = Inr (decoded r)"
    by (simp add: parseResponse_def p decResponses_def decResponse_enc [OF r] del: json_text.simps)
  moreover have "parseResponse (json_text (JObj [(''responses'', JArr [encResponse r])])) = Inr (decoded r)"
    by (simp add: parseResponse_def p decResponses_def decWrapped_def decResponse_enc [OF r] del: json_text.simps)
  moreover have "parseResponse (json_text (encResponse r)) = Inr (decoded r)"
  proof -
    have "decResponses lax (encResponse r) = None" "decWrapped lax (encResponse r) = Some []" for lax
      by (simp_all add: decResponses_def decWrapped_def encResponse_def)
    then show ?thesis by (simp add: parseResponse_def p decResponse_enc [OF r])
  qed
  ultimately show ?thesis using data by blast
qed

text \<open>
  C19: every form of a well-formed reply is read as the response it encodes: the text
  of an array of responses, of an object with a field \<open>responses\<close>, and of a bare
  object, with the arguments as JSON decoding yields them. The reply is printed with
  ASCII strings and nested within the decoder's limit.
\<close>

theorem parseResponse_reads_encoded:
  assumes r: "- (2 ^ 63) \<le> Result r" "Result r < 2 ^ 63" "json_ok (GoMap (Arguments r))"
      "json_range (to_json (GoMap (Arguments r)))"
    and plain: "json_plain (encResponse r)" "json_depth (encResponse r) + 2 \<le> maxNestingDepth"
    and data: "data \<in> {json_text (JArr [encResponse r]), json_text (JObj [(''responses'', JArr [encResponse r])]),
      json_text (encResponse r)}"
  shows "parseResponse data = Inr (decoded r)"
  using parseResponse_encoded [OF r plain data] .

theorem parseResponse_reads_encoded_witness:
  "parseResponse (json_text (JArr [encResponse \<lparr>Result = 3, Text = ''0 IPv4 host(s) found.'', Arguments = []\<rparr>]))
     = Inr (decoded \<lparr>Result = 3, Text = ''0 IPv4 host(s) found.'', Arguments = []\<rparr>)"
  by (rule parseResponse_reads_encoded)
    (simp_all add: encResponse_def ascii_def maxNestingDepth_def del: json_text.simps)

text \<open>
  C20: a reply without the field \<open>result\<close> counts as success: the body \<open>null\<close>, and
  every object that has none of the fields of a response, such as the error page of
  a gateway, is read as the response with result 0.
\<close>

theorem parseResponse_accepts_foreign:
  assumes "json_parse data = Some JNull \<or>
    (\<exists>m. json_parse data = Some (JObj m) \<and>
      (\<forall>k\<in>fst ` set m. \<forall>f\<in>{''result'', ''text'', ''arguments'', ''responses''}. \<not> EqualFold k f))"
  shows "parseResponse data = Inr zero_Response"
proof -
  have fields: "decResponseFields lax m st = st"
    if "\<forall>k\<in>fst ` set m. \<forall>f\<in>{''result'', ''text'', ''arguments'', ''responses''}. \<not> EqualFold k f" for lax m st
    using that by (induction lax m st rule: decResponseFields.induct) auto
  have wrapped: "decWrapped lax (JObj m) = Some []"
    if "\<forall>k\<in>fst ` set m. \<forall>f\<in>{''result'', ''text'', ''arguments'', ''responses''}. \<not> EqualFold k f" for lax m
    using that by (induction m) (auto simp: decWrapped_def)
  show ?thesis
    using assms fields wrapped
    by (auto simp: parseResponse_def decResponses_def decWrapped_def [of _ JNull] decResponse_def)
qed

theorem parseResponse_accepts_foreign_witness:
  "parseResponse (json_text (JObj [(''message'', JStr ''no upstream'')])) = Inr zero_Response"
proof -
  have "\<not> EqualFold ''message'' f" if "f \<in> {''result'', ''text'', ''arguments'', ''responses''}" for f
    using that by (auto simp: EqualFold_def ToLower_def lower_char_def)
  moreover have "json_parse (json_text (JObj [(''message'', JStr ''no upstream'')])) =
      Some (JObj [(''message'', JStr ''no upstream'')])"
    by (rule json_parse_text) (simp_all add: ascii_def maxNestingDepth_def)
  ultimately show ?thesis by (intro parseResponse_accepts_foreign) auto
qed

section \<open>Two sends at once\<close>

text \<open>
  Inside the loop, \<open>Send\<close> saves \<open>c.BaseUrl\<close>, sets it to the URL to try, builds the
  address from it, and restores it: four accesses to a field that concurrent
  reconciles share. \<open>sendPC\<close> is where a goroutine stands in these four steps, and
  \<open>micro\<close> is one step on the field.
\<close>

datatype sendPC =
    AtSave string
  | AtSet string string
  | AtBuild string string
  | AtRestore string string
  | AtDone string

fun micro :: "sendPC \<Rightarrow> string \<Rightarrow> sendPC \<times> string" where
  "micro (AtSave baseUrl) field = (AtSet baseUrl field, field)"
| "micro (AtSet baseUrl originalBase) field = (AtBuild baseUrl originalBase, baseUrl)"
| "micro (AtBuild baseUrl originalBase) field = (AtRestore originalBase field, field)"
| "micro (AtRestore originalBase built) field = (AtDone built, originalBase)"
| "micro (AtDone built) field = (AtDone built, field)"

primrec interleave :: "bool list \<Rightarrow> sendPC \<times> sendPC \<times> string \<Rightarrow> sendPC \<times> sendPC \<times> string" where
  "interleave [] st = st"
| "interleave (b # bs) st =
     (case st of (p, q, field) \<Rightarrow>
        if b then (case micro p field of (p', field') \<Rightarrow> interleave bs (p', q, field'))
        else (case micro q field of (q', field') \<Rightarrow> interleave bs (p, q', field')))"


end
