(* ===== verification/Consts.thy ===== *)
theory Consts
  imports Main
begin

text \<open>
  The package \<open>internal/consts\<close>: the names of the environment variables, which are also
  the keys the configuration library is asked for.
\<close>

abbreviation DEVELOPMENT :: string where
  "DEVELOPMENT \<equiv> ''DEVELOPMENT''"
abbreviation LOG_JSON_LOGGING :: string where
  "LOG_JSON_LOGGING \<equiv> ''LOG_JSON_LOGGING''"
abbreviation LOG_LEVEL :: string where
  "LOG_LEVEL \<equiv> ''LOG_LEVEL''"
abbreviation LOG_COLORIZE :: string where
  "LOG_COLORIZE \<equiv> ''LOG_COLORIZE''"
abbreviation LOG_ADD_CALLER :: string where
  "LOG_ADD_CALLER \<equiv> ''LOG_ADD_CALLER''"
abbreviation LOG_DISABLE_STACKTRANCE :: string where
  "LOG_DISABLE_STACKTRANCE \<equiv> ''LOG_DISABLE_STACKTRANCE''"
abbreviation LOG_UNESCAPE_MULTILINE :: string where
  "LOG_UNESCAPE_MULTILINE \<equiv> ''LOG_UNESCAPE_MULTILINE''"
abbreviation KEA_BASE_URL :: string where
  "KEA_BASE_URL \<equiv> ''KEA_BASE_URL''"
abbreviation KEA_URL :: string where
  "KEA_URL \<equiv> ''KEA_URL''"
abbreviation KEA_SECONDARY_URL :: string where
  "KEA_SECONDARY_URL \<equiv> ''KEA_SECONDARY_URL''"
abbreviation KEA_PORT :: string where
  "KEA_PORT \<equiv> ''KEA_PORT''"
abbreviation KEA_TLS_CA_FILE :: string where
  "KEA_TLS_CA_FILE \<equiv> ''KEA_TLS_CA_FILE''"
abbreviation KEA_TLS_CERT_FILE :: string where
  "KEA_TLS_CERT_FILE \<equiv> ''KEA_TLS_CERT_FILE''"
abbreviation KEA_TLS_KEY_FILE :: string where
  "KEA_TLS_KEY_FILE \<equiv> ''KEA_TLS_KEY_FILE''"
abbreviation KEA_TLS_ENABLED :: string where
  "KEA_TLS_ENABLED \<equiv> ''KEA_TLS_ENABLED''"
abbreviation KEA_TLS_INSECURE :: string where
  "KEA_TLS_INSECURE \<equiv> ''KEA_TLS_INSECURE''"
abbreviation KEA_TLS_SERVER_NAME :: string where
  "KEA_TLS_SERVER_NAME \<equiv> ''KEA_TLS_SERVER_NAME''"
abbreviation KEA_TIMEOUT_SECONDS :: string where
  "KEA_TIMEOUT_SECONDS \<equiv> ''KEA_TIMEOUT_SECONDS''"
abbreviation KEA_TLS_SECRET_NAME :: string where
  "KEA_TLS_SECRET_NAME \<equiv> ''KEA_TLS_SECRET_NAME''"
abbreviation KEA_TLS_SECRET_NAMESPACE :: string where
  "KEA_TLS_SECRET_NAMESPACE \<equiv> ''KEA_TLS_SECRET_NAMESPACE''"
abbreviation KEA_DISABLE_KEEPALIVES :: string where
  "KEA_DISABLE_KEEPALIVES \<equiv> ''KEA_DISABLE_KEEPALIVES''"
abbreviation KEA_BASIC_AUTH_USERNAME :: string where
  "KEA_BASIC_AUTH_USERNAME \<equiv> ''KEA_BASIC_AUTH_USERNAME''"
abbreviation KEA_BASIC_AUTH_PASSWORD :: string where
  "KEA_BASIC_AUTH_PASSWORD \<equiv> ''KEA_BASIC_AUTH_PASSWORD''"
abbreviation KEA_REQUIRE_CLIENT_CLASSES :: string where
  "KEA_REQUIRE_CLIENT_CLASSES \<equiv> ''KEA_REQUIRE_CLIENT_CLASSES''"
abbreviation KEA_STRICT_DEFAULTS :: string where
  "KEA_STRICT_DEFAULTS \<equiv> ''KEA_STRICT_DEFAULTS''"
abbreviation MAX_CONCURRENT_RECONCILES :: string where
  "MAX_CONCURRENT_RECONCILES \<equiv> ''MAX_CONCURRENT_RECONCILES''"

end
