(* ===== verification/KeaOptions.thy ===== *)
theory KeaOptions
  imports KeaClientFacts Consts
begin

text \<open>
  The functional options of \<open>keaoptions.go\<close>, the constructors of \<open>keaclient.go\<close> that
  apply them, the choice of the client at startup (\<open>internal/clients\<close>), the retry loop
  and ping of \<open>internal/services/initialchecks\<close>, and the defaults of
  \<open>internal/settings\<close>.

  An option is a function on the client. Viper, the configuration library, is a
  parameter: the values it returns for a key. A Kubernetes secret is the map from its
  keys to its contents.
\<close>

type_synonym KeaOption = "keaClient \<Rightarrow> keaClient"

record viper =
  GetString :: "string \<Rightarrow> string"
  GetBool :: "string \<Rightarrow> bool"
  GetInt :: "string \<Rightarrow> int"
  IsSet :: "string \<Rightarrow> bool"

section \<open>keaoptions.go\<close>

text \<open>\<open>strings.SplitN(s, ":", 2)\<close>: the part before the first colon, and the rest.\<close>

definition splitColon :: "string \<Rightarrow> string \<times> string option" where
  "splitColon s =
     (takeWhile (\<lambda>c. c \<noteq> CHR '':'') s,
      if CHR '':'' \<in> set s then Some (tl (dropWhile (\<lambda>c. c \<noteq> CHR '':'') s)) else None)"

definition OptionServerString :: "string \<Rightarrow> KeaOption" where
  "OptionServerString serverstring cfg =
     (case splitColon serverstring of
        (host, Some port) \<Rightarrow> cfg\<lparr>kc_BaseUrl := host, kc_Port := port\<rparr>
      | (host, None) \<Rightarrow> cfg\<lparr>kc_BaseUrl := host, kc_Port := ''8000''\<rparr>)"

definition OptionHost :: "string \<Rightarrow> KeaOption" where
  "OptionHost host cfg = cfg\<lparr>kc_BaseUrl := host\<rparr>"

definition OptionPort :: "string \<Rightarrow> KeaOption" where
  "OptionPort port cfg = cfg\<lparr>kc_Port := port\<rparr>"

text \<open>\<open>strings.Split(s, "://")\<close>.\<close>

fun splitScheme :: "string \<Rightarrow> string list" where
  "splitScheme [] = [[]]"
| "splitScheme (c # s) =
     (if has_prefix (c # s) ''://'' then [] # splitScheme (drop 2 s)
      else (case splitScheme s of [] \<Rightarrow> [[c]] | p # ps \<Rightarrow> (c # p) # ps))"

definition OptionURL :: "string \<Rightarrow> KeaOption" where
  "OptionURL fullURL cfg =
     (if fullURL = [] then cfg
      else
        let cfg = cfg\<lparr>kc_BaseUrl := fullURL\<rparr> in
        (case splitScheme fullURL of
           [_, rest] \<Rightarrow>
             (case SplitByte (CHR '':'') (takeWhile (\<lambda>c. c \<noteq> CHR ''/'') rest) of
                [_, port] \<Rightarrow> cfg\<lparr>kc_Port := port\<rparr>
              | _ \<Rightarrow> cfg)
         | _ \<Rightarrow> cfg))"

definition OptionSecondaryURL :: "string \<Rightarrow> KeaOption" where
  "OptionSecondaryURL fullURL cfg = (if fullURL = [] then cfg else cfg\<lparr>kc_SecondaryUrl := fullURL\<rparr>)"

definition OptionTLS :: "string \<Rightarrow> string \<Rightarrow> string \<Rightarrow> KeaOption" where
  "OptionTLS caFile certFile keyFile cfg =
     cfg\<lparr>kc_CACertPath := caFile, kc_ClientCertPath := certFile, kc_ClientKeyPath := keyFile\<rparr>"

definition OptionInsecureSkipVerify :: "bool \<Rightarrow> KeaOption" where
  "OptionInsecureSkipVerify insecure cfg = cfg\<lparr>kc_InsecureSkipVerify := insecure\<rparr>"

definition OptionServerName :: "string \<Rightarrow> KeaOption" where
  "OptionServerName serverName cfg = cfg\<lparr>kc_ServerName := serverName\<rparr>"

definition setTimeout :: "int \<Rightarrow> keaClient \<Rightarrow> keaClient" where
  "setTimeout d cfg =
     cfg\<lparr>kc_Timeout := d, kc_HttpClient := map_option (\<lambda>hc. hc\<lparr>hc_Timeout := d\<rparr>) (kc_HttpClient cfg)\<rparr>"

definition OptionTimeout :: "int \<Rightarrow> KeaOption" where
  "OptionTimeout d cfg = setTimeout d cfg"

definition OptionBasicAuth :: "string \<Rightarrow> string \<Rightarrow> KeaOption" where
  "OptionBasicAuth username password cfg =
     (if username \<noteq> [] then cfg\<lparr>kc_BasicAuthUsername := username, kc_BasicAuthPassword := password\<rparr> else cfg)"

definition orKeep :: "string \<Rightarrow> (string \<Rightarrow> keaClient \<Rightarrow> keaClient) \<Rightarrow> keaClient \<Rightarrow> keaClient" where
  "orKeep v upd cfg = (if v \<noteq> [] then upd v cfg else cfg)"

text \<open>\<open>OptionFromEnv\<close>, in the order of its blocks: URLs and port, basic auth, skipping of
  verification, TLS files, timeout, keep-alives.\<close>

definition envURLs :: "viper \<Rightarrow> KeaOption" where
  "envURLs v cfg =
     (let full = GetString v KEA_URL; secondary = GetString v KEA_SECONDARY_URL;
          base = GetString v KEA_BASE_URL; port = GetString v KEA_PORT;
          cfg = (if full \<noteq> [] then cfg\<lparr>kc_BaseUrl := full\<rparr>
                 else if base \<noteq> [] then cfg\<lparr>kc_BaseUrl := base\<rparr> else cfg);
          cfg = orKeep secondary (\<lambda>s c. c\<lparr>kc_SecondaryUrl := s\<rparr>) cfg
      in orKeep port (\<lambda>p c. c\<lparr>kc_Port := p\<rparr>) cfg)"

definition envBasicAuth :: "viper \<Rightarrow> KeaOption" where
  "envBasicAuth v cfg =
     (let basicUser = GetString v KEA_BASIC_AUTH_USERNAME;
          basicPass = GetString v KEA_BASIC_AUTH_PASSWORD
      in if basicUser \<noteq> [] \<and> kc_ClientCertPath cfg = [] \<and> kc_ClientCertPEM cfg = []
         then cfg\<lparr>kc_BasicAuthUsername := basicUser, kc_BasicAuthPassword := basicPass\<rparr> else cfg)"

definition envTLS :: "viper \<Rightarrow> KeaOption" where
  "envTLS v cfg =
     (let cfg = (if IsSet v KEA_TLS_INSECURE
                 then cfg\<lparr>kc_InsecureSkipVerify := GetBool v KEA_TLS_INSECURE\<rparr> else cfg)
      in if GetBool v KEA_TLS_ENABLED then
           let cfg = orKeep (GetString v KEA_TLS_CA_FILE) (\<lambda>s c. c\<lparr>kc_CACertPath := s\<rparr>) cfg;
               cfg = orKeep (GetString v KEA_TLS_CERT_FILE) (\<lambda>s c. c\<lparr>kc_ClientCertPath := s\<rparr>) cfg;
               cfg = orKeep (GetString v KEA_TLS_KEY_FILE) (\<lambda>s c. c\<lparr>kc_ClientKeyPath := s\<rparr>) cfg
           in orKeep (GetString v KEA_TLS_SERVER_NAME) (\<lambda>s c. c\<lparr>kc_ServerName := s\<rparr>) cfg
         else cfg)"

definition envTimeouts :: "viper \<Rightarrow> KeaOption" where
  "envTimeouts v cfg =
     (let secs = GetInt v KEA_TIMEOUT_SECONDS;
          cfg = (if secs > 0 then setTimeout (seconds secs) cfg else cfg)
      in if GetBool v KEA_DISABLE_KEEPALIVES then cfg\<lparr>kc_disableKeepAlives := True\<rparr> else cfg)"

definition OptionFromEnv :: "viper \<Rightarrow> KeaOption" where
  "OptionFromEnv v cfg = envTimeouts v (envTLS v (envBasicAuth v (envURLs v cfg)))"

definition OptionTLSPEM :: "string \<Rightarrow> string \<Rightarrow> string \<Rightarrow> KeaOption" where
  "OptionTLSPEM caPEM certPEM keyPEM cfg =
     orKeep keyPEM (\<lambda>s c. c\<lparr>kc_ClientKeyPEM := s\<rparr>)
       (orKeep certPEM (\<lambda>s c. c\<lparr>kc_ClientCertPEM := s\<rparr>)
         (orKeep caPEM (\<lambda>s c. c\<lparr>kc_CACertPEM := s\<rparr>) cfg))"

type_synonym secret = "string \<rightharpoonup> string"

definition OptionTLSFromSecret :: "secret option \<Rightarrow> KeaOption" where
  "OptionTLSFromSecret sec cfg =
     (case sec of
        None \<Rightarrow> cfg
      | Some Data \<Rightarrow>
          let cfg = (case Data ''ca.crt'' of Some ca \<Rightarrow> cfg\<lparr>kc_CACertPEM := ca\<rparr> | None \<Rightarrow> cfg);
              cfg = (case Data ''tls.crt'' of Some crt \<Rightarrow> cfg\<lparr>kc_ClientCertPEM := crt\<rparr> | None \<Rightarrow> cfg)
          in (case Data ''tls.key'' of Some key \<Rightarrow> cfg\<lparr>kc_ClientKeyPEM := key\<rparr> | None \<Rightarrow> cfg))"

section \<open>Constructors\<close>

definition applyOptions :: "KeaOption list \<Rightarrow> keaClient \<Rightarrow> keaClient" where
  "applyOptions options kc = fold (\<lambda>opt c. opt c) options kc"

definition NewKeaClientWithOptions :: "osEnv \<Rightarrow> KeaOption list \<Rightarrow> keaClient" where
  "NewKeaClientWithOptions os opts = buildHTTPClient os (applyOptions opts getDefaultKeaConnectionConfig)"

definition NewKeaClient :: "osEnv \<Rightarrow> string \<Rightarrow> string \<Rightarrow> keaClient" where
  "NewKeaClient os baseUrl port =
     buildHTTPClient os (applyOptions [OptionHost baseUrl, OptionPort port] getDefaultKeaConnectionConfig)"

definition NewKeaClientFromEnv :: "osEnv \<Rightarrow> viper \<Rightarrow> keaClient" where
  "NewKeaClientFromEnv os v = NewKeaClientWithOptions os [OptionFromEnv v]"

section \<open>internal/clients\<close>

text \<open>The Kubernetes API, as far as it is used: the secret with a name in a namespace, or
  an error.\<close>

type_synonym secretGetter = "string \<Rightarrow> string \<Rightarrow> secret result"

definition BuildKeaClientFromSecret ::
    "osEnv \<Rightarrow> secretGetter option \<Rightarrow> string \<Rightarrow> string \<Rightarrow> KeaOption list \<Rightarrow> keaClient option result" where
  "BuildKeaClientFromSecret os kube namespace name baseOpts =
     (case kube of
        None \<Rightarrow> Inr None
      | Some get \<Rightarrow>
          if name = [] then Inr None
          else (case get namespace name of
                  Inl err \<Rightarrow> Inl err
                | Inr sec \<Rightarrow> Inr (Some (NewKeaClientWithOptions os (baseOpts @ [OptionTLSFromSecret (Some sec)])))))"

text \<open>\<open>kubeCfg\<close> stands for \<open>config.GetConfig\<close> followed by \<open>kubernetes.NewForConfig\<close>: the client,
  or nothing if one of them fails.\<close>

definition InitializeClients :: "osEnv \<Rightarrow> viper \<Rightarrow> secretGetter option \<Rightarrow> keaClient" where
  "InitializeClients os v kubeCfg =
     (let baseOpts = [OptionFromEnv v];
          secretName = GetString v KEA_TLS_SECRET_NAME;
          secretNS = GetString v KEA_TLS_SECRET_NAMESPACE;
          fallback = NewKeaClientWithOptions os baseOpts
      in if secretName \<noteq> [] then
           let secretNS = (if secretNS = []
                 then (case os_ReadFile os ''/var/run/secrets/kubernetes.io/serviceaccount/namespace'' of
                         Inr nsBytes \<Rightarrow> nsBytes | Inl _ \<Rightarrow> secretNS)
                 else secretNS)
           in (case kubeCfg of
                 None \<Rightarrow> fallback
               | Some kube \<Rightarrow>
                   (case BuildKeaClientFromSecret os (Some kube) secretNS secretName baseOpts of
                      Inr (Some kc) \<Rightarrow> kc
                    | _ \<Rightarrow> fallback))
         else fallback)"

section \<open>Properties\<close>

lemma envURLs_keeps [simp]:
  "kc_Timeout (envURLs v c) = kc_Timeout c" "kc_HttpClient (envURLs v c) = kc_HttpClient c"
  by (simp_all add: envURLs_def orKeep_def Let_def)

lemma envBasicAuth_keeps [simp]:
  "kc_Timeout (envBasicAuth v c) = kc_Timeout c" "kc_HttpClient (envBasicAuth v c) = kc_HttpClient c"
  by (simp_all add: envBasicAuth_def Let_def)

lemma envTLS_keeps [simp]:
  "kc_Timeout (envTLS v c) = kc_Timeout c" "kc_HttpClient (envTLS v c) = kc_HttpClient c"
  by (simp_all add: envTLS_def orKeep_def Let_def)

lemma default_client [simp]:
  "kc_Timeout getDefaultKeaConnectionConfig = seconds 30"
  "kc_HttpClient getDefaultKeaConnectionConfig = Some \<lparr>hc_Timeout = seconds 30, hc_Transport = None\<rparr>"
  by (simp_all add: getDefaultKeaConnectionConfig_def applyDefaults_def)

lemma buildHTTPClient_timeout:
  "kc_Timeout (buildHTTPClient os c) = kc_Timeout c"
  "\<exists>hc. kc_HttpClient (buildHTTPClient os c) = Some hc \<and> hc_Timeout hc = kc_Timeout c"
  by (auto simp: buildHTTPClient_def Let_def)

lemma seconds_exact: "0 \<le> n \<Longrightarrow> n \<le> 9223372036 \<Longrightarrow> seconds n = n * 1000000000"
  unfolding seconds_def by (rule wrap64_id) simp_all

text \<open>
  The client built from the environment uses the configured timeout, 30 seconds
  if none is given, both in its own field and in its HTTP client, for every number of
  seconds that fits in a duration.
\<close>

theorem NewKeaClientFromEnv_timeout:
  assumes "GetInt v KEA_TIMEOUT_SECONDS \<le> 9223372036"
  shows "let secs = GetInt v KEA_TIMEOUT_SECONDS; d = (if secs > 0 then secs else 30) * 1000000000
    in kc_Timeout (NewKeaClientFromEnv os v) = d \<and>
       (\<exists>hc. kc_HttpClient (NewKeaClientFromEnv os v) = Some hc \<and> hc_Timeout hc = d)"
proof -
  let ?c = "OptionFromEnv v getDefaultKeaConnectionConfig"
  have "kc_Timeout ?c = (if GetInt v KEA_TIMEOUT_SECONDS > 0 then GetInt v KEA_TIMEOUT_SECONDS else 30) * 1000000000"
    using assms by (simp add: OptionFromEnv_def envTimeouts_def setTimeout_def Let_def seconds_exact)
  then show ?thesis
    using buildHTTPClient_timeout [of os ?c]
    by (simp add: NewKeaClientFromEnv_def NewKeaClientWithOptions_def applyOptions_def Let_def)
qed

definition demo_viper :: viper where
  "demo_viper =
     \<lparr>GetString = (\<lambda>k. if k = KEA_URL then ''http://kea1'' else []), GetBool = (\<lambda>k. k = KEA_DISABLE_KEEPALIVES),
      GetInt = (\<lambda>k. if k = KEA_TIMEOUT_SECONDS then 10 else 0), IsSet = (\<lambda>_. False)\<rparr>"

theorem NewKeaClientFromEnv_timeout_witness:
  "kc_Timeout (NewKeaClientFromEnv demo_os demo_viper) = 10000000000"
  using NewKeaClientFromEnv_timeout [of demo_viper demo_os] by (simp add: demo_viper_def)

text \<open>
  Disabling keep-alives has no effect without TLS settings: whatever
  \<open>KEA_DISABLE_KEEPALIVES\<close> says, the client keeps the default transport.
\<close>

theorem NewKeaClientFromEnv_keepalives_ignored:
  assumes "\<not> tlsNeeded (OptionFromEnv v getDefaultKeaConnectionConfig)"
  shows "map_option hc_Transport (kc_HttpClient (NewKeaClientFromEnv os v)) = Some None"
proof -
  let ?c = "OptionFromEnv v getDefaultKeaConnectionConfig"
  have "\<exists>t. kc_HttpClient ?c = Some \<lparr>hc_Timeout = t, hc_Transport = None\<rparr>"
    by (simp add: OptionFromEnv_def envTimeouts_def setTimeout_def Let_def)
  then show ?thesis
    using assms
    by (auto simp: NewKeaClientFromEnv_def NewKeaClientWithOptions_def applyOptions_def buildHTTPClient_def Let_def)
qed

theorem NewKeaClientFromEnv_keepalives_ignored_witness:
  "map_option hc_Transport (kc_HttpClient (NewKeaClientFromEnv demo_os demo_viper)) = Some None \<and>
   kc_disableKeepAlives (NewKeaClientFromEnv demo_os demo_viper)"
proof -
  have "\<not> tlsNeeded (OptionFromEnv demo_viper getDefaultKeaConnectionConfig)"
    "kc_disableKeepAlives (NewKeaClientFromEnv demo_os demo_viper)"
    by code_simp+
  then show ?thesis using NewKeaClientFromEnv_keepalives_ignored by blast
qed

lemma OptionTLSFromSecret_empty: "OptionTLSFromSecret (Some Map.empty) c = c"
  by (simp add: OptionTLSFromSecret_def)

text \<open>
  At startup the secret named in the environment, if it can be read, is applied
  on top of the environment's settings; in every other case the client is exactly the
  one the environment alone gives, and a secret without TLS material gives that
  client too.
\<close>

theorem InitializeClients_client:
  "InitializeClients os v kubeCfg =
     (let ns = (if GetString v KEA_TLS_SECRET_NAMESPACE = []
                then result_or [] (os_ReadFile os ''/var/run/secrets/kubernetes.io/serviceaccount/namespace'')
                else GetString v KEA_TLS_SECRET_NAMESPACE);
          found = (case kubeCfg of None \<Rightarrow> None
                   | Some get \<Rightarrow> if GetString v KEA_TLS_SECRET_NAME = [] then None
                       else (case get ns (GetString v KEA_TLS_SECRET_NAME) of Inl _ \<Rightarrow> None | Inr sec \<Rightarrow> Some sec))
      in buildHTTPClient os (OptionTLSFromSecret found (OptionFromEnv v getDefaultKeaConnectionConfig))) \<and>
   OptionTLSFromSecret (Some Map.empty) = OptionTLSFromSecret None"
proof
  have n: "OptionTLSFromSecret None c = c" for c by (simp add: OptionTLSFromSecret_def)
  then show "OptionTLSFromSecret (Some Map.empty) = OptionTLSFromSecret None"
    by (simp add: fun_eq_iff OptionTLSFromSecret_empty)
  let ?ns = "if GetString v KEA_TLS_SECRET_NAMESPACE = []
      then result_or [] (os_ReadFile os ''/var/run/secrets/kubernetes.io/serviceaccount/namespace'')
      else GetString v KEA_TLS_SECRET_NAMESPACE"
  have ns: "(if GetString v KEA_TLS_SECRET_NAMESPACE = []
      then (case os_ReadFile os ''/var/run/secrets/kubernetes.io/serviceaccount/namespace'' of
              Inr nsBytes \<Rightarrow> nsBytes | Inl _ \<Rightarrow> GetString v KEA_TLS_SECRET_NAMESPACE)
      else GetString v KEA_TLS_SECRET_NAMESPACE) = ?ns"
    by (simp add: result_or_def split: sum.splits)
  show "InitializeClients os v kubeCfg =
     (let ns = ?ns;
          found = (case kubeCfg of None \<Rightarrow> None
                   | Some get \<Rightarrow> if GetString v KEA_TLS_SECRET_NAME = [] then None
                       else (case get ns (GetString v KEA_TLS_SECRET_NAME) of Inl _ \<Rightarrow> None | Inr sec \<Rightarrow> Some sec))
      in buildHTTPClient os (OptionTLSFromSecret found (OptionFromEnv v getDefaultKeaConnectionConfig)))"
    unfolding InitializeClients_def Let_def ns
    by (cases kubeCfg; cases "the kubeCfg ?ns (GetString v KEA_TLS_SECRET_NAME)")
      (simp_all add: BuildKeaClientFromSecret_def NewKeaClientWithOptions_def applyOptions_def n)
qed

text \<open>
  C25: for a base URL that is a host, with or without scheme and port and with any
  number of slashes at its end, the address is scheme, host and port, and a request to
  it can be formed. A port in the URL wins over the configured one. Without a scheme in the
  URL, https is used exactly if a certificate file is configured: TLS material
  given in memory (from the secret) does not select it.
\<close>

theorem buildBaseURL_address:
  assumes "plain_host h" "\<forall>s. scheme = Some s \<longrightarrow> scheme_ok s" "\<forall>q. port = Some q \<longrightarrow> list_all is_digit q"
    and "kc_Port c \<noteq> []" "list_all is_digit (kc_Port c)"
    and "kc_BaseUrl c = base_url scheme h port @ replicate n (CHR ''/'')"
    and base: "base = (case scheme of
          Some s \<Rightarrow> ToLower s
        | None \<Rightarrow> if kc_ClientCertPath c \<noteq> [] \<or> kc_CACertPath c \<noteq> [] then ''https'' else ''http'') @
      ''://'' @ h @ '':'' @ (case port of None \<Rightarrow> kc_Port c | Some q \<Rightarrow> q)"
  shows "buildBaseURL env (OptionTLSPEM ca crt key c) = Inr base \<and> http_NewRequest env (base @ ''/'') = None"
proof
  let ?p = "CHR '':'' # (case port of None \<Rightarrow> kc_Port c | Some q \<Rightarrow> q)"
  have b: "base = scheme_used c scheme @ ''://'' @ h @ ?p" by (simp add: base scheme_used_def split: option.splits)
  have "buildBaseURL env (OptionTLSPEM ca crt key c) = buildBaseURL env c"
    by (simp add: OptionTLSPEM_def orKeep_def buildBaseURL_def cong: if_cong sum.case_cong)
  then show "buildBaseURL env (OptionTLSPEM ca crt key c) = Inr base"
    using buildBaseURL_plain [OF assms(1-6), of env] b by simp
  have "plain_port ?p" using assms(3,5) by (auto simp: plain_port_def split: option.splits)
  then show "http_NewRequest env (base @ ''/'') = None"
    using plainParse_plain [OF scheme_used_ok(1) [OF assms(2), of c] assms(1), of ?p "''/''"]
    by (simp add: http_NewRequest_def url_Parse_def b plain_path_def)
qed

theorem buildBaseURL_address_witness:
  "buildBaseURL demo_env (OptionTLSPEM ''CA'' ''CERT'' ''KEY'' demo_client) = Inr ''http://kea1:8000'' \<and>
   http_NewRequest demo_env ''http://kea1:8000/'' = None"
proof -
  have h: "plain_host ''kea1''" "kc_Port demo_client \<noteq> []" "list_all is_digit (kc_Port demo_client)"
    "kc_BaseUrl demo_client = base_url None ''kea1'' None @ replicate 0 (CHR ''/'')"
    "''http://kea1:8000'' = (case None of Some s \<Rightarrow> ToLower s
        | None \<Rightarrow> if kc_ClientCertPath demo_client \<noteq> [] \<or> kc_CACertPath demo_client \<noteq> [] then ''https'' else ''http'') @
      ''://'' @ ''kea1'' @ '':'' @ (case None of None \<Rightarrow> kc_Port demo_client | Some q \<Rightarrow> q)"
    by code_simp+
  show ?thesis using buildBaseURL_address [OF h(1) _ _ h(2-5), of demo_env "''CA''" "''CERT''" "''KEY''"] by simp
qed

end
