(* ===== verification/Startup.thy ===== *)
theory Startup
  imports KeaOptions
begin

text \<open>
  Startup: the retry loop of \<open>internal/services/initialchecks\<close> and the configuration
  defaults of \<open>internal/settings\<close>. \<open>os.Exit\<close> ends the process: it is the value \<open>Exit\<close> of
  the outcome, and nothing after it runs. Sleeping between attempts and the timeout
  of an attempt are left out: a timeout is an error of \<open>Send\<close>.
\<close>

datatype outcome_startup = Continue | Exit int

section \<open>initialchecks.go\<close>

definition ping_reply :: "Response result \<Rightarrow> unit result" where
  "ping_reply r =
     (case r of
        Inl err \<Rightarrow> Inl err
      | Inr resp \<Rightarrow>
          if Result resp = 0 then Inr ()
          else if Text resp \<noteq> [] \<and>
            (Contains (ToLower (Text resp)) ''unsupported'' \<or> Contains (ToLower (Text resp)) ''not supported'')
          then Inr ()
          else Inl (''kea responded with non-success: '' @ Text resp))"

definition version_get :: Request where
  "version_get = mk_request ''version-get'' []"

definition pingKea :: "unit result prog" where
  "pingKea = Call version_get (\<lambda>r. Return (ping_reply r))"

text \<open>The loop \<open>for attempt := 1; attempt <= maxRetries; attempt++\<close>, by the number of
  attempts left.\<close>

fun pingLoop :: "nat \<Rightarrow> outcome_startup prog" where
  "pingLoop 0 = Return (Exit 1)"
| "pingLoop (Suc n) =
     bindP pingKea (\<lambda>err. case err of Inr _ \<Rightarrow> Return Continue | Inl lastErr \<Rightarrow> pingLoop n)"

definition maxRetries :: nat where
  "maxRetries = 5"

definition checkKea :: "bool \<Rightarrow> outcome_startup prog" where
  "checkKea clientInitialized = (if \<not> clientInitialized then Return (Exit 1) else pingLoop maxRetries)"

fun nonEmpty :: "string list \<Rightarrow> string" where
  "nonEmpty [] = []"
| "nonEmpty (v # vs) = (if v \<noteq> [] then v else nonEmpty vs)"

text \<open>\<open>InitialChecks\<close>. The Kubernetes client and the check for the CRDs are outside:
  \<open>k8s\<close> is \<open>None\<close> if the client is not initialized, otherwise the result of
  \<open>ServerVersion\<close>; \<open>crds\<close> says whether \<open>MustEnsureInstalled\<close> returns.\<close>

definition InitialChecks :: "bool \<Rightarrow> string result option \<Rightarrow> bool \<Rightarrow> outcome_startup prog" where
  "InitialChecks clientInitialized k8s crds =
     bindP (checkKea clientInitialized) (\<lambda>res.
       case res of
         Exit n \<Rightarrow> Return (Exit n)
       | Continue \<Rightarrow>
           (case k8s of
              None \<Rightarrow> Return (Exit 1)
            | Some (Inl err) \<Rightarrow> Return (Exit 1)
            | Some (Inr version) \<Rightarrow> if crds then Return Continue else Return (Exit 1)))"

section \<open>settings.go\<close>

datatype setting = SBool bool | SString string

definition setting_defaults :: "(string \<times> setting) list" where
  "setting_defaults =
     [(LOG_JSON_LOGGING, SBool True), (LOG_LEVEL, SString ''info''), (LOG_COLORIZE, SBool False),
      (LOG_ADD_CALLER, SBool True), (LOG_DISABLE_STACKTRANCE, SBool False),
      (LOG_UNESCAPE_MULTILINE, SBool False), (DEVELOPMENT, SBool False),
      (KEA_DISABLE_KEEPALIVES, SBool True),
      (KEA_REQUIRE_CLIENT_CLASSES, SString ''biosclients,ueficlients,ipxeclients''),
      (KEA_STRICT_DEFAULTS, SBool False)]"

definition printed_settings :: "string list" where
  "printed_settings =
     [LOG_JSON_LOGGING, LOG_COLORIZE, LOG_ADD_CALLER, LOG_DISABLE_STACKTRANCE,
      LOG_UNESCAPE_MULTILINE, DEVELOPMENT, LOG_LEVEL, KEA_BASE_URL, KEA_URL,
      KEA_SECONDARY_URL, KEA_PORT, KEA_TLS_CA_FILE, KEA_TLS_CERT_FILE, KEA_TLS_KEY_FILE,
      KEA_TLS_ENABLED, KEA_TLS_INSECURE, KEA_TLS_SERVER_NAME, KEA_TIMEOUT_SECONDS,
      KEA_TLS_SECRET_NAME, KEA_TLS_SECRET_NAMESPACE, KEA_DISABLE_KEEPALIVES,
      KEA_REQUIRE_CLIENT_CLASSES, KEA_STRICT_DEFAULTS]"

text \<open>The lines \<open>printEnvironmentSettings\<close> logs, for the keys that have a value.\<close>

definition printEnvironmentSettings :: "(string \<rightharpoonup> string) \<Rightarrow> string list" where
  "printEnvironmentSettings val =
     concat (map (\<lambda>s. case val s of None \<Rightarrow> [] | Some v \<Rightarrow> [s @ ''='' @ v]) printed_settings)"

text \<open>\<open>Init\<close>, as the sequence of its calls; \<open>val\<close> are the values afterwards.\<close>

datatype settingsCall = SetDefault string setting | LoadDotEnv | AutomaticEnv | LogInfo string

definition Init :: "(string \<rightharpoonup> string) \<Rightarrow> settingsCall list" where
  "Init val =
     map (\<lambda>(k, v). SetDefault k v) setting_defaults @ [LoadDotEnv, AutomaticEnv] @
     map LogInfo (printEnvironmentSettings val)"

section \<open>Properties\<close>

lemma pingLoop_spec:
  "let k = exchanges send (pingLoop n) w in length k \<le> n \<and> (\<forall>e\<in>set k. fst e = version_get) \<and>
     (case fst (run send (pingLoop n) w) of
        Continue \<Rightarrow> k \<noteq> [] \<and> is_ok (ping_reply (snd (last k))) \<and> (\<forall>e\<in>set (butlast k). \<not> is_ok (ping_reply (snd e)))
      | Exit c \<Rightarrow> c = 1 \<and> length k = n \<and> (\<forall>e\<in>set k. \<not> is_ok (ping_reply (snd e))))"
proof (induction n arbitrary: w)
  case (Suc n)
  obtain x w' where s: "send version_get w = (x, w')" by fastforce
  show ?case
  proof (cases "ping_reply x")
    case (Inr u)
    then show ?thesis using s by (simp add: pingKea_def)
  next
    case (Inl e)
    then show ?thesis using s Suc.IH [of w'] by (auto simp: pingKea_def Let_def split: outcome_startup.splits)
  qed
qed (simp add: Let_def)

text \<open>
  C26: startup probes Kea with \<open>version-get\<close> at most five times and goes on at the
  first answer that is a success or says the command is not supported; it exits with
  status 1 exactly when all five attempts fail, or when there is no client, and then
  without a request.
\<close>

theorem checkKea_retries:
  "(let k = exchanges send (checkKea True) w in length k \<le> 5 \<and> (\<forall>e\<in>set k. fst e = version_get) \<and>
     (case fst (run send (checkKea True) w) of
        Continue \<Rightarrow> k \<noteq> [] \<and> is_ok (ping_reply (snd (last k))) \<and> (\<forall>e\<in>set (butlast k). \<not> is_ok (ping_reply (snd e)))
      | Exit c \<Rightarrow> c = 1 \<and> length k = 5 \<and> (\<forall>e\<in>set k. \<not> is_ok (ping_reply (snd e))))) \<and>
   checkKea False = Return (Exit 1)"
  using pingLoop_spec [of send 5 w] by (simp add: checkKea_def maxRetries_def del: pingLoop.simps)

theorem checkKea_retries_witness:
  "let k = exchanges (\<lambda>r w. (if w < 2 then Inl ''connection refused'' else Inr zero_Response, Suc w)) (checkKea True) 0
   in length k \<le> 5 \<and> length k = 3"
proof -
  let ?send = "\<lambda>r w. (if w < 2 then Inl ''connection refused'' else Inr zero_Response, Suc w)"
  have "length (exchanges ?send (checkKea True) 0) = 3" by code_simp
  then show ?thesis using checkKea_retries [of ?send 0] by (auto simp: Let_def)
qed

end
