(* ===== verification/ReconcileProg.thy ===== *)
theory ReconcileProg
  imports Startup SubnetUtil
begin

text \<open>
  The world of the controller: the custom resources it reads and writes, the parts of
  the Kubernetes API and of the vitistack library it calls, and programs over them.

  A reconcile is a program \<open>cprog\<close>: it returns, or performs one effect and goes on
  with its result. The effects are requests to Kea, the mutexes of the Kea service,
  reads of the Kubernetes API, status patches, adding and removing the finalizer, the
  clock, and the process-wide set of warnings already given. \<open>runC\<close> executes a program
  over a world that answers the effects, \<open>trace\<close> lists the effects of a run.

  The types \<open>NetworkConfiguration\<close> and \<open>NetworkNamespace\<close> come from another repository;
  the records have the fields this repository uses. A Kubernetes timestamp is an
  \<open>option\<close>, \<open>None\<close> for the zero time. Nil and empty slices are not distinguished.
\<close>

section \<open>Resources\<close>

record NCInterface =
  ni_Name :: string
  ni_MacAddress :: string
  ni_Vlan :: string
  ni_IPv4Addresses :: "string list"
  ni_IPv4Subnet :: string
  ni_IPv4Gateway :: string
  ni_DNS :: "string list"
  ni_DHCPReserved :: bool

record condition =
  cd_Type :: string
  cd_Status :: string
  cd_Reason :: string
  cd_Message :: string
  cd_ObservedGeneration :: int

record ncStatus =
  st_Phase :: string
  st_Status :: string
  st_Message :: string
  st_Created :: "int option"
  st_Interfaces :: "NCInterface list"
  st_Conditions :: "condition list"

record NetworkConfiguration =
  nc_Name :: string
  nc_Namespace :: string
  nc_Generation :: int
  nc_ResourceVersion :: string
  nc_DeletionTimestamp :: "int option"
  nc_Finalizers :: "string list"
  nc_Provider :: string
  nc_NetworkNamespaceName :: string
  nc_Interfaces :: "NCInterface list"
  nc_Status :: ncStatus

record NetworkNamespace =
  nn_Name :: string
  nn_Namespace :: string
  nn_IPAllocation :: "string option"
  nn_IPv4Prefix :: string

datatype getError = NotFound | GetFailed go_error

record ctrlResult =
  RequeueAfter :: int

type_synonym reconcileResult = "ctrlResult \<times> go_error option"

section \<open>What other repositories provide\<close>

text \<open>The functions and constants of \<open>vitistack/common\<close> that the controller calls.\<close>

record vitiLib =
  IsProviderSet :: "string \<Rightarrow> bool"
  MatchesProvider :: "string \<Rightarrow> string \<Rightarrow> bool"
  ProviderNameKea :: string
  IPAllocationTypeDHCP :: string
  conditions_New :: "string \<Rightarrow> string \<Rightarrow> string \<Rightarrow> string \<Rightarrow> int \<Rightarrow> condition"
  SetOrUpdateCondition :: "condition list \<Rightarrow> condition \<Rightarrow> condition list"
  finalizers_Has :: "NetworkConfiguration \<Rightarrow> string \<Rightarrow> bool"
  Requeue :: "go_error \<Rightarrow> reconcileResult"

section \<open>Programs\<close>

datatype 'a cprog =
    CRet 'a
  | CKea Request "Response result \<Rightarrow> 'a cprog"
  | CMutex bool string "'a cprog"
  | CGetNC string string "getError + NetworkConfiguration \<Rightarrow> 'a cprog"
  | CGetNN string string "NetworkNamespace result \<Rightarrow> 'a cprog"
  | CListNN string "NetworkNamespace list result \<Rightarrow> 'a cprog"
  | CPatch NetworkConfiguration NetworkConfiguration "NetworkConfiguration result \<Rightarrow> 'a cprog"
  | CFinalizer bool NetworkConfiguration string "go_error option \<Rightarrow> 'a cprog"
  | CNow "int \<Rightarrow> 'a cprog"
  | CWarned string "bool \<Rightarrow> 'a cprog"

primrec bindC :: "'a cprog \<Rightarrow> ('a \<Rightarrow> 'b cprog) \<Rightarrow> 'b cprog" where
  "bindC (CRet a) f = f a"
| "bindC (CKea r k) f = CKea r (\<lambda>x. bindC (k x) f)"
| "bindC (CMutex b c p) f = CMutex b c (bindC p f)"
| "bindC (CGetNC ns n k) f = CGetNC ns n (\<lambda>x. bindC (k x) f)"
| "bindC (CGetNN ns n k) f = CGetNN ns n (\<lambda>x. bindC (k x) f)"
| "bindC (CListNN ns k) f = CListNN ns (\<lambda>x. bindC (k x) f)"
| "bindC (CPatch u b k) f = CPatch u b (\<lambda>x. bindC (k x) f)"
| "bindC (CFinalizer b nc n k) f = CFinalizer b nc n (\<lambda>x. bindC (k x) f)"
| "bindC (CNow k) f = CNow (\<lambda>x. bindC (k x) f)"
| "bindC (CWarned s k) f = CWarned s (\<lambda>x. bindC (k x) f)"

text \<open>A call of the Kea service.\<close>

primrec kea :: "'a prog \<Rightarrow> 'a cprog" where
  "kea (Return a) = CRet a"
| "kea (Call r k) = CKea r (\<lambda>x. kea (k x))"
| "kea (Lock c p) = CMutex True c (kea p)"
| "kea (Unlock c p) = CMutex False c (kea p)"

section \<open>Effects and runs\<close>

datatype effect =
    EKea Request
  | EMutex bool string
  | EGetNC string string
  | EGetNN string string
  | EListNN string
  | EPatch NetworkConfiguration NetworkConfiguration
  | EFinalizer bool NetworkConfiguration string
  | ENow
  | EWarned string

text \<open>Every effect the program can perform, whatever the answers are, satisfies \<open>P\<close>.\<close>

primrec effects_only :: "(effect \<Rightarrow> bool) \<Rightarrow> 'a cprog \<Rightarrow> bool" where
  "effects_only P (CRet a) = True"
| "effects_only P (CKea r k) = (P (EKea r) \<and> (\<forall>x. effects_only P (k x)))"
| "effects_only P (CMutex b c p) = (P (EMutex b c) \<and> effects_only P p)"
| "effects_only P (CGetNC ns n k) = (P (EGetNC ns n) \<and> (\<forall>x. effects_only P (k x)))"
| "effects_only P (CGetNN ns n k) = (P (EGetNN ns n) \<and> (\<forall>x. effects_only P (k x)))"
| "effects_only P (CListNN ns k) = (P (EListNN ns) \<and> (\<forall>x. effects_only P (k x)))"
| "effects_only P (CPatch u b k) = (P (EPatch u b) \<and> (\<forall>x. effects_only P (k x)))"
| "effects_only P (CFinalizer b nc n k) = (P (EFinalizer b nc n) \<and> (\<forall>x. effects_only P (k x)))"
| "effects_only P (CNow k) = (P ENow \<and> (\<forall>x. effects_only P (k x)))"
| "effects_only P (CWarned s k) = (P (EWarned s) \<and> (\<forall>x. effects_only P (k x)))"

primrec returnsC :: "('a \<Rightarrow> bool) \<Rightarrow> 'a cprog \<Rightarrow> bool" where
  "returnsC Q (CRet a) = Q a"
| "returnsC Q (CKea r k) = (\<forall>x. returnsC Q (k x))"
| "returnsC Q (CMutex b c p) = returnsC Q p"
| "returnsC Q (CGetNC ns n k) = (\<forall>x. returnsC Q (k x))"
| "returnsC Q (CGetNN ns n k) = (\<forall>x. returnsC Q (k x))"
| "returnsC Q (CListNN ns k) = (\<forall>x. returnsC Q (k x))"
| "returnsC Q (CPatch u b k) = (\<forall>x. returnsC Q (k x))"
| "returnsC Q (CFinalizer b nc n k) = (\<forall>x. returnsC Q (k x))"
| "returnsC Q (CNow k) = (\<forall>x. returnsC Q (k x))"
| "returnsC Q (CWarned s k) = (\<forall>x. returnsC Q (k x))"

text \<open>A world: a state and what answers the effects.\<close>

record 'w worldOps =
  w_kea :: "'w sender"
  w_getNC :: "string \<Rightarrow> string \<Rightarrow> 'w \<Rightarrow> (getError + NetworkConfiguration) \<times> 'w"
  w_getNN :: "string \<Rightarrow> string \<Rightarrow> 'w \<Rightarrow> NetworkNamespace result \<times> 'w"
  w_listNN :: "string \<Rightarrow> 'w \<Rightarrow> NetworkNamespace list result \<times> 'w"
  w_patch :: "NetworkConfiguration \<Rightarrow> NetworkConfiguration \<Rightarrow> 'w \<Rightarrow> NetworkConfiguration result \<times> 'w"
  w_finalizer :: "bool \<Rightarrow> NetworkConfiguration \<Rightarrow> string \<Rightarrow> 'w \<Rightarrow> go_error option \<times> 'w"
  w_now :: "'w \<Rightarrow> int \<times> 'w"
  w_warned :: "string \<Rightarrow> 'w \<Rightarrow> bool \<times> 'w"

text \<open>Every answer of the Kubernetes API, the clock and the set of warnings relates the states
  before and after by \<open>R\<close>.\<close>

definition api_rel :: "'w worldOps \<Rightarrow> ('w \<Rightarrow> 'w \<Rightarrow> bool) \<Rightarrow> bool" where
  "api_rel W R \<longleftrightarrow>
     (\<forall>ns n w. R w (snd (w_getNC W ns n w))) \<and>
     (\<forall>ns n w. R w (snd (w_getNN W ns n w))) \<and>
     (\<forall>ns w. R w (snd (w_listNN W ns w))) \<and>
     (\<forall>u b w. R w (snd (w_patch W u b w))) \<and>
     (\<forall>a nc n w. R w (snd (w_finalizer W a nc n w))) \<and>
     (\<forall>w. R w (snd (w_now W w))) \<and>
     (\<forall>k w. R w (snd (w_warned W k w)))"

lemma api_rel_mono: "api_rel W R \<Longrightarrow> (\<And>w w'. R w w' \<Longrightarrow> R' w w') \<Longrightarrow> api_rel W R'"
  unfolding api_rel_def by blast

primrec runC :: "'w worldOps \<Rightarrow> 'a cprog \<Rightarrow> 'w \<Rightarrow> 'a \<times> 'w" where
  "runC W (CRet a) w = (a, w)"
| "runC W (CKea r k) w = (case w_kea W r w of (x, w') \<Rightarrow> runC W (k x) w')"
| "runC W (CMutex b c p) w = runC W p w"
| "runC W (CGetNC ns n k) w = (case w_getNC W ns n w of (x, w') \<Rightarrow> runC W (k x) w')"
| "runC W (CGetNN ns n k) w = (case w_getNN W ns n w of (x, w') \<Rightarrow> runC W (k x) w')"
| "runC W (CListNN ns k) w = (case w_listNN W ns w of (x, w') \<Rightarrow> runC W (k x) w')"
| "runC W (CPatch u b k) w = (case w_patch W u b w of (x, w') \<Rightarrow> runC W (k x) w')"
| "runC W (CFinalizer b nc n k) w = (case w_finalizer W b nc n w of (x, w') \<Rightarrow> runC W (k x) w')"
| "runC W (CNow k) w = (case w_now W w of (x, w') \<Rightarrow> runC W (k x) w')"
| "runC W (CWarned s k) w = (case w_warned W s w of (x, w') \<Rightarrow> runC W (k x) w')"

primrec trace :: "'w worldOps \<Rightarrow> 'a cprog \<Rightarrow> 'w \<Rightarrow> effect list" where
  "trace W (CRet a) w = []"
| "trace W (CKea r k) w = EKea r # (case w_kea W r w of (x, w') \<Rightarrow> trace W (k x) w')"
| "trace W (CMutex b c p) w = EMutex b c # trace W p w"
| "trace W (CGetNC ns n k) w = EGetNC ns n # (case w_getNC W ns n w of (x, w') \<Rightarrow> trace W (k x) w')"
| "trace W (CGetNN ns n k) w = EGetNN ns n # (case w_getNN W ns n w of (x, w') \<Rightarrow> trace W (k x) w')"
| "trace W (CListNN ns k) w = EListNN ns # (case w_listNN W ns w of (x, w') \<Rightarrow> trace W (k x) w')"
| "trace W (CPatch u b k) w = EPatch u b # (case w_patch W u b w of (x, w') \<Rightarrow> trace W (k x) w')"
| "trace W (CFinalizer b nc n k) w =
     EFinalizer b nc n # (case w_finalizer W b nc n w of (x, w') \<Rightarrow> trace W (k x) w')"
| "trace W (CNow k) w = ENow # (case w_now W w of (x, w') \<Rightarrow> trace W (k x) w')"
| "trace W (CWarned s k) w = EWarned s # (case w_warned W s w of (x, w') \<Rightarrow> trace W (k x) w')"

section \<open>Lemmas on programs\<close>

lemma runC_bindC [simp]:
  "runC W (bindC p f) w = (case runC W p w of (a, w') \<Rightarrow> runC W (f a) w')"
  by (induction p arbitrary: w) (auto split: prod.splits)

lemma trace_bindC [simp]:
  "trace W (bindC p f) w = trace W p w @ (case runC W p w of (a, w') \<Rightarrow> trace W (f a) w')"
  by (induction p arbitrary: w) (auto split: prod.splits)

lemma bindC_assoc: "bindC (bindC p f) g = bindC p (\<lambda>a. bindC (f a) g)"
  by (induction p) auto

lemma runC_kea [simp]: "runC W (kea p) w = run (w_kea W) p w"
  by (induction p arbitrary: w) (auto split: prod.splits)

lemma effects_only_bindC:
  "effects_only P p \<Longrightarrow> returnsC Q p \<Longrightarrow> (\<And>a. Q a \<Longrightarrow> effects_only P (f a)) \<Longrightarrow> effects_only P (bindC p f)"
  by (induction p) auto

lemma effects_only_bindI:
  "effects_only P p \<Longrightarrow> (\<And>a. effects_only P (f a)) \<Longrightarrow> effects_only P (bindC p f)"
  by (induction p) auto

lemma effects_only_mono: "effects_only P p \<Longrightarrow> (\<And>e. P e \<Longrightarrow> P' e) \<Longrightarrow> effects_only P' p"
  by (induction p) auto

lemma effects_only_kea:
  "calls_only R p \<Longrightarrow> (\<And>r. R r \<Longrightarrow> P (EKea r)) \<Longrightarrow> (\<And>b c. P (EMutex b c)) \<Longrightarrow> effects_only P (kea p)"
  by (induction p) auto

lemma effects_only_trace: "effects_only P p \<Longrightarrow> e \<in> set (trace W p w) \<Longrightarrow> P e"
  by (induction p arbitrary: w) (auto split: prod.splits)

lemma returnsC_bindC:
  "returnsC Q p \<Longrightarrow> (\<And>a. Q a \<Longrightarrow> returnsC Q' (f a)) \<Longrightarrow> returnsC Q' (bindC p f)"
  by (induction p) auto

lemma returnsC_bindI: "(\<And>a. returnsC Q (f a)) \<Longrightarrow> returnsC Q (bindC p f)"
  by (induction p) auto

lemma returnsC_mono: "returnsC Q p \<Longrightarrow> (\<And>a. Q a \<Longrightarrow> Q' a) \<Longrightarrow> returnsC Q' p"
  by (induction p) auto

lemma returnsC_run: "returnsC Q p \<Longrightarrow> Q (fst (runC W p w))"
  by (induction p arbitrary: w) (auto split: prod.splits)

lemma returnsC_kea: "returns_only Q p \<Longrightarrow> returnsC Q (kea p)"
  by (induction p) auto

lemma returnsC_trivial [simp]: "returnsC (\<lambda>_. True) p"
  by (induction p) auto

end
