(* ===== verification/Controller.thy ===== *)
theory Controller
  imports ReconcileProg
begin

text \<open>
  The reconciler of \<open>internal/controller/v1alpha1\<close>: one definition per method, and
  \<open>Reconcile\<close> in four parts that follow its text. Log lines are left out. A method that
  changes the resource it is given through the pointer returns the changed resource.
  \<open>ord\<close> stands for the order in which Go iterates over a map.
\<close>

abbreviation finalizerName :: string where "finalizerName \<equiv> ''vitistack.io/networkconfiguration-finalizer''"
abbreviation conditionTypeReady :: string where "conditionTypeReady \<equiv> ''Ready''"

definition RequeueDelaySuccess :: int where
  "RequeueDelaySuccess = 5 * 60 * 1000000000"

definition RequeueDelayError :: int where
  "RequeueDelayError = 30 * 1000000000"

definition doneResult :: reconcileResult where
  "doneResult = (\<lparr>RequeueAfter = 0\<rparr>, None)"

definition retryAfter :: "int \<Rightarrow> reconcileResult" where
  "retryAfter d = (\<lparr>RequeueAfter = d\<rparr>, None)"

section \<open>MAC addresses\<close>

definition macOf :: "NCInterface \<Rightarrow> string option" where
  "macOf ni =
     (if ni_MacAddress ni = [] then None
      else let s = ToLower (TrimSpace (ni_MacAddress ni)) in
        if s = [] then None
        else let s = ReplaceByte (CHR ''-'') (CHR '':'') s in
          if \<not> ParseMAC_ok s then None else Some s)"

fun collectMACs :: "NCInterface list \<Rightarrow> string list \<Rightarrow> string list" where
  "collectMACs [] uniq = uniq"
| "collectMACs (ni # nis) uniq =
     (case macOf ni of
        None \<Rightarrow> collectMACs nis uniq
      | Some s \<Rightarrow> collectMACs nis (if s \<in> set uniq then uniq else uniq @ [s]))"

definition extractMACs :: "(string list \<Rightarrow> string list) \<Rightarrow> NetworkConfiguration \<Rightarrow> string list" where
  "extractMACs ord nc =
     (if nc_Interfaces nc = [] then []
      else let uniq = collectMACs (nc_Interfaces nc) [] in if uniq = [] then [] else ord uniq)"

section \<open>Status\<close>

fun findCondition :: "condition list \<Rightarrow> string \<Rightarrow> condition option" where
  "findCondition [] condType = None"
| "findCondition (c # conds) condType = (if cd_Type c = condType then Some c else findCondition conds condType)"

definition getReadyCondition :: "NetworkConfiguration \<Rightarrow> condition option" where
  "getReadyCondition nc = findCondition (st_Conditions (nc_Status nc)) conditionTypeReady"

definition sameCondition :: "condition \<Rightarrow> condition \<Rightarrow> bool" where
  "sameCondition prev cur \<longleftrightarrow>
     cd_Status prev = cd_Status cur \<and> cd_Reason prev = cd_Reason cur \<and> cd_Message prev = cd_Message cur \<and>
     cd_ObservedGeneration prev = cd_ObservedGeneration cur"

definition setCondition ::
    "vitiLib \<Rightarrow> NetworkConfiguration \<Rightarrow> condition \<Rightarrow> (NetworkConfiguration \<times> go_error option) cprog" where
  "setCondition lib nc cond =
     (let prev = findCondition (st_Conditions (nc_Status nc)) (cd_Type cond);
          conds = SetOrUpdateCondition lib (st_Conditions (nc_Status nc)) cond;
          updated = nc\<lparr>nc_Status := (nc_Status nc)\<lparr>st_Conditions := conds\<rparr>\<rparr>;
          cur = findCondition conds (cd_Type cond)
      in if (case (prev, cur) of (Some p, Some c) \<Rightarrow> sameCondition p c | _ \<Rightarrow> False) then CRet (nc, None)
         else CPatch updated nc (\<lambda>r. case r of
                Inl err \<Rightarrow> CRet (nc, Some err)
              | Inr updated \<Rightarrow>
                  CRet (nc\<lparr>nc_Status := (nc_Status nc)\<lparr>st_Conditions := st_Conditions (nc_Status updated)\<rparr>,
                           nc_ResourceVersion := nc_ResourceVersion updated\<rparr>, None)))"

text \<open>The three string fields and the interfaces, with the flag \<open>changed\<close>; the creation
  time is set between them if it is zero.\<close>

definition setFields :: "string \<Rightarrow> string \<Rightarrow> string \<Rightarrow> ncStatus \<Rightarrow> ncStatus \<times> bool" where
  "setFields phase status message st =
     (let c1 = (phase \<noteq> [] \<and> st_Phase st \<noteq> phase); st = (if c1 then st\<lparr>st_Phase := phase\<rparr> else st);
          c2 = (status \<noteq> [] \<and> st_Status st \<noteq> status); st = (if c2 then st\<lparr>st_Status := status\<rparr> else st);
          c3 = (message \<noteq> [] \<and> st_Message st \<noteq> message); st = (if c3 then st\<lparr>st_Message := message\<rparr> else st)
      in (st, c1 \<or> c2 \<or> c3))"

definition setInterfaces :: "NCInterface list \<Rightarrow> ncStatus \<times> bool \<Rightarrow> ncStatus \<times> bool" where
  "setInterfaces ifs sc =
     (case sc of (st, changed) \<Rightarrow>
        if ifs \<noteq> [] \<and> st_Interfaces st \<noteq> ifs then (st\<lparr>st_Interfaces := ifs\<rparr>, True) else (st, changed))"

definition patchStatus :: "NetworkConfiguration \<Rightarrow> ncStatus \<times> bool \<Rightarrow> (NetworkConfiguration \<times> go_error option) cprog" where
  "patchStatus nc sc =
     (case sc of (st, changed) \<Rightarrow>
        if \<not> changed then CRet (nc, None)
        else CPatch (nc\<lparr>nc_Status := st\<rparr>) nc (\<lambda>r. case r of
               Inl err \<Rightarrow> CRet (nc, Some err)
             | Inr updated \<Rightarrow>
                 CRet (nc\<lparr>nc_Status := nc_Status updated, nc_ResourceVersion := nc_ResourceVersion updated\<rparr>, None)))"

definition updateStatus ::
    "NetworkConfiguration \<Rightarrow> string \<Rightarrow> string \<Rightarrow> string \<Rightarrow> NCInterface list \<Rightarrow>
     (NetworkConfiguration \<times> go_error option) cprog" where
  "updateStatus nc phase status message networkInterfaces =
     (case setFields phase status message (nc_Status nc) of (st, changed) \<Rightarrow>
        if st_Created st = None
        then CNow (\<lambda>t. patchStatus nc (setInterfaces networkInterfaces (st\<lparr>st_Created := Some t\<rparr>, True)))
        else patchStatus nc (setInterfaces networkInterfaces (st, changed)))"

definition statusIface ::
    "(string \<times> string) list \<Rightarrow> (string \<times> int) list \<Rightarrow> string \<Rightarrow> SubnetInfo option \<Rightarrow> NCInterface \<Rightarrow> NCInterface" where
  "statusIface macToIP macToSubnetID ipv4Prefix subnetInfo iface =
     (let normalizedMAC = ToLower (TrimSpace (ReplaceByte (CHR ''-'') (CHR '':'') (ni_MacAddress iface)))
      in \<lparr>ni_Name = ni_Name iface, ni_MacAddress = ni_MacAddress iface, ni_Vlan = ni_Vlan iface,
          ni_IPv4Addresses = (case map_of macToIP normalizedMAC of Some ip \<Rightarrow> [ip] | None \<Rightarrow> []),
          ni_IPv4Subnet = ipv4Prefix,
          ni_IPv4Gateway = (case subnetInfo of Some info \<Rightarrow> si_Gateway info | None \<Rightarrow> []),
          ni_DNS = (case subnetInfo of Some info \<Rightarrow> si_DNS info | None \<Rightarrow> []),
          ni_DHCPReserved = (map_of macToSubnetID normalizedMAC \<noteq> None)\<rparr>)"

definition buildStatusInterfaces ::
    "NetworkConfiguration \<Rightarrow> (string \<times> string) list \<Rightarrow> (string \<times> int) list \<Rightarrow> string \<Rightarrow> SubnetInfo option \<Rightarrow>
     NCInterface list" where
  "buildStatusInterfaces nc macToIP macToSubnetID ipv4Prefix subnetInfo =
     map (statusIface macToIP macToSubnetID ipv4Prefix subnetInfo) (nc_Interfaces nc)"

definition buildSuccessMessage :: "int \<Rightarrow> int \<Rightarrow> string" where
  "buildSuccessMessage totalMACs resolvedIPs =
     (if resolvedIPs = totalMACs
      then ''All '' @ Itoa totalMACs @ '' MAC reservations configured with assigned IPs''
      else if resolvedIPs > 0
      then Itoa totalMACs @ '' MAC reservations configured ('' @ Itoa resolvedIPs @ '' with IPs, '' @
           Itoa (totalMACs - resolvedIPs) @ '' will get IPs on DHCP request)''
      else ''All '' @ Itoa totalMACs @ '' MAC reservations configured (IPs will be auto-allocated on DHCP request)'')"

definition maxConcurrentReconciles :: "string \<Rightarrow> int" where
  "maxConcurrentReconciles env =
     (let v = TrimSpace env in
      if v = [] then 5
      else (case Atoi v of
              None \<Rightarrow> 5
            | Some n \<Rightarrow> if n < 1 then 5 else n))"

section \<open>The network namespace\<close>

definition getNetworkNamespace :: "string \<Rightarrow> string \<Rightarrow> (NetworkNamespace \<times> bool) result cprog" where
  "getNetworkNamespace namespace networkNamespaceName =
     (if networkNamespaceName \<noteq> [] then
        CGetNN namespace networkNamespaceName (\<lambda>r. case r of
            Inl err \<Rightarrow> CRet (Inl (''failed to get NetworkNamespace '' @ networkNamespaceName @ '' in namespace '' @
              namespace @ '': '' @ err))
          | Inr nn \<Rightarrow> CRet (Inr (nn, False)))
      else
        CListNN namespace (\<lambda>r. case r of
            Inl err \<Rightarrow> CRet (Inl err)
          | Inr [] \<Rightarrow> CRet (Inl (''no NetworkNamespace found in namespace '' @ namespace))
          | Inr (nn # _) \<Rightarrow> CRet (Inr (nn, True))))"

section \<open>Reservations\<close>

definition resolveSubnetInfo :: "int \<Rightarrow> string \<Rightarrow> (int \<times> SubnetInfo option) cprog" where
  "resolveSubnetInfo subnetID ipv4Prefix =
     bindC (kea (GetSubnetInfo subnetID)) (\<lambda>got.
       case got of
         Inr subnetInfo \<Rightarrow> CRet (subnetID, Some subnetInfo)
       | Inl err \<Rightarrow>
           let errLower = ToLower err in
           if Contains errLower ''no subnet with id'' \<or> Contains errLower ''not found'' then
             bindC (kea (GetSubnetID ipv4Prefix)) (\<lambda>re.
               case re of
                 Inl reErr \<Rightarrow> CRet (subnetID, None)
               | Inr reID \<Rightarrow>
                   if reID \<noteq> subnetID then
                     bindC (kea (GetSubnetInfo reID)) (\<lambda>again.
                       case again of
                         Inr info \<Rightarrow> CRet (reID, Some info)
                       | Inl err2 \<Rightarrow> CRet (reID, None))
                   else CRet (subnetID, None))
           else CRet (subnetID, None))"

definition ipInPrefix :: "IPNet option \<Rightarrow> string \<Rightarrow> string" where
  "ipInPrefix ipnet ip =
     (case ipnet of
        None \<Rightarrow> ip
      | Some n \<Rightarrow>
          if ip \<noteq> [] then
            (let p = ParseIP ip in if p = [] \<or> To4 p = [] \<or> \<not> IPNet_Contains n p then [] else ip)
          else ip)"

record macState =
  ms_IP :: "(string \<times> string) list"
  ms_SubnetID :: "(string \<times> int) list"
  ms_errs :: "string list"

text \<open>The body of the loop of \<open>processMACReservations\<close> for one MAC, and the loop.\<close>

definition processMAC :: "int \<Rightarrow> IPNet option \<Rightarrow> string \<Rightarrow> macState \<Rightarrow> macState cprog" where
  "processMAC subnetID ipnet mac s =
     bindC (kea (GetLeaseIPv4ForMAC mac)) (\<lambda>lease.
       let (leaseIP, leaseSubnetID) = result_or ([], 0) lease;
           sid = (if leaseSubnetID > 0 then leaseSubnetID else subnetID);
           ip = ipInPrefix ipnet leaseIP
       in bindC (kea (EnsureReservationForMACIP mac sid ip)) (\<lambda>res.
            case res of
              Inl err \<Rightarrow> CRet (s\<lparr>ms_errs := ms_errs s @ [mac @ '': '' @ err]\<rparr>)
            | Inr created \<Rightarrow>
                let s = s\<lparr>ms_SubnetID := alist_put mac sid (ms_SubnetID s)\<rparr>
                in CRet (if ip \<noteq> [] then s\<lparr>ms_IP := alist_put mac ip (ms_IP s)\<rparr> else s)))"

fun processMACs :: "int \<Rightarrow> IPNet option \<Rightarrow> string list \<Rightarrow> macState \<Rightarrow> macState cprog" where
  "processMACs subnetID ipnet [] s = CRet s"
| "processMACs subnetID ipnet (mac # macs) s =
     bindC (processMAC subnetID ipnet mac s) (processMACs subnetID ipnet macs)"

definition processMACReservations :: "string list \<Rightarrow> int \<Rightarrow> string \<Rightarrow> macState cprog" where
  "processMACReservations macs subnetID ipv4Prefix =
     (let ipnet = (case ParseCIDR (TrimSpace ipv4Prefix) of Inl _ \<Rightarrow> None | Inr n \<Rightarrow> Some n)
      in processMACs subnetID ipnet macs \<lparr>ms_IP = [], ms_SubnetID = [], ms_errs = []\<rparr>)"

section \<open>Deletion\<close>

fun deleteAll :: "int \<Rightarrow> string list \<Rightarrow> unit cprog" where
  "deleteAll subnetID [] = CRet ()"
| "deleteAll subnetID (mac # macs) =
     bindC (kea (DeleteReservationForMAC mac subnetID)) (\<lambda>_. deleteAll subnetID macs)"

definition cleanupReservations ::
    "(string list \<Rightarrow> string list) \<Rightarrow> NetworkConfiguration \<Rightarrow> go_error option cprog" where
  "cleanupReservations ord nc =
     bindC (getNetworkNamespace (nc_Namespace nc) (nc_NetworkNamespaceName nc)) (\<lambda>got.
       case got of
         Inl err \<Rightarrow> CRet (Some err)
       | Inr (nn, _) \<Rightarrow>
           bindC (kea (GetSubnetID (nn_IPv4Prefix nn))) (\<lambda>sub.
             case sub of
               Inl err \<Rightarrow> CRet (Some err)
             | Inr subnetID \<Rightarrow> bindC (deleteAll subnetID (extractMACs ord nc)) (\<lambda>_. CRet None)))"

definition handleDeletion ::
    "vitiLib \<Rightarrow> (string list \<Rightarrow> string list) \<Rightarrow> NetworkConfiguration \<Rightarrow> reconcileResult cprog" where
  "handleDeletion lib ord nc =
     bindC (cleanupReservations ord nc) (\<lambda>_.
       CFinalizer False nc finalizerName (\<lambda>e. case e of
           Some err \<Rightarrow> CRet (Requeue lib err)
         | None \<Rightarrow> CRet doneResult))"

section \<open>Reconcile\<close>

text \<open>A condition and then the status, errors ignored (\<open>_ = r.setCondition(...)\<close>).\<close>

definition report ::
    "vitiLib \<Rightarrow> NetworkConfiguration \<Rightarrow> string \<Rightarrow> string \<Rightarrow> string \<Rightarrow> string \<Rightarrow> string \<Rightarrow> string \<Rightarrow> NCInterface list \<Rightarrow>
     NetworkConfiguration cprog" where
  "report lib nc condStatus reason condMsg phase status message ifs =
     bindC (setCondition lib nc (conditions_New lib conditionTypeReady condStatus reason condMsg (nc_Generation nc)))
       (\<lambda>(nc, _). bindC (updateStatus nc phase status message ifs) (\<lambda>(nc, _). CRet nc))"

text \<open>From the call of \<open>resolveSubnetInfo\<close> to the end.\<close>

definition reconcileReservations ::
    "vitiLib \<Rightarrow> NetworkConfiguration \<Rightarrow> string list \<Rightarrow> int \<Rightarrow> string \<Rightarrow> reconcileResult cprog" where
  "reconcileReservations lib nc macs subnetID0 ipv4Prefix =
     bindC (resolveSubnetInfo subnetID0 ipv4Prefix) (\<lambda>(subnetID, subnetInfo).
     bindC (processMACReservations macs subnetID ipv4Prefix) (\<lambda>s.
       let statusInterfaces = buildStatusInterfaces nc (ms_IP s) (ms_SubnetID s) ipv4Prefix subnetInfo in
       if ms_errs s \<noteq> [] then
         bindC (report lib nc ''False'' ''Error'' (''reservation errors: '' @ Join (ms_errs s) ''; '')
                  ''Error'' ''Failed'' (Join (ms_errs s) ''; '') statusInterfaces)
           (\<lambda>_. CRet (retryAfter RequeueDelayError))
       else
         bindC (report lib nc ''True'' ''Configured'' ''configured'' ''Ready'' ''Success''
                  (buildSuccessMessage (int (length macs)) (int (length (ms_IP s)))) statusInterfaces)
           (\<lambda>_. CRet (retryAfter
              (if length (ms_IP s) < length macs then RequeueDelayError else RequeueDelaySuccess)))))"

definition requireClientClasses :: "viper \<Rightarrow> string list" where
  "requireClientClasses v =
     (let classes = GetString v KEA_REQUIRE_CLIENT_CLASSES in
      if classes = [] then []
      else filter (\<lambda>c. c \<noteq> []) (map TrimSpace (SplitByte (CHR '','') classes)))"

definition subnetCfg_of :: "viper \<Rightarrow> string \<Rightarrow> PoolConfig \<Rightarrow> SubnetConfig" where
  "subnetCfg_of v ipv4Prefix poolCfg =
     zero_SubnetConfig\<lparr>sc_Subnet := ipv4Prefix, sc_Gateway := pc_Gateway poolCfg,
       sc_PoolStart := pc_PoolStart poolCfg, sc_PoolEnd := pc_PoolEnd poolCfg,
       sc_RequireClientClasses := requireClientClasses v\<rparr>"

text \<open>From the reading of \<open>status.IPv4Prefix\<close> to the call of \<open>GetOrCreateSubnet\<close>.\<close>

definition reconcileSubnet ::
    "vitiLib \<Rightarrow> (string list \<Rightarrow> string list) \<Rightarrow> viper \<Rightarrow> NetworkConfiguration \<Rightarrow> NetworkNamespace \<Rightarrow> reconcileResult cprog" where
  "reconcileSubnet lib ord v nc nn =
     (let ipv4Prefix = nn_IPv4Prefix nn; macs = extractMACs ord nc in
      if ipv4Prefix = [] then
        bindC (updateStatus nc ''Error'' ''Failed''
                 (''NetworkNamespace '' @ nn_Name nn @ '' missing status.IPv4Prefix'') [])
          (\<lambda>_. CRet (retryAfter RequeueDelayError))
      else if macs = [] then
        bindC (updateStatus nc ''Ready'' ''Success'' ''No MAC addresses to configure'' []) (\<lambda>_. CRet doneResult)
      else (case CalculatePoolFromCIDR ipv4Prefix of
          Inl err \<Rightarrow>
            bindC (updateStatus nc ''Error'' ''Failed'' (''Invalid CIDR: '' @ err) [])
              (\<lambda>_. CRet (retryAfter RequeueDelayError))
        | Inr poolCfg \<Rightarrow>
            bindC (kea (GetOrCreateSubnet (subnetCfg_of v ipv4Prefix poolCfg))) (\<lambda>got.
              case got of
                Inl err \<Rightarrow>
                  bindC (report lib nc ''False'' ''Error'' (''subnet error: '' @ err)
                           ''Error'' ''Failed'' (''Subnet error: '' @ err) [])
                    (\<lambda>_. CRet (retryAfter RequeueDelayError))
              | Inr (subnetID, created) \<Rightarrow> reconcileReservations lib nc macs subnetID ipv4Prefix)))"

text \<open>From the finalizer to the reconciling status.\<close>

definition reconcileClaimed ::
    "vitiLib \<Rightarrow> (string list \<Rightarrow> string list) \<Rightarrow> viper \<Rightarrow> NetworkConfiguration \<Rightarrow> NetworkNamespace \<Rightarrow> reconcileResult cprog" where
  "reconcileClaimed lib ord v nc nn =
     (if \<not> finalizers_Has lib nc finalizerName then
        CFinalizer True nc finalizerName (\<lambda>e. case e of
            Some err \<Rightarrow> CRet (Requeue lib err)
          | None \<Rightarrow> CRet doneResult)
      else
        bindC (if (case getReadyCondition nc of
                     None \<Rightarrow> True
                   | Some ready \<Rightarrow> cd_ObservedGeneration ready \<noteq> nc_Generation nc)
               then report lib nc ''False'' ''Reconciling'' ''reconciling''
                      ''Reconciling'' ''InProgress'' ''Reconciliation in progress'' []
               else CRet nc)
          (\<lambda>nc. reconcileSubnet lib ord v nc nn))"

text \<open>The two blocks for values that are not set: refused in strict mode, otherwise a
  warning once per resource.\<close>

definition strictOrWarn ::
    "vitiLib \<Rightarrow> viper \<Rightarrow> NetworkConfiguration \<Rightarrow> bool \<Rightarrow> string \<Rightarrow> string \<Rightarrow> reconcileResult cprog \<Rightarrow> reconcileResult cprog" where
  "strictOrWarn lib v nc unset msg key cont =
     (if unset then
        (if GetBool v KEA_STRICT_DEFAULTS then
           bindC (report lib nc ''False'' ''Error'' msg ''Error'' ''Failed'' msg []) (\<lambda>_. CRet doneResult)
         else CWarned key (\<lambda>alreadyWarned. cont))
      else cont)"

definition providerMsg :: string where
  "providerMsg = ''spec.provider is not set and KEA_STRICT_DEFAULTS is enabled; refusing to default to '' @ [CHR 0x27] @ ''kea'' @ [CHR 0x27] @ ''. Set spec.provider to '' @ [CHR 0x27] @ ''kea'' @ [CHR 0x27] @ '' explicitly.''"

definition allocationMsg :: "NetworkNamespace \<Rightarrow> string" where
  "allocationMsg nn = ''NetworkNamespace '' @ nn_Name nn @ '' has no spec.ipAllocation and KEA_STRICT_DEFAULTS is enabled; refusing to default to DHCP. Set spec.ipAllocation.type to '' @ [CHR 0x27] @ ''dhcp'' @ [CHR 0x27] @ '' explicitly.''"

definition reconcileOurs ::
    "vitiLib \<Rightarrow> (string list \<Rightarrow> string list) \<Rightarrow> viper \<Rightarrow> string \<Rightarrow> NetworkConfiguration \<Rightarrow> NetworkNamespace \<Rightarrow> bool \<Rightarrow>
     reconcileResult cprog" where
  "reconcileOurs lib ord v reqNamespace nc nn fallbackUsed =
     (let rest =
        strictOrWarn lib v nc (\<not> IsProviderSet lib (nc_Provider nc)) providerMsg
          (''ncprov-'' @ nc_Namespace nc @ ''/'' @ nc_Name nc)
          (strictOrWarn lib v nc (nn_IPAllocation nn = None) (allocationMsg nn)
             (''ipalloc-'' @ nn_Namespace nn @ ''/'' @ nn_Name nn)
             (reconcileClaimed lib ord v nc nn))
      in if fallbackUsed then CWarned (''nnname-'' @ reqNamespace) (\<lambda>alreadyWarned. rest) else rest)"

definition Reconcile ::
    "vitiLib \<Rightarrow> (string list \<Rightarrow> string list) \<Rightarrow> viper \<Rightarrow> string \<Rightarrow> string \<Rightarrow> reconcileResult cprog" where
  "Reconcile lib ord v reqNamespace reqName =
     CGetNC reqNamespace reqName (\<lambda>got.
       case got of
         Inl NotFound \<Rightarrow> CRet doneResult
       | Inl (GetFailed err) \<Rightarrow> CRet (\<lparr>RequeueAfter = 0\<rparr>, Some err)
       | Inr nc \<Rightarrow>
           if IsProviderSet lib (nc_Provider nc) \<and> \<not> MatchesProvider lib (nc_Provider nc) (ProviderNameKea lib)
           then CRet doneResult
           else if nc_DeletionTimestamp nc \<noteq> None then handleDeletion lib ord nc
           else bindC (getNetworkNamespace reqNamespace (nc_NetworkNamespaceName nc)) (\<lambda>found.
             case found of
               Inl err \<Rightarrow> CRet doneResult
             | Inr (nn, fallbackUsed) \<Rightarrow>
                 (case nn_IPAllocation nn of
                    Some allocType \<Rightarrow>
                      if allocType \<noteq> IPAllocationTypeDHCP lib then CRet doneResult
                      else reconcileOurs lib ord v reqNamespace nc nn fallbackUsed
                  | None \<Rightarrow> reconcileOurs lib ord v reqNamespace nc nn fallbackUsed)))"

end
