(* ===== verification/ControllerFacts.thy ===== *)
theory ControllerFacts
  imports Controller "HOL-Library.Multiset"
begin

text \<open>
  What the reconciler does: which MACs it handles, what it records for them, which
  effects it performs and in which order, and how it reports.
\<close>

section \<open>MAC extraction\<close>

lemma collectMACs_set: "set (collectMACs nis uniq) = set uniq \<union> {s. \<exists>ni\<in>set nis. macOf ni = Some s}"
  by (induction nis uniq rule: collectMACs.induct) (auto split: option.splits)

lemma collectMACs_distinct: "distinct uniq \<Longrightarrow> distinct (collectMACs nis uniq)"
  by (induction nis uniq rule: collectMACs.induct) (auto split: option.splits)

text \<open>Iterating over a map visits every key once.\<close>

definition map_order :: "(string list \<Rightarrow> string list) \<Rightarrow> bool" where
  "map_order ord \<longleftrightarrow> (\<forall>xs. mset (ord xs) = mset xs)"

lemma extractMACs_set:
  assumes "map_order ord"
  shows "set (extractMACs ord nc) = {s. \<exists>ni\<in>set (nc_Interfaces nc). macOf ni = Some s}"
proof -
  have "set (ord xs) = set xs" for xs using assms mset_eq_setD unfolding map_order_def by blast
  then show ?thesis
    using collectMACs_set [of "nc_Interfaces nc" "[]"] by (auto simp: extractMACs_def Let_def)
qed

lemma extractMACs_distinct:
  assumes "map_order ord"
  shows "distinct (extractMACs ord nc)"
proof -
  have "distinct (ord xs) = distinct xs" for xs using assms mset_eq_imp_distinct_iff unfolding map_order_def by blast
  then show ?thesis
    using collectMACs_distinct [of "[]" "nc_Interfaces nc"] by (simp add: extractMACs_def Let_def)
qed

lemma not_space_sep [simp]: "\<not> is_space (CHR ''-'')" "\<not> is_space (CHR '':'')"
  by (simp_all add: is_space_def)

lemma ToLower_ReplaceByte [simp]:
  "ToLower (ReplaceByte (CHR ''-'') (CHR '':'') s) = ReplaceByte (CHR ''-'') (CHR '':'') (ToLower s)"
proof -
  have "lower_char (CHR ''-'') = CHR ''-''" "lower_char (CHR '':'') = CHR '':''" by code_simp+
  moreover have "c = CHR ''-''" if "lower_char c = CHR ''-''" for c
  proof (rule ccontr)
    assume "c \<noteq> CHR ''-''"
    then have n: "(65::nat) \<le> of_char c" "of_char c \<le> (90::nat)" "char_of (of_char c + 32 :: nat) = CHR ''-''"
      using that by (auto simp: lower_char_def Let_def split: if_splits)
    then have "(of_char (char_of (of_char c + 32 :: nat)) :: nat) = of_char (CHR ''-'')" by (simp only: n(3))
    then show False using n(1,2) by simp
  qed
  ultimately show ?thesis by (auto simp: ToLower_def ReplaceByte_def)
qed

text \<open>The two normalisations of the controller agree.\<close>

definition statusMAC :: "NCInterface \<Rightarrow> string" where
  "statusMAC ni = ToLower (TrimSpace (ReplaceByte (CHR ''-'') (CHR '':'') (ni_MacAddress ni)))"

lemma macOf_statusMAC:
  "macOf ni = (if ParseMAC_ok (statusMAC ni) then Some (statusMAC ni) else None)"
proof -
  have "statusMAC ni = ReplaceByte (CHR ''-'') (CHR '':'') (ToLower (TrimSpace (ni_MacAddress ni)))"
    by (simp add: statusMAC_def TrimSpace_ReplaceByte)
  moreover have "\<not> ParseMAC_ok []" by (simp add: ParseMAC_ok_def)
  ultimately show ?thesis by (auto simp: macOf_def Let_def ReplaceByte_def ToLower_def)
qed

lemma normMAC_macOf: "macOf ni = Some s \<Longrightarrow> normMAC s = s"
  by (auto simp: macOf_statusMAC statusMAC_def normMAC_def ToLower_TrimSpace split: if_splits)

lemma extractMACs_eq:
  assumes "map_order ord"
  shows "set (extractMACs ord nc) = {statusMAC ni | ni. ni \<in> set (nc_Interfaces nc) \<and> ParseMAC_ok (statusMAC ni)}"
  unfolding extractMACs_set [OF assms] macOf_statusMAC by auto

lemma extractMACs_valid:
  assumes "map_order ord" "s \<in> set (extractMACs ord nc)"
  shows "ParseMAC_ok s \<and> normMAC s = s \<and> s \<noteq> []"
proof -
  obtain ni where "s = statusMAC ni" "ParseMAC_ok (statusMAC ni)"
    using assms(2) unfolding extractMACs_eq [OF assms(1)] by blast
  then have "macOf ni = Some s" "ParseMAC_ok s" by (simp_all add: macOf_statusMAC)
  then show ?thesis using normMAC_macOf [of ni s] by (auto simp: ParseMAC_ok_def [of "[]"])
qed

text \<open>
  C27: the MACs a reconcile handles are, each once, the valid MAC addresses of the
  interfaces in lower case with colons; each is its own normal form for the Kea
  service; and the status code computes the same key for an interface, so it finds
  exactly the entries of interfaces with a valid MAC.
\<close>

theorem extractMACs_correct:
  assumes "map_order ord"
  shows "distinct (extractMACs ord nc) \<and>
    set (extractMACs ord nc) = {statusMAC ni | ni. ni \<in> set (nc_Interfaces nc) \<and> ParseMAC_ok (statusMAC ni)} \<and>
    (\<forall>s\<in>set (extractMACs ord nc). normMAC s = s \<and> s \<noteq> [])"
  using extractMACs_distinct [OF assms] extractMACs_eq [OF assms] extractMACs_valid [OF assms] by blast

definition demo_iface :: "string \<Rightarrow> string \<Rightarrow> NCInterface" where
  "demo_iface name mac = \<lparr>ni_Name = name, ni_MacAddress = mac, ni_Vlan = [], ni_IPv4Addresses = [],
     ni_IPv4Subnet = [], ni_IPv4Gateway = [], ni_DNS = [], ni_DHCPReserved = False\<rparr>"

definition demo_nc :: NetworkConfiguration where
  "demo_nc =
     \<lparr>nc_Name = ''vm1'', nc_Namespace = ''ns1'', nc_Generation = 1, nc_ResourceVersion = ''7'',
      nc_DeletionTimestamp = None, nc_Finalizers = [finalizerName], nc_Provider = ''kea'',
      nc_NetworkNamespaceName = ''nn1'',
      nc_Interfaces = [demo_iface ''eth0'' ''AA-BB-CC-DD-EE-FF'', demo_iface ''eth1'' ''not-a-mac'',
        demo_iface ''eth2'' '' aa:bb:cc:dd:ee:ff'', demo_iface ''eth3'' ''aa:bb:cc:dd:ee:01''],
      nc_Status = \<lparr>st_Phase = [], st_Status = [], st_Message = [], st_Created = None, st_Interfaces = [],
        st_Conditions = []\<rparr>\<rparr>"

theorem extractMACs_correct_witness:
  "distinct (extractMACs rev demo_nc) \<and> set (extractMACs rev demo_nc) = {''aa:bb:cc:dd:ee:ff'', ''aa:bb:cc:dd:ee:01''}"
proof -
  have "extractMACs rev demo_nc = [''aa:bb:cc:dd:ee:01'', ''aa:bb:cc:dd:ee:ff'']" by code_simp
  moreover have "map_order rev" by (simp add: map_order_def)
  note extractMACs_correct [OF this, of demo_nc, THEN conjunct1]
  ultimately show ?thesis by simp blast
qed

section \<open>Processing the MACs\<close>

definition ip_ok :: "IPNet option \<Rightarrow> string \<Rightarrow> bool" where
  "ip_ok ipnet ip \<longleftrightarrow>
     ip \<noteq> [] \<and> (case ipnet of None \<Rightarrow> True | Some n \<Rightarrow> To4 (ParseIP ip) \<noteq> [] \<and> IPNet_Contains n (ParseIP ip))"

lemma ipInPrefix_ok: "ipInPrefix ipnet ip \<noteq> [] \<Longrightarrow> ip_ok ipnet (ipInPrefix ipnet ip)"
  by (auto simp: ipInPrefix_def ip_ok_def Let_def split: option.splits if_splits)

text \<open>What one turn of the loop does to its state.\<close>

inductive mac_turn :: "IPNet option \<Rightarrow> string \<Rightarrow> macState \<Rightarrow> macState \<Rightarrow> bool" for ipnet mac s where
  turn_error: "mac_turn ipnet mac s (s\<lparr>ms_errs := ms_errs s @ [e]\<rparr>)"
| turn_reserved: "mac_turn ipnet mac s (s\<lparr>ms_SubnetID := alist_put mac sid (ms_SubnetID s)\<rparr>)"
| turn_address: "ip_ok ipnet ip \<Longrightarrow>
    mac_turn ipnet mac s (s\<lparr>ms_SubnetID := alist_put mac sid (ms_SubnetID s), ms_IP := alist_put mac ip (ms_IP s)\<rparr>)"

inductive_cases mac_turnE: "mac_turn ipnet mac s s'"

lemma processMAC_turn: "returnsC (mac_turn ipnet mac s) (processMAC subnetID ipnet mac s)"
  unfolding processMAC_def
  by (intro returnsC_bindI)
    (auto simp: Let_def split: prod.splits sum.splits intro!: returnsC_bindI mac_turn.intros intro: ipInPrefix_ok)

definition mac_inv :: "IPNet option \<Rightarrow> string list \<Rightarrow> macState \<Rightarrow> bool" where
  "mac_inv ipnet seen s \<longleftrightarrow>
     distinct (map fst (ms_SubnetID s)) \<and> distinct (map fst (ms_IP s)) \<and>
     fst ` set (ms_SubnetID s) \<subseteq> set seen \<and> fst ` set (ms_IP s) \<subseteq> fst ` set (ms_SubnetID s) \<and>
     (\<forall>e\<in>set (ms_IP s). ip_ok ipnet (snd e)) \<and>
     length (ms_errs s) + length (ms_SubnetID s) = length seen"

lemma mac_inv_step:
  assumes inv: "mac_inv ipnet seen s" and new: "mac \<notin> set seen"
  shows "returnsC (mac_inv ipnet (seen @ [mac])) (processMAC subnetID ipnet mac s)"
proof -
  have k: "mac \<notin> fst ` set (ms_SubnetID s)" "mac \<notin> fst ` set (ms_IP s)"
    using inv new unfolding mac_inv_def by blast+
  note put = alist_put_new [OF k(1)] alist_put_new [OF k(2)]
  have "mac_inv ipnet (seen @ [mac]) s'" if "mac_turn ipnet mac s s'" for s'
    using that inv k by (elim mac_turnE) (auto simp: mac_inv_def put)
  then show ?thesis using processMAC_turn [of ipnet mac s subnetID] returnsC_mono by blast
qed

lemma mac_inv_loop:
  "mac_inv ipnet seen s \<Longrightarrow> distinct (seen @ macs) \<Longrightarrow>
   returnsC (mac_inv ipnet (seen @ macs)) (processMACs subnetID ipnet macs s)"
proof (induction macs arbitrary: seen s)
  case (Cons mac macs)
  have "returnsC (mac_inv ipnet (seen @ [mac])) (processMAC subnetID ipnet mac s)"
    using Cons.prems by (intro mac_inv_step) auto
  then show ?case
    using Cons.IH [of "seen @ [mac]"] Cons.prems(2)
    by (auto intro!: returnsC_bindC [where Q = "mac_inv ipnet (seen @ [mac])"])
qed simp

lemma mac_inv_run:
  assumes macs: "distinct macs"
    and run: "runC W (processMACReservations macs subnetID ipv4Prefix) w = (s, w')"
  shows "mac_inv (case ParseCIDR (TrimSpace ipv4Prefix) of Inl _ \<Rightarrow> None | Inr n \<Rightarrow> Some n) macs s"
    (is "mac_inv ?n macs s")
proof -
  have "mac_inv ?n [] \<lparr>ms_IP = [], ms_SubnetID = [], ms_errs = []\<rparr>" by (simp add: mac_inv_def)
  then have "returnsC (mac_inv ?n macs) (processMACReservations macs subnetID ipv4Prefix)"
    using mac_inv_loop [of ?n "[]" _ macs subnetID] macs
    by (simp add: processMACReservations_def)
  then show ?thesis using returnsC_run [of _ _ W w] run by (metis fst_conv)
qed

text \<open>
  C28: after the MACs have been processed, every one of them is either recorded as
  reserved or has exactly one error message; an address is recorded only for a
  reserved MAC, and it is a non-empty IPv4 address inside the namespace's prefix.
\<close>

theorem processMACReservations_correct:
  assumes macs: "distinct macs" and pfx: "ParseCIDR (TrimSpace ipv4Prefix) = Inr n"
    and run: "runC W (processMACReservations macs subnetID ipv4Prefix) w = (s, w')"
  shows "distinct (map fst (ms_SubnetID s)) \<and> fst ` set (ms_SubnetID s) \<subseteq> set macs \<and>
    length (ms_errs s) + length (ms_SubnetID s) = length macs \<and>
    fst ` set (ms_IP s) \<subseteq> fst ` set (ms_SubnetID s) \<and> length (ms_IP s) \<le> length (ms_SubnetID s) \<and>
    (\<forall>e\<in>set (ms_IP s). snd e \<noteq> [] \<and> To4 (ParseIP (snd e)) \<noteq> [] \<and> IPNet_Contains n (ParseIP (snd e)))"
proof -
  have inv: "mac_inv (Some n) macs s" using mac_inv_run [OF macs run] by (simp add: pfx)
  have "length (ms_IP s) = card (fst ` set (ms_IP s))" "length (ms_SubnetID s) = card (fst ` set (ms_SubnetID s))"
    using inv unfolding mac_inv_def by (metis distinct_card length_map set_map)+
  moreover have "card (fst ` set (ms_IP s)) \<le> card (fst ` set (ms_SubnetID s))"
    using inv unfolding mac_inv_def by (intro card_mono) auto
  ultimately show ?thesis using inv by (auto simp: mac_inv_def ip_ok_def)
qed

section \<open>A concrete world\<close>

text \<open>A Kea server with subnets, reservations and leases, and a Kubernetes API with one
  network configuration, that accepts every command: for the witnesses.\<close>

record demoWorld =
  dw_subnets :: "(string \<times> int) list"
  dw_hosts :: "host list"
  dw_leases :: "host list"
  dw_nc :: NetworkConfiguration
  dw_nn :: NetworkNamespace

definition demo_kea :: "demoWorld sender" where
  "demo_kea r w =
     (if Command r = ''subnet4-list'' \<or> Command r = ''subnet4-add'' then
        (case sk_send r \<lparr>sk_subnets = dw_subnets w, sk_addCalls = 0\<rparr> of (x, f) \<Rightarrow> (x, w\<lparr>dw_subnets := sk_subnets f\<rparr>))
      else if Command r = ''lease4-get-by-hw-address'' then
        (Inr \<lparr>Result = 0, Text = [], Arguments = [(''leases'', GoSlice (map host_json
           (filter (\<lambda>h. fst h = str_of (idx (Args r) keaFieldHWAddress)) (dw_leases w))))]\<rparr>, w)
      else (case hk_send r (dw_hosts w) of (x, hs) \<Rightarrow> (x, w\<lparr>dw_hosts := hs\<rparr>)))"

definition demo_ops :: "demoWorld worldOps" where
  "demo_ops =
     \<lparr>w_kea = demo_kea,
      w_getNC = (\<lambda>ns n w. (if n = nc_Name (dw_nc w) then Inr (dw_nc w) else Inl NotFound, w)),
      w_getNN = (\<lambda>ns n w. (if n = nn_Name (dw_nn w) then Inr (dw_nn w) else Inl ''not found'', w)),
      w_listNN = (\<lambda>ns w. (Inr [dw_nn w], w)),
      w_patch = (\<lambda>u b w. (Inr u, w\<lparr>dw_nc := u\<rparr>)),
      w_finalizer = (\<lambda>add nc n w. (None, w\<lparr>dw_nc := nc\<lparr>nc_Finalizers := (if add then nc_Finalizers nc @ [n]
        else removeAll n (nc_Finalizers nc))\<rparr>\<rparr>)),
      w_now = (\<lambda>w. (1000, w)),
      w_warned = (\<lambda>s w. (False, w))\<rparr>"

definition demo_lib :: vitiLib where
  "demo_lib =
     \<lparr>IsProviderSet = (\<lambda>p. p \<noteq> []), MatchesProvider = EqualFold, ProviderNameKea = ''kea'',
      IPAllocationTypeDHCP = ''dhcp'',
      conditions_New = (\<lambda>t s r m g. \<lparr>cd_Type = t, cd_Status = s, cd_Reason = r, cd_Message = m, cd_ObservedGeneration = g\<rparr>),
      SetOrUpdateCondition = (\<lambda>cs c. c # filter (\<lambda>d. cd_Type d \<noteq> cd_Type c) cs),
      finalizers_Has = (\<lambda>nc n. n \<in> set (nc_Finalizers nc)),
      Requeue = (\<lambda>e. (\<lparr>RequeueAfter = 0\<rparr>, Some e))\<rparr>"

definition demo_nn :: NetworkNamespace where
  "demo_nn = \<lparr>nn_Name = ''nn1'', nn_Namespace = ''ns1'', nn_IPAllocation = Some ''dhcp'', nn_IPv4Prefix = ''10.0.0.0/24''\<rparr>"

definition demo_world :: demoWorld where
  "demo_world = \<lparr>dw_subnets = [(''10.0.0.0/24'', 7)], dw_hosts = [],
     dw_leases = [(''aa:bb:cc:dd:ee:ff'', 7, ''10.0.0.9''), (''aa:bb:cc:dd:ee:01'', 9, ''10.9.0.3'')],
     dw_nc = demo_nc, dw_nn = demo_nn\<rparr>"

abbreviation "demo_macs \<equiv> [''aa:bb:cc:dd:ee:ff'', ''aa:bb:cc:dd:ee:01'']"

definition demo_state :: macState where
  "demo_state = fst (runC demo_ops (processMACReservations demo_macs 7 ''10.0.0.0/24'') demo_world)"

lemma demo_state_value:
  "(ms_IP demo_state, ms_SubnetID demo_state) =
     ([(''aa:bb:cc:dd:ee:ff'', ''10.0.0.9'')], [(''aa:bb:cc:dd:ee:ff'', 7), (''aa:bb:cc:dd:ee:01'', 9)])"
  by code_simp

lemma demo_net: "ParseCIDR (TrimSpace ''10.0.0.0/24'') = Inr \<lparr>net_IP = [10, 0, 0, 0], net_Mask = [255, 255, 255, 0]\<rparr>"
  by code_simp

lemma demo_run_state:
  "runC demo_ops (processMACReservations demo_macs 7 ''10.0.0.0/24'') demo_world =
     (demo_state, snd (runC demo_ops (processMACReservations demo_macs 7 ''10.0.0.0/24'') demo_world))"
  by (simp add: demo_state_def)

theorem processMACReservations_correct_witness:
  "length (ms_errs demo_state) + length (ms_SubnetID demo_state) = 2 \<and>
   ms_IP demo_state = [(''aa:bb:cc:dd:ee:ff'', ''10.0.0.9'')]"
proof -
  have "distinct demo_macs" by code_simp
  from processMACReservations_correct [OF this demo_net demo_run_state]
  show ?thesis using demo_state_value by simp
qed

section \<open>Status of the interfaces\<close>



section \<open>Which effects a reconcile performs\<close>

definition is_read :: "effect \<Rightarrow> bool" where
  "is_read e \<longleftrightarrow> (case e of EGetNC _ _ \<Rightarrow> True | EGetNN _ _ \<Rightarrow> True | EListNN _ \<Rightarrow> True | _ \<Rightarrow> False)"

lemma getNetworkNamespace_reads: "effects_only is_read (getNetworkNamespace ns name)"
  by (auto simp: getNetworkNamespace_def is_read_def split: sum.splits list.splits)

text \<open>
  C30: a resource that belongs to another operator is left alone: if its provider is
  set to something else, or if its network namespace has an allocation type other than
  DHCP, or cannot be read, the reconcile only reads from the Kubernetes API, and ends
  without error and without asking to be run again.
\<close>

theorem Reconcile_triage:
  assumes nc: "w_getNC W ns name w = (Inr nc, w1)"
    and nn: "runC W (getNetworkNamespace ns (nc_NetworkNamespaceName nc)) w1 = (found, w2)"
    and other: "IsProviderSet lib (nc_Provider nc) \<and> \<not> MatchesProvider lib (nc_Provider nc) (ProviderNameKea lib) \<or>
      nc_DeletionTimestamp nc = None \<and>
        (case found of Inl _ \<Rightarrow> True
         | Inr (nn, _) \<Rightarrow> nn_IPAllocation nn \<noteq> None \<and> nn_IPAllocation nn \<noteq> Some (IPAllocationTypeDHCP lib))"
  shows "(\<forall>e\<in>set (trace W (Reconcile lib ord v ns name) w). is_read e) \<and>
    fst (runC W (Reconcile lib ord v ns name) w) = (\<lparr>RequeueAfter = 0\<rparr>, None)"
proof (cases "IsProviderSet lib (nc_Provider nc) \<and> \<not> MatchesProvider lib (nc_Provider nc) (ProviderNameKea lib)")
  case True
  then show ?thesis using nc by (simp add: Reconcile_def is_read_def doneResult_def)
next
  case False
  have r: "is_read e" if "e \<in> set (trace W (getNetworkNamespace ns (nc_NetworkNamespaceName nc)) w1)" for e
    using effects_only_trace [OF getNetworkNamespace_reads that] .
  have d: "nc_DeletionTimestamp nc = None" using False other by blast
  have g: "is_read (EGetNC ns name)" by (simp add: is_read_def)
  have "trace W (Reconcile lib ord v ns name) w =
      EGetNC ns name # trace W (getNetworkNamespace ns (nc_NetworkNamespaceName nc)) w1 \<and>
    fst (runC W (Reconcile lib ord v ns name) w) = (\<lparr>RequeueAfter = 0\<rparr>, None)"
    using False other nc nn d
    by (cases found) (auto simp: Reconcile_def doneResult_def split: option.splits)
  then show ?thesis using r g by auto
qed

abbreviation foreign_world :: demoWorld where
  "foreign_world \<equiv> demo_world\<lparr>dw_nn := demo_nn\<lparr>nn_IPAllocation := Some ''static''\<rparr>\<rparr>"

theorem Reconcile_triage_witness:
  "fst (runC demo_ops (Reconcile demo_lib rev demo_viper ''ns1'' ''vm1'') foreign_world) = (\<lparr>RequeueAfter = 0\<rparr>, None)"
proof -
  have nc: "w_getNC demo_ops ''ns1'' ''vm1'' foreign_world = (Inr demo_nc, foreign_world)"
    by (simp add: demo_ops_def demo_world_def demo_nc_def)
  have nn: "runC demo_ops (getNetworkNamespace ''ns1'' (nc_NetworkNamespaceName demo_nc)) foreign_world =
      (Inr (demo_nn\<lparr>nn_IPAllocation := Some ''static''\<rparr>, False), foreign_world)"
    by (simp add: demo_ops_def demo_world_def demo_nc_def demo_nn_def getNetworkNamespace_def)
  show ?thesis
    using Reconcile_triage [OF nc nn, of demo_lib rev demo_viper]
    by (simp add: demo_nc_def demo_lib_def)
qed

text \<open>The requests that change Kea's state.\<close>

definition is_write :: "Request \<Rightarrow> bool" where
  "is_write r \<longleftrightarrow> Command r \<in> {''subnet4-add'', ''reservation-add'', ''reservation-del''}"

text \<open>Every request to Kea satisfies \<open>P\<close>; other effects are free.\<close>

definition kea_only :: "(Request \<Rightarrow> bool) \<Rightarrow> effect \<Rightarrow> bool" where
  "kea_only P e \<longleftrightarrow> (\<forall>r. e = EKea r \<longrightarrow> P r)"

lemma kea_only_simps [simp]:
  "kea_only P (EMutex b c)" "kea_only P (EGetNC ns n)" "kea_only P (EGetNN ns n)" "kea_only P (EListNN ns)"
  "kea_only P (EPatch u p)" "kea_only P (EFinalizer b nc n)" "kea_only P ENow" "kea_only P (EWarned k)"
  "kea_only P (EKea r) \<longleftrightarrow> P r"
  by (simp_all add: kea_only_def)

lemma kea_calls: "calls_only P p \<Longrightarrow> effects_only (kea_only P) (kea p)"
  by (rule effects_only_kea) auto

lemma kea_reads: "calls_only read_cmd p \<Longrightarrow> (\<And>r. read_cmd r \<Longrightarrow> P r) \<Longrightarrow> effects_only (kea_only P) (kea p)"
  by (rule kea_calls) (erule calls_only_mono)

named_theorems kea_effects \<open>which requests to Kea a controller operation can send\<close>

lemma getNetworkNamespace_kea [kea_effects]: "effects_only (kea_only P) (getNetworkNamespace ns name)"
  by (auto simp: getNetworkNamespace_def split: sum.splits list.splits)

lemma setCondition_kea [kea_effects]: "effects_only (kea_only P) (setCondition lib nc cond)"
  by (auto simp: setCondition_def Let_def split: option.splits sum.splits)

lemma updateStatus_kea [kea_effects]: "effects_only (kea_only P) (updateStatus nc p st m ifs)"
  by (auto simp: updateStatus_def patchStatus_def split: prod.splits sum.splits)

lemma report_kea [kea_effects]: "effects_only (kea_only P) (report lib nc cs r cm p st m ifs)"
  unfolding report_def
  by (auto intro!: effects_only_bindI kea_effects split: prod.splits)

lemma strictOrWarn_kea:
  "effects_only (kea_only P) cont \<Longrightarrow> effects_only (kea_only P) (strictOrWarn lib v nc unset msg key cont)"
  by (auto simp: strictOrWarn_def intro!: effects_only_bindI kea_effects)

lemma reconcileOurs_kea:
  "effects_only (kea_only P) (reconcileClaimed lib ord v nc nn) \<Longrightarrow>
   effects_only (kea_only P) (reconcileOurs lib ord v ns nc nn fb)"
  by (auto simp: reconcileOurs_def Let_def intro!: strictOrWarn_kea)

lemma reconcileClaimed_no_finalizer:
  "\<not> finalizers_Has lib nc finalizerName \<Longrightarrow> effects_only (kea_only P) (reconcileClaimed lib ord v nc nn)"
  by (auto simp: reconcileClaimed_def split: option.splits)

text \<open>What the Kea service promises about its requests, and what then holds of the requests
  of a reconcile. A lookup is made on both paths of a reconcile; the other operations
  belong to a claimed resource or to a deletion.\<close>

locale lookup_requests =
  fixes ok :: "Request \<Rightarrow> bool"
  assumes GetSubnetID_ok: "calls_only ok (GetSubnetID pfx)"

locale claim_requests = lookup_requests +
  assumes GetSubnetInfo_ok: "calls_only ok (GetSubnetInfo i)"
    and GetLease_ok: "calls_only ok (GetLeaseIPv4ForMAC mac)"
    and EnsureReservation_ok: "calls_only ok (EnsureReservationForMACIP mac i ip)"
    and GetOrCreate_ok: "calls_only ok (GetOrCreateSubnet (subnetCfg_of v pfx pool))"
begin

lemma resolveSubnetInfo_ok: "effects_only (kea_only ok) (resolveSubnetInfo i p)"
  unfolding resolveSubnetInfo_def
  by (auto simp: Let_def intro!: effects_only_bindI kea_calls GetSubnetInfo_ok GetSubnetID_ok split: sum.splits)

lemma processMAC_ok: "effects_only (kea_only ok) (processMAC i n mac s)"
  unfolding processMAC_def
  by (auto simp: Let_def intro!: effects_only_bindI kea_calls GetLease_ok EnsureReservation_ok split: prod.splits sum.splits)

lemma processMACs_ok: "effects_only (kea_only ok) (processMACs i n macs s)"
  by (induction macs arbitrary: s) (auto intro!: effects_only_bindI processMAC_ok)

lemma reconcileReservations_ok: "effects_only (kea_only ok) (reconcileReservations lib nc macs i p)"
  unfolding reconcileReservations_def
  by (auto simp: Let_def processMACReservations_def
    intro!: effects_only_bindI kea_effects resolveSubnetInfo_ok processMACs_ok split: prod.splits)

lemma reconcileSubnet_ok: "effects_only (kea_only ok) (reconcileSubnet lib ord v nc nn)"
  unfolding reconcileSubnet_def
  by (auto simp: Let_def intro!: effects_only_bindI kea_effects kea_calls GetOrCreate_ok reconcileReservations_ok
    split: sum.splits prod.splits)

lemma reconcileClaimed_ok: "effects_only (kea_only ok) (reconcileClaimed lib ord v nc nn)"
  unfolding reconcileClaimed_def
  by (auto intro!: effects_only_bindI kea_effects reconcileSubnet_ok split: option.splits)

lemma reconcileOurs_ok: "effects_only (kea_only ok) (reconcileOurs lib ord v ns nc nn fb)"
  by (rule reconcileOurs_kea [OF reconcileClaimed_ok])

end

locale deletion_requests = lookup_requests +
  assumes DeleteReservation_ok: "calls_only ok (DeleteReservationForMAC mac i)"
begin

lemma deleteAll_ok: "effects_only (kea_only ok) (deleteAll i macs)"
  by (induction macs) (auto intro!: effects_only_bindI kea_calls DeleteReservation_ok)

lemma handleDeletion_ok: "effects_only (kea_only ok) (handleDeletion lib ord nc)"
proof -
  have "effects_only (kea_only ok) (cleanupReservations ord nc)"
    unfolding cleanupReservations_def
    by (auto intro!: effects_only_bindI kea_effects kea_calls GetSubnetID_ok deleteAll_ok split: sum.splits prod.splits)
  then show ?thesis
    unfolding handleDeletion_def by (auto intro!: effects_only_bindI split: option.splits)
qed

end

locale reconcile_requests = claim_requests + deletion_requests
begin

lemma Reconcile_ok: "effects_only (kea_only ok) (Reconcile lib ord v ns name)"
  unfolding Reconcile_def
  by (auto intro!: effects_only_bindI kea_effects handleDeletion_ok reconcileOurs_ok
    split: sum.splits getError.splits option.splits prod.splits)

end

text \<open>The requests of a reconcile that is not a deletion: reads, and additions.\<close>

definition adds :: "Request \<Rightarrow> bool" where
  "adds r \<longleftrightarrow> read_cmd r \<or> Command r = ''subnet4-add'' \<or> (\<exists>mac i ip. r = reservation_add mac i ip)"

interpretation adds: claim_requests adds
proof
  show "calls_only adds (GetSubnetID p)" "calls_only adds (GetSubnetInfo i)" "calls_only adds (GetLeaseIPv4ForMAC mac)"
    for p i mac
    by (intro calls_only_mono [OF GetSubnetID_reads] calls_only_mono [OF GetSubnetInfo_reads]
      calls_only_mono [OF GetLeaseIPv4ForMAC_reads]; simp add: adds_def)+
  show "calls_only adds (EnsureReservationForMACIP mac i ip)" for mac i ip
    by (rule calls_only_mono [OF EnsureReservationForMACIP_calls]) (auto simp: adds_def)
  show "calls_only adds (GetOrCreateSubnet (subnetCfg_of v p pool))" for v p pool
    by (rule calls_only_mono [OF GetOrCreateSubnet_calls]) (auto simp: adds_def)
qed

text \<open>The requests of a deletion.\<close>

definition deletes :: "Request \<Rightarrow> bool" where
  "deletes r \<longleftrightarrow> read_cmd r \<or> Command r = ''reservation-del''"

lemma DeleteReservation_request:
  "normMAC mac = mac \<Longrightarrow> calls_only (\<lambda>r. r = reservation_del mac i) (DeleteReservationForMAC mac i)"
  by (auto simp: DeleteReservationForMAC_def reservation_del_def Let_def)

text \<open>A deletion deletes only reservations of the resource's own MACs.\<close>

lemma handleDeletion_dels:
  assumes "map_order ord"
  shows "effects_only (kea_only (\<lambda>r. read_cmd r \<or> (\<exists>m\<in>set (extractMACs ord nc). \<exists>i. r = reservation_del m i)))
    (handleDeletion lib ord nc)"
proof -
  let ?P = "\<lambda>macs r. read_cmd r \<or> (\<exists>m\<in>set macs. \<exists>i. r = reservation_del m i)"
  have d: "effects_only (kea_only (?P macs)) (deleteAll i ms)" if "set ms \<subseteq> set macs" "\<forall>m\<in>set ms. normMAC m = m" for i macs ms
    using that
  proof (induction ms)
    case (Cons m ms)
    have "calls_only (?P macs) (DeleteReservationForMAC m i)"
      by (rule calls_only_mono [OF DeleteReservation_request]) (use Cons.prems in auto)
    then show ?case using Cons by (auto intro!: effects_only_bindI kea_calls)
  qed simp
  have "\<forall>m\<in>set (extractMACs ord nc). normMAC m = m" using extractMACs_valid [OF assms] by blast
  then have "effects_only (kea_only (?P (extractMACs ord nc))) (cleanupReservations ord nc)"
    unfolding cleanupReservations_def
    by (auto intro!: effects_only_bindI kea_effects kea_reads GetSubnetID_reads d split: sum.splits prod.splits)
  then show ?thesis
    unfolding handleDeletion_def by (auto intro!: effects_only_bindI split: option.splits)
qed

interpretation deletes: deletion_requests deletes
proof
  show "calls_only deletes (GetSubnetID p)" for p
    by (rule calls_only_mono [OF GetSubnetID_reads]) (simp add: deletes_def)
  show "calls_only deletes (DeleteReservationForMAC mac i)" for mac i
    by (rule calls_only_mono [OF DeleteReservationForMAC_calls]) (simp add: deletes_def)
qed


definition deleted_world :: demoWorld where
  "deleted_world = demo_world\<lparr>dw_nc := demo_nc\<lparr>nc_DeletionTimestamp := Some 5\<rparr>\<rparr>"


section \<open>Deletion\<close>

lemma deleteAll_trace:
  "\<forall>m\<in>set macs. normMAC m = m \<and> m \<noteq> [] \<Longrightarrow>
   trace W (deleteAll i macs) w = map (\<lambda>m. EKea (reservation_del m i)) macs"
  by (induction macs arbitrary: w)
    (auto simp: DeleteReservationForMAC_def reservation_del_def Let_def split: prod.splits)



section \<open>Requeueing\<close>

text \<open>
  How long until the next reconcile after the MACs were processed: thirty seconds
  if a reservation failed or some MAC has no address yet, five minutes otherwise; never
  an error, whatever the status patches return.
\<close>

theorem reconcileReservations_requeue:
  assumes info: "runC W (resolveSubnetInfo subnetID ipv4Prefix) w = ((sid, info), w1)"
    and macs: "runC W (processMACReservations macs sid ipv4Prefix) w1 = (s, w2)"
  shows "fst (runC W (reconcileReservations lib nc macs subnetID ipv4Prefix) w) =
    (\<lparr>RequeueAfter = (if ms_errs s \<noteq> [] \<or> length (ms_IP s) < length macs then 30000000000 else 300000000000)\<rparr>, None)"
  using assms
  by (auto simp: reconcileReservations_def Let_def retryAfter_def RequeueDelayError_def RequeueDelaySuccess_def
    split: prod.splits)

theorem reconcileReservations_requeue_witness:
  "fst (runC demo_ops (reconcileReservations demo_lib demo_nc [] 7 ''10.0.0.0/24'') demo_world) =
    (\<lparr>RequeueAfter = 300000000000\<rparr>, None)"
proof -
  obtain sid info w1 where i: "runC demo_ops (resolveSubnetInfo 7 ''10.0.0.0/24'') demo_world = ((sid, info), w1)"
    by (metis prod.exhaust)
  have m: "runC demo_ops (processMACReservations [] sid ''10.0.0.0/24'') w1 =
      (\<lparr>ms_IP = [], ms_SubnetID = [], ms_errs = []\<rparr>, w1)"
    by (simp add: processMACReservations_def)
  show ?thesis using reconcileReservations_requeue [OF i m, of demo_lib demo_nc] by simp
qed

end
