(* ===== verification/ControllerStatusFacts.thy ===== *)
theory ControllerStatusFacts
  imports ControllerFacts
begin

text \<open>
  Reporting and configuration of the reconciler: status updates and conditions are
  idempotent and patch nothing when nothing changed, a stale subnet id is replaced by
  the one Kea lists, and the number of workers is always positive.
\<close>

section \<open>Status updates\<close>

definition status_ok :: "string \<Rightarrow> string \<Rightarrow> string \<Rightarrow> NCInterface list \<Rightarrow> ncStatus \<Rightarrow> bool" where
  "status_ok phase status message ifs st \<longleftrightarrow>
     (phase \<noteq> [] \<longrightarrow> st_Phase st = phase) \<and> (status \<noteq> [] \<longrightarrow> st_Status st = status) \<and>
     (message \<noteq> [] \<longrightarrow> st_Message st = message) \<and> (ifs \<noteq> [] \<longrightarrow> st_Interfaces st = ifs) \<and> st_Created st \<noteq> None"

lemma setFields_facts:
  assumes "setFields p s m st = (st', changed)"
  shows "(p \<noteq> [] \<longrightarrow> st_Phase st' = p) \<and> (s \<noteq> [] \<longrightarrow> st_Status st' = s) \<and> (m \<noteq> [] \<longrightarrow> st_Message st' = m) \<and>
    st_Created st' = st_Created st \<and> st_Interfaces st' = st_Interfaces st \<and> st_Conditions st' = st_Conditions st \<and>
    (\<not> changed \<longrightarrow> st' = st)"
  using assms by (auto simp: setFields_def Let_def split: if_splits)

lemma setInterfaces_facts:
  assumes "setInterfaces ifs (st, c) = (st', changed)"
  shows "(ifs \<noteq> [] \<longrightarrow> st_Interfaces st' = ifs) \<and> st_Phase st' = st_Phase st \<and> st_Status st' = st_Status st \<and>
    st_Message st' = st_Message st \<and> st_Created st' = st_Created st \<and> st_Conditions st' = st_Conditions st \<and>
    (\<not> changed \<longrightarrow> st' = st \<and> \<not> c)"
  using assms by (auto simp: setInterfaces_def split: if_splits)

lemma updateStatus_noop:
  assumes "status_ok p s m ifs (nc_Status nc)"
  shows "updateStatus nc p s m ifs = CRet (nc, None)"
proof -
  have "setFields p s m (nc_Status nc) = (nc_Status nc, False)"
    using assms by (auto simp: status_ok_def setFields_def Let_def)
  then show ?thesis
    using assms by (auto simp: updateStatus_def patchStatus_def setInterfaces_def status_ok_def)
qed

text \<open>An API server that stores the status it is sent and returns it.\<close>

definition patch_echoes :: "'w worldOps \<Rightarrow> bool" where
  "patch_echoes W \<longleftrightarrow> (\<forall>u b w r w'. w_patch W u b w = (Inr r, w') \<longrightarrow> nc_Status r = nc_Status u)"

lemma patch_echoesD: "patch_echoes W \<Longrightarrow> w_patch W u b w = (Inr r, w') \<Longrightarrow> nc_Status r = nc_Status u"
  unfolding patch_echoes_def by blast

lemma patchStatus_result:
  assumes "patch_echoes W" "runC W (patchStatus nc (st, changed)) w = ((nc', None), w')"
    and "\<not> changed \<Longrightarrow> st = nc_Status nc"
  shows "nc_Status nc' = st"
  using assms
  by (auto simp: patchStatus_def dest: patch_echoesD split: if_splits prod.splits sum.splits)

text \<open>
  C34: after a successful status update the status has the phase, status, message and
  interfaces that were asked for and a creation time, and its conditions are as
  before; and updating it again with the same values performs no effect at all.
\<close>

theorem updateStatus_idempotent:
  assumes echo: "patch_echoes W" and run: "runC W (updateStatus nc p s m ifs) w = ((nc', None), w')"
  shows "status_ok p s m ifs (nc_Status nc') \<and>
    st_Conditions (nc_Status nc') = st_Conditions (nc_Status nc) \<and>
    updateStatus nc' p s m ifs = CRet (nc', None)"
proof -
  obtain st1 c1 where f: "setFields p s m (nc_Status nc) = (st1, c1)" by fastforce
  note F = setFields_facts [OF f]
  have "\<exists>st2 c2 c0 st0. setInterfaces ifs (st0, c0) = (st2, c2) \<and> nc_Status nc' = st2 \<and> st_Created st0 \<noteq> None \<and>
      st_Phase st0 = st_Phase st1 \<and> st_Status st0 = st_Status st1 \<and> st_Message st0 = st_Message st1 \<and>
      st_Conditions st0 = st_Conditions st1"
  proof (cases "st_Created st1")
    case None
    obtain t u where t: "w_now W w = (t, u)" by fastforce
    let ?st0 = "st1\<lparr>st_Created := Some t\<rparr>"
    obtain st2 c2 where i: "setInterfaces ifs (?st0, True) = (st2, c2)" by fastforce
    have c2: "c2" using setInterfaces_facts [OF i] by blast
    have "runC W (patchStatus nc (st2, c2)) u = ((nc', None), w')"
      using run f None t i by (simp add: updateStatus_def)
    then have "nc_Status nc' = st2" using patchStatus_result [OF echo] c2 by blast
    then show ?thesis using i by fastforce
  next
    case (Some t)
    obtain st2 c2 where i: "setInterfaces ifs (st1, c1) = (st2, c2)" by fastforce
    have "runC W (patchStatus nc (st2, c2)) w = ((nc', None), w')"
      using run f Some i by (simp add: updateStatus_def)
    moreover have "\<not> c2 \<Longrightarrow> st2 = nc_Status nc" using setInterfaces_facts [OF i] F by blast
    ultimately have "nc_Status nc' = st2" using patchStatus_result [OF echo] by blast
    then show ?thesis using i Some
      by - (rule exI [of _ st2], rule exI [of _ c2], rule exI [of _ c1], rule exI [of _ st1], auto)
  qed
  then obtain st2 c2 c0 st0 where i: "setInterfaces ifs (st0, c0) = (st2, c2)" "nc_Status nc' = st2"
    "st_Created st0 \<noteq> None" "st_Phase st0 = st_Phase st1" "st_Status st0 = st_Status st1"
    "st_Message st0 = st_Message st1" "st_Conditions st0 = st_Conditions st1" by blast
  have ok: "status_ok p s m ifs (nc_Status nc')" "st_Conditions (nc_Status nc') = st_Conditions (nc_Status nc)"
    using setInterfaces_facts [OF i(1)] F i(2-) by (auto simp: status_ok_def)
  then show ?thesis using updateStatus_noop by blast
qed

lemma patch_echoes_demo: "patch_echoes demo_ops"
  by (simp add: patch_echoes_def demo_ops_def)

theorem updateStatus_idempotent_witness:
  "status_ok ''Ready'' ''Success'' ''ok'' []
     (nc_Status (fst (fst (runC demo_ops (updateStatus demo_nc ''Ready'' ''Success'' ''ok'' []) demo_world))))"
proof -
  have "snd (fst (runC demo_ops (updateStatus demo_nc ''Ready'' ''Success'' ''ok'' []) demo_world)) = None"
    by (simp add: updateStatus_def patchStatus_def setFields_def setInterfaces_def demo_ops_def demo_nc_def)
  then obtain nc' w' where r: "runC demo_ops (updateStatus demo_nc ''Ready'' ''Success'' ''ok'' []) demo_world = ((nc', None), w')"
    by (metis prod.collapse)
  show ?thesis using updateStatus_idempotent [OF patch_echoes_demo r] r by simp
qed

section \<open>Conditions\<close>

text \<open>What the library promises for \<open>SetOrUpdateCondition\<close>: the condition found
  afterwards is the one that was set.\<close>

definition sets_condition :: "vitiLib \<Rightarrow> bool" where
  "sets_condition lib \<longleftrightarrow>
     (\<forall>cs c. \<exists>c'. findCondition (SetOrUpdateCondition lib cs c) (cd_Type c) = Some c' \<and> sameCondition c' c)"

text \<open>
  After a successful \<open>setCondition\<close> the condition found in the resource says what
  was set, and setting the same condition again patches nothing.
\<close>

theorem setCondition_idempotent:
  assumes echo: "patch_echoes W" and lib: "sets_condition lib"
    and run: "runC W (setCondition lib nc cond) w = ((nc', None), w')"
  shows "(\<exists>c. findCondition (st_Conditions (nc_Status nc')) (cd_Type cond) = Some c \<and> sameCondition c cond) \<and>
    setCondition lib nc' cond = CRet (nc', None)"
proof -
  let ?find = "\<lambda>cs. findCondition cs (cd_Type cond)"
  obtain cur where cur: "?find (SetOrUpdateCondition lib (st_Conditions (nc_Status nc)) cond) = Some cur"
    "sameCondition cur cond" using lib unfolding sets_condition_def by blast
  have found: "\<exists>c. ?find (st_Conditions (nc_Status nc')) = Some c \<and> sameCondition c cond"
  proof (cases "case ?find (st_Conditions (nc_Status nc)) of Some p \<Rightarrow> sameCondition p cur | None \<Rightarrow> False")
    case True
    then have "nc' = nc" using run cur by (auto simp: setCondition_def Let_def split: option.splits)
    then show ?thesis using True cur(2) by (auto simp: sameCondition_def split: option.splits)
  next
    case False
    have "st_Conditions (nc_Status nc') = SetOrUpdateCondition lib (st_Conditions (nc_Status nc)) cond"
      using run cur False
      by (auto simp: setCondition_def Let_def dest: patch_echoesD [OF echo] split: option.splits prod.splits sum.splits)
    then show ?thesis using cur by simp
  qed
  then obtain c where c: "?find (st_Conditions (nc_Status nc')) = Some c" "sameCondition c cond" by blast
  obtain c2 where c2: "?find (SetOrUpdateCondition lib (st_Conditions (nc_Status nc')) cond) = Some c2"
    "sameCondition c2 cond" using lib unfolding sets_condition_def by blast
  have "sameCondition c c2" using c(2) c2(2) by (simp add: sameCondition_def)
  then have "setCondition lib nc' cond = CRet (nc', None)" using c(1) c2(1) by (simp add: setCondition_def Let_def)
  then show ?thesis using found by blast
qed

theorem setCondition_idempotent_witness:
  "let cond = \<lparr>cd_Type = ''Ready'', cd_Status = ''True'', cd_Reason = ''Configured'', cd_Message = ''configured'',
       cd_ObservedGeneration = 1\<rparr>;
     nc' = demo_nc\<lparr>nc_Status := (nc_Status demo_nc)\<lparr>st_Conditions := [cond]\<rparr>\<rparr>
   in setCondition demo_lib nc' cond = CRet (nc', None)"
proof -
  let ?cond = "\<lparr>cd_Type = ''Ready'', cd_Status = ''True'', cd_Reason = ''Configured'', cd_Message = ''configured'',
       cd_ObservedGeneration = 1\<rparr>"
  let ?nc = "demo_nc\<lparr>nc_Status := (nc_Status demo_nc)\<lparr>st_Conditions := [?cond]\<rparr>\<rparr>"
  have l: "sets_condition demo_lib" by (simp add: sets_condition_def demo_lib_def sameCondition_def)
  obtain w' where r: "runC demo_ops (setCondition demo_lib demo_nc ?cond) demo_world = ((?nc, None), w')"
    by (simp add: setCondition_def demo_ops_def demo_lib_def demo_nc_def)
  show ?thesis unfolding Let_def by (rule setCondition_idempotent [OF patch_echoes_demo l r, THEN conjunct2])
qed

section \<open>Stale subnet ids\<close>

lemma GetSubnetInfo_id: "fst (run send (GetSubnetInfo i) w) = Inr info \<Longrightarrow> si_ID info = i"
proof -
  have r: "si_ID (readOptions os info) = si_ID info" for os info
    by (induction os info rule: readOptions.induct) (auto simp: Let_def split: go_any.splits)
  assume "fst (run send (GetSubnetInfo i) w) = Inr info"
  then show ?thesis
    by (auto simp: GetSubnetInfo_def subnetInfo_of_def Let_def r
      split: prod.splits sum.splits if_splits option.splits list.splits)
qed



section \<open>The number of workers\<close>

text \<open>
  C37: the number of concurrent reconciles is at least one for every value of the
  environment variable, five if it is empty, and the number it spells, with any
  surrounding space, if that is a positive number of at most 18 digits.
\<close>

theorem maxConcurrentReconciles_bounds:
  "1 \<le> maxConcurrentReconciles env \<and> maxConcurrentReconciles [] = 5 \<and>
   (1 \<le> n \<longrightarrow> n < 10 ^ 18 \<longrightarrow> TrimSpace env = nat_digits n \<longrightarrow> maxConcurrentReconciles env = int n)"
proof (intro conjI impI)
  show "1 \<le> maxConcurrentReconciles env" by (auto simp: maxConcurrentReconciles_def Let_def split: option.splits)
  show "maxConcurrentReconciles [] = 5" by (simp add: maxConcurrentReconciles_def)
  assume n: "1 \<le> n" "n < 10 ^ 18" and env: "TrimSpace env = nat_digits n"
  obtain d ds where d: "nat_digits n = d # ds" by (cases "nat_digits n") auto
  have "list_all is_digit (nat_digits n)" by (rule nat_digits_are_digits)
  then have "is_digit d" using d by simp
  then have "d \<noteq> CHR ''-''" "d \<noteq> CHR ''+''" by (auto simp: is_digit_def)
  moreover have "int n < 2 ^ 63" using n(2) by simp
  ultimately have "Atoi (nat_digits n) = Some (int n)"
    using d digits_val_nat_digits [of n] nat_digits_are_digits [of n] by (simp add: Atoi_def Let_def)
  then show "maxConcurrentReconciles env = int n" using env n(1) by (simp add: maxConcurrentReconciles_def)
qed

theorem maxConcurrentReconciles_bounds_witness: "maxConcurrentReconciles '' 12 '' = 12"
proof -
  have "TrimSpace '' 12 '' = nat_digits 12" by code_simp
  then show ?thesis using maxConcurrentReconciles_bounds [of "'' 12 ''" 12] by simp
qed

end
