(* ===== verification/Pool.thy ===== *)
theory Pool
  imports Controller SubnetLock
begin

text \<open>
  Reconciles that run at once. controller-runtime runs up to
  \<open>MaxConcurrentReconciles\<close> reconciles in parallel, each a program (\<open>cprog\<close>); they share
  the world and the mutexes of the Kea service. A step of the pool is the next effect of
  one program, or its next lock or unlock.

  The locale \<open>pool_logic\<close> is how facts about such a pool are proved: from an invariant of
  each program and what it holds.
\<close>

section \<open>Steps\<close>

record ('a, 'w) pool =
  p_progs :: "'a cprog list"
  p_locks :: lockTable
  p_world :: 'w

text \<open>The next effect of a program that does not stand before a mutex.\<close>

fun perform :: "'w worldOps \<Rightarrow> 'a cprog \<Rightarrow> 'w \<Rightarrow> ('a cprog \<times> 'w) option" where
  "perform W (CRet a) w = None"
| "perform W (CMutex b c p) w = None"
| "perform W (CKea r k) w = Some (map_prod k id (w_kea W r w))"
| "perform W (CGetNC ns n k) w = Some (map_prod k id (w_getNC W ns n w))"
| "perform W (CGetNN ns n k) w = Some (map_prod k id (w_getNN W ns n w))"
| "perform W (CListNN ns k) w = Some (map_prod k id (w_listNN W ns w))"
| "perform W (CPatch u b k) w = Some (map_prod k id (w_patch W u b w))"
| "perform W (CFinalizer b nc n k) w = Some (map_prod k id (w_finalizer W b nc n w))"
| "perform W (CNow k) w = Some (map_prod k id (w_now W w))"
| "perform W (CWarned s k) w = Some (map_prod k id (w_warned W s w))"

text \<open>The next step of program \<open>t\<close>: \<open>None\<close> if it has ended or waits for a mutex.\<close>

definition pool_step :: "'w worldOps \<Rightarrow> nat \<Rightarrow> ('a, 'w) pool \<Rightarrow> ('a, 'w) pool option" where
  "pool_step W t s =
     (if t < length (p_progs s) then
        (case p_progs s ! t of
           CMutex tk c p \<Rightarrow>
             map_option (\<lambda>l. s\<lparr>p_progs := (p_progs s)[t := p], p_locks := l\<rparr>)
               (if tk then acquire c t (p_locks s) else release c (p_locks s))
         | p \<Rightarrow> map_option (\<lambda>(p', w'). s\<lparr>p_progs := (p_progs s)[t := p'], p_world := w'\<rparr>) (perform W p (p_world s)))
      else None)"

inductive pool_reach :: "'w worldOps \<Rightarrow> ('a, 'w) pool \<Rightarrow> ('a, 'w) pool \<Rightarrow> bool" for W s0 where
  pool_start: "pool_reach W s0 s0"
| pool_next: "pool_reach W s0 s \<Longrightarrow> pool_step W t s = Some s' \<Longrightarrow> pool_reach W s0 s'"

definition pool_init :: "'a cprog list \<Rightarrow> 'w \<Rightarrow> ('a, 'w) pool" where
  "pool_init ps w = \<lparr>p_progs = ps, p_locks = empty_table, p_world = w\<rparr>"

definition is_done :: "'a cprog \<Rightarrow> bool" where
  "is_done p = (case p of CRet a \<Rightarrow> True | _ \<Rightarrow> False)"

lemma is_done_simps [simp]: "is_done (CRet a)" "is_done p \<longleftrightarrow> (\<exists>a. p = CRet a)"
  by (simp add: is_done_def) (cases p; simp add: is_done_def)

definition all_done :: "('a, 'w) pool \<Rightarrow> bool" where
  "all_done s \<longleftrightarrow> list_all is_done (p_progs s)"

text \<open>Runs by a schedule; a program that cannot move passes.\<close>

primrec schedule :: "'w worldOps \<Rightarrow> nat list \<Rightarrow> ('a, 'w) pool \<Rightarrow> ('a, 'w) pool" where
  "schedule W [] s = s"
| "schedule W (t # ts) s = schedule W ts (case pool_step W t s of None \<Rightarrow> s | Some s' \<Rightarrow> s')"

lemma schedule_reach: "pool_reach W s0 s \<Longrightarrow> pool_reach W s0 (schedule W ts s)"
  by (induction ts arbitrary: s) (auto intro: pool_next split: option.splits)

lemma pool_reach_trans: "pool_reach W s1 s2 \<Longrightarrow> pool_reach W s0 s1 \<Longrightarrow> pool_reach W s0 s2"
  by (induction rule: pool_reach.induct) (auto intro: pool_next)

lemma pool_step_cases [consumes 1, case_names effect lock unlock]:
  assumes "pool_step W t s = Some s'"
  obtains p' w' where "t < length (p_progs s)" "perform W (p_progs s ! t) (p_world s) = Some (p', w')"
      "s' = s\<lparr>p_progs := (p_progs s)[t := p'], p_world := w'\<rparr>"
    | c p l where "t < length (p_progs s)" "p_progs s ! t = CMutex True c p" "acquire c t (p_locks s) = Some l"
      "s' = s\<lparr>p_progs := (p_progs s)[t := p], p_locks := l\<rparr>"
    | c p l where "t < length (p_progs s)" "p_progs s ! t = CMutex False c p" "release c (p_locks s) = Some l"
      "s' = s\<lparr>p_progs := (p_progs s)[t := p], p_locks := l\<rparr>"
  using assms by (cases "p_progs s ! t") (auto simp: pool_step_def split: if_splits prod.splits)

lemma pool_step_length: "pool_step W t s = Some s' \<Longrightarrow> length (p_progs s') = length (p_progs s)"
  by (erule pool_step_cases) simp_all

lemma pool_reach_length: "pool_reach W s0 s \<Longrightarrow> length (p_progs s) = length (p_progs s0)"
  by (induction rule: pool_reach.induct) (auto simp: pool_step_length)

section \<open>Every pool comes to rest\<close>

text \<open>\<open>after p' p\<close>: \<open>p'\<close> is what is left of \<open>p\<close> after its first step, for some answer.\<close>

inductive after :: "'a cprog \<Rightarrow> 'a cprog \<Rightarrow> bool" where
  "after (k x) (CKea r k)"
| "after p (CMutex b c p)"
| "after (k y) (CGetNC ns n k)"
| "after (k z) (CGetNN ns n k)"
| "after (k l) (CListNN ns k)"
| "after (k u) (CPatch nc1 nc2 k)"
| "after (k e) (CFinalizer b nc n k)"
| "after (k i) (CNow k)"
| "after (k d) (CWarned s k)"

inductive_cases after_elims:
  "after p' (CRet a)" "after p' (CKea r k)" "after p' (CMutex b c p)" "after p' (CGetNC ns n k)"
  "after p' (CGetNN ns n k)" "after p' (CListNN ns k)" "after p' (CPatch nc1 nc2 k)"
  "after p' (CFinalizer b nc n k)" "after p' (CNow k)" "after p' (CWarned s k)"

lemma wf_after: "wf {(p', p). after p' p}"
proof (rule wfUNIVI)
  fix P :: "'a cprog \<Rightarrow> bool" and p
  assume step: "\<forall>p. (\<forall>p'. (p', p) \<in> {(p', p). after p' p} \<longrightarrow> P p') \<longrightarrow> P p"
  show "P p"
    by (induction p) (rule step [rule_format]; auto elim: after_elims)+
qed

lemma perform_after: "perform W p w = Some (p', w') \<Longrightarrow> after p' p"
  by (cases p) (auto simp: map_prod_def intro: after.intros split: prod.splits)

lemma perform_cases [case_names ret mutex effect]:
  obtains a where "p = CRet a" | b c p' where "p = CMutex b c p'" | p' w' where "perform W p w = Some (p', w')"
proof (cases "perform W p w")
  case None
  then show ?thesis using that(1,2) by (cases p) auto
next
  case (Some pw)
  then show ?thesis using that(3) by (cases pw) auto
qed

lemma runC_perform: "perform W p w = Some (p', w') \<Longrightarrow> runC W p w = runC W p' w'"
  by (cases p) (auto simp: map_prod_def split: prod.splits)

lemma effects_only_perform:
  "effects_only P p \<Longrightarrow> perform W p w = Some (p', w') \<Longrightarrow> effects_only P p' \<and> (\<forall>r k. p = CKea r k \<longrightarrow> P (EKea r))"
  by (cases p) (auto simp: map_prod_def split: prod.splits)

text \<open>Induction along the steps of a program.\<close>

lemmas step_induct = wf_induct_rule [OF wf_after, simplified, consumes 0, case_names step]

lemma listrel1_update:
  assumes "i < length xs" "(y, xs ! i) \<in> r"
  shows "(xs[i := y], xs) \<in> listrel1 r"
  using assms id_take_nth_drop [OF assms(1)] by (auto simp: listrel1_def upd_conv_take_nth_drop intro!: exI)

lemma pool_step_decreases:
  assumes "pool_step W t s = Some s'"
  shows "(p_progs s', p_progs s) \<in> listrel1 {(p', p). after p' p}"
  using assms
  by (cases rule: pool_step_cases) (auto intro!: listrel1_update intro: perform_after after.intros)

lemma wf_pool: "wf {(s', s). \<exists>t. pool_step W t s = Some s'}"
proof (rule wf_subset)
  show "wf (inv_image (listrel1 {(p', p). after p' p}) p_progs)"
    by (intro wf_inv_image) (simp add: wf_listrel1_iff wf_after)
qed (auto intro: pool_step_decreases)

section \<open>A logic for pools\<close>

text \<open>
  The invariant \<open>I t p h w\<close> of program \<open>t\<close>: \<open>p\<close> is what is left of it and \<open>h\<close> the mutex it
  holds with what it knows under its protection; \<open>G\<close> is the invariant of the shared world.
\<close>

locale pool_logic =
  fixes W :: "'w worldOps"
    and I :: "nat \<Rightarrow> 'a cprog \<Rightarrow> (string \<times> 'k) option \<Rightarrow> 'w \<Rightarrow> bool"
    and G :: "'w \<Rightarrow> bool"
  assumes at_return: "I t (CRet a) h w \<Longrightarrow> h = None"
    and at_lock: "I t (CMutex True c p) h w \<Longrightarrow> h = None \<and> (\<exists>k. I t p (Some (c, k)) w)"
    and at_unlock: "I t (CMutex False c p) h w \<Longrightarrow> (\<exists>k. h = Some (c, k)) \<and> I t p None w"
    and at_effect: "I t p h w \<Longrightarrow> G w \<Longrightarrow> perform W p w = Some (p', w') \<Longrightarrow>
      G w' \<and> (\<exists>h'. map_option fst h' = map_option fst h \<and> I t p' h' w')"
    and at_other: "I t p h w \<Longrightarrow> G w \<Longrightarrow> perform W p w = Some (p', w') \<Longrightarrow> u \<noteq> t \<Longrightarrow> I u q h' w \<Longrightarrow>
      (h = None \<or> map_option fst h' \<noteq> map_option fst h) \<Longrightarrow> I u q h' w'"
begin

definition thread_inv :: "lockTable \<Rightarrow> 'w \<Rightarrow> nat \<Rightarrow> 'a cprog \<Rightarrow> bool" where
  "thread_inv l w t p \<longleftrightarrow> (\<exists>h. I t p h w \<and> (\<forall>c. holder l c = Some t \<longleftrightarrow> map_option fst h = Some c))"

definition pool_inv :: "('a, 'w) pool \<Rightarrow> bool" where
  "pool_inv s \<longleftrightarrow>
     lock_invar (p_locks s) \<and> G (p_world s) \<and> (\<forall>c t. holder (p_locks s) c = Some t \<longrightarrow> t < length (p_progs s)) \<and>
     (\<forall>t<length (p_progs s). thread_inv (p_locks s) (p_world s) t (p_progs s ! t))"

lemma thread_invE:
  assumes "pool_inv s" "t < length (p_progs s)"
  obtains h where "I t (p_progs s ! t) h (p_world s)"
    "\<And>c. holder (p_locks s) c = Some t \<longleftrightarrow> map_option fst h = Some c"
proof -
  have "thread_inv (p_locks s) (p_world s) t (p_progs s ! t)" using assms by (simp add: pool_inv_def)
  then show ?thesis using that unfolding thread_inv_def by (elim exE conjE) simp
qed

lemma inv_init: "G w \<Longrightarrow> (\<And>t. t < length ps \<Longrightarrow> I t (ps ! t) None w) \<Longrightarrow> pool_inv (pool_init ps w)"
  by (auto simp: pool_inv_def thread_inv_def pool_init_def lock_invar_def empty_table_def holder_def)

lemma inv_effect:
  assumes inv: "pool_inv s" and t: "t < length (p_progs s)"
    and p: "perform W (p_progs s ! t) (p_world s) = Some (p', w')"
  shows "pool_inv (s\<lparr>p_progs := (p_progs s)[t := p'], p_world := w'\<rparr>)"
proof -
  obtain h where h: "I t (p_progs s ! t) h (p_world s)"
    "\<And>c. holder (p_locks s) c = Some t \<longleftrightarrow> map_option fst h = Some c"
    using thread_invE [OF inv t] by blast
  have G: "G (p_world s)" using inv by (simp add: pool_inv_def)
  note own = at_effect [OF h(1) G p]
  have "thread_inv (p_locks s) w' t p'" unfolding thread_inv_def using own h(2) by metis
  moreover have "thread_inv (p_locks s) w' u (p_progs s ! u)" if u: "u < length (p_progs s)" "u \<noteq> t" for u
  proof -
    obtain h' where h': "I u (p_progs s ! u) h' (p_world s)"
      "\<And>c. holder (p_locks s) c = Some u \<longleftrightarrow> map_option fst h' = Some c"
      using thread_invE [OF inv u(1)] by blast
    have "h = None \<or> map_option fst h' \<noteq> map_option fst h" using h(2) h'(2) u(2) by (cases h) (simp, metis option.inject option.simps(9))
    then show ?thesis unfolding thread_inv_def using at_other [OF h(1) G p u(2) h'(1)] h'(2) by blast
  qed
  ultimately show ?thesis using inv own t by (simp add: pool_inv_def nth_list_update)
qed

lemma inv_mutex:
  assumes inv: "pool_inv s" and t: "t < length (p_progs s)" and l: "lock_invar l"
    and own: "thread_inv l (p_world s) t p" and mine: "\<And>c u. u \<noteq> t \<Longrightarrow> holder l c = Some u \<longleftrightarrow> holder (p_locks s) c = Some u"
  shows "pool_inv (s\<lparr>p_progs := (p_progs s)[t := p], p_locks := l\<rparr>)"
proof -
  have "thread_inv l (p_world s) u (p_progs s ! u)" if "u < length (p_progs s)" "u \<noteq> t" for u
    using inv that mine unfolding pool_inv_def thread_inv_def by metis
  moreover have "u < length (p_progs s)" if "holder l c = Some u" for c u
    using inv t mine that unfolding pool_inv_def by metis
  ultimately show ?thesis using inv own l t by (simp add: pool_inv_def nth_list_update)
qed

lemma inv_step:
  assumes inv: "pool_inv s" and step: "pool_step W t s = Some s'"
  shows "pool_inv s'"
proof -
  have li: "lock_invar (p_locks s)" using inv by (simp add: pool_inv_def)
  from step show ?thesis
  proof (cases rule: pool_step_cases)
    case (effect p' w')
    then show ?thesis using inv_effect [OF inv] by simp
  next
    case (lock c p l)
    obtain h where h: "I t (p_progs s ! t) h (p_world s)"
      "\<And>c. holder (p_locks s) c = Some t \<longleftrightarrow> map_option fst h = Some c"
      using thread_invE [OF inv lock(1)] by blast
    note acq = subnet_locks.acq_takes [OF li lock(3)] and free = subnet_locks.acq_was_free [OF li lock(3)]
    obtain k where "h = None" "I t p (Some (c, k)) (p_world s)" using at_lock [OF h(1) [unfolded lock(2)]] by blast
    then have "thread_inv l (p_world s) t p" unfolding thread_inv_def
      using acq h(2) by (intro exI [of _ "Some (c, k)"]) auto
    then show ?thesis unfolding lock(4)
      using acq free by (intro inv_mutex [OF inv lock(1)]) auto
  next
    case (unlock c p l)
    obtain h where h: "I t (p_progs s ! t) h (p_world s)"
      "\<And>c. holder (p_locks s) c = Some t \<longleftrightarrow> map_option fst h = Some c"
      using thread_invE [OF inv unlock(1)] by blast
    note rel = subnet_locks.rel_frees [OF li unlock(3)]
    obtain k where k: "h = Some (c, k)" "I t p None (p_world s)" using at_unlock [OF h(1) [unfolded unlock(2)]] by blast
    then have "thread_inv l (p_world s) t p" unfolding thread_inv_def
      using rel h(2) by (intro exI [of _ None]) auto
    moreover have "holder (p_locks s) c = Some t" using h(2) k(1) by simp
    ultimately show ?thesis unfolding unlock(4)
      using rel by (intro inv_mutex [OF inv unlock(1)]) auto
  qed
qed

lemma inv_reach: "pool_reach W s0 s \<Longrightarrow> pool_inv s0 \<Longrightarrow> pool_inv s"
  by (induction rule: pool_reach.induct) (auto intro: inv_step)

text \<open>A program that holds a mutex can move; if none does, every program can.\<close>

lemma can_move:
  assumes inv: "pool_inv s" and t: "t < length (p_progs s)" and h: "I t (p_progs s ! t) h (p_world s)"
    and own: "\<And>c. holder (p_locks s) c = Some t \<longleftrightarrow> map_option fst h = Some c"
    and running: "\<not> is_done (p_progs s ! t)" and free: "h = None \<Longrightarrow> \<forall>c. holder (p_locks s) c = None"
  shows "pool_step W t s \<noteq> None"
proof (cases "p_progs s ! t")
  case (CMutex b c p)
  have li: "lock_invar (p_locks s)" using inv by (simp add: pool_inv_def)
  show ?thesis
  proof (cases b)
    case True
    then have "h = None" using at_lock [of t c p h "p_world s"] h CMutex True by simp
    then have "acquire c t (p_locks s) \<noteq> None" using free subnet_locks.acq_blocks [OF li] by blast
    then show ?thesis using t CMutex True by (simp add: pool_step_def)
  next
    case False
    then have "holder (p_locks s) c = Some t" using at_unlock [of t c p h "p_world s"] own h CMutex False by auto
    then have "release c (p_locks s) \<noteq> None" using subnet_locks.rel_panics [OF li] by simp
    then show ?thesis using t CMutex False by (simp add: pool_step_def)
  qed
qed (use t running in \<open>simp_all add: pool_step_def\<close>)

lemma progress:
  assumes inv: "pool_inv s" and running: "\<not> all_done s"
  shows "\<exists>t s'. pool_step W t s = Some s'"
proof -
  obtain t where t: "t < length (p_progs s)" "\<not> is_done (p_progs s ! t)"
    using running by (auto simp: all_done_def list_all_length simp del: is_done_simps)
  obtain h where h: "I t (p_progs s ! t) h (p_world s)"
    "\<And>c. holder (p_locks s) c = Some t \<longleftrightarrow> map_option fst h = Some c"
    using thread_invE [OF inv t(1)] by blast
  show ?thesis
  proof (cases "\<exists>c u. holder (p_locks s) c = Some u")
    case False
    then show ?thesis using can_move [OF inv t(1) h t(2)] by force
  next
    case True
    then obtain c u where c: "holder (p_locks s) c = Some u" by blast
    then have u: "u < length (p_progs s)" using inv unfolding pool_inv_def by blast
    obtain h' where h': "I u (p_progs s ! u) h' (p_world s)"
      "\<And>c. holder (p_locks s) c = Some u \<longleftrightarrow> map_option fst h' = Some c"
      using thread_invE [OF inv u] by blast
    then have "h' \<noteq> None" using c by auto
    then show ?thesis using can_move [OF inv u h'] at_return h'(1) by force
  qed
qed

text \<open>From every state that satisfies the invariant the pool can run to its end.\<close>

lemma completes: "pool_inv s \<Longrightarrow> \<exists>s'. pool_reach W s s' \<and> all_done s'"
proof (induction s rule: wf_induct_rule [OF wf_pool [of W]])
  case (1 s)
  show ?case
  proof (cases "all_done s")
    case False
    then obtain t s1 where s1: "pool_step W t s = Some s1" using progress "1.prems" by blast
    then obtain s' where "pool_reach W s1 s'" "all_done s'" using "1.IH" inv_step [OF "1.prems" s1] by blast
    moreover have "pool_reach W s s1" using s1 pool_start pool_next by metis
    ultimately show ?thesis using pool_reach_trans by blast
  qed (auto intro: pool_start)
qed

end

end
