(* ===== verification/PoolFacts.thy ===== *)
theory PoolFacts
  imports Pool ControllerStatusFacts
begin

text \<open>
  What holds however reconciles interleave: every pool of reconciles comes to rest, and no
  prefix is stored twice in Kea. Both are instances of the locale \<open>pool_logic\<close>.
\<close>

section \<open>What a reconcile does under a mutex\<close>

text \<open>Effects that neither touch a mutex nor add a subnet.\<close>

definition quiet :: "effect \<Rightarrow> bool" where
  "quiet e \<longleftrightarrow> (\<forall>b c. e \<noteq> EMutex b c) \<and> (\<forall>r. e = EKea r \<longrightarrow> Command r \<noteq> ''subnet4-add'')"

lemma quiet_simps [simp]:
  "\<not> quiet (EMutex b c)" "quiet (EGetNC ns n)" "quiet (EGetNN ns n)" "quiet (EListNN ns)" "quiet (EPatch u p)"
  "quiet (EFinalizer b nc n)" "quiet ENow" "quiet (EWarned k)" "quiet (EKea r) \<longleftrightarrow> Command r \<noteq> ''subnet4-add''"
  by (simp_all add: quiet_def)

text \<open>Every mutex is taken while none is held, released while it is held, and none is held
  at the end.\<close>

primrec mutexes_ok :: "'a cprog \<Rightarrow> string option \<Rightarrow> bool" where
  "mutexes_ok (CRet a) h = (h = None)"
| "mutexes_ok (CKea r k) h = (\<forall>x. mutexes_ok (k x) h)"
| "mutexes_ok (CMutex b c p) h =
     (if b then h = None \<and> mutexes_ok p (Some c) else h = Some c \<and> mutexes_ok p None)"
| "mutexes_ok (CGetNC ns n k) h = (\<forall>x. mutexes_ok (k x) h)"
| "mutexes_ok (CGetNN ns n k) h = (\<forall>x. mutexes_ok (k x) h)"
| "mutexes_ok (CListNN ns k) h = (\<forall>x. mutexes_ok (k x) h)"
| "mutexes_ok (CPatch u b k) h = (\<forall>x. mutexes_ok (k x) h)"
| "mutexes_ok (CFinalizer b nc n k) h = (\<forall>x. mutexes_ok (k x) h)"
| "mutexes_ok (CNow k) h = (\<forall>x. mutexes_ok (k x) h)"
| "mutexes_ok (CWarned s k) h = (\<forall>x. mutexes_ok (k x) h)"

text \<open>A subnet is added only under the mutex of its prefix and only while the prefix is known
  to be absent.\<close>

primrec guardedC :: "'a cprog \<Rightarrow> (string \<times> knowledge) option \<Rightarrow> bool" where
  "guardedC (CRet a) h = (h = None)"
| "guardedC (CKea r k) h =
     (case h of
        None \<Rightarrow> Command r \<noteq> ''subnet4-add'' \<and>
          (\<forall>x. (r = subnet4_list \<longrightarrow> list_failure x \<or> (\<exists>m. list_reply m x)) \<longrightarrow> guardedC (k x) None)
      | Some (c, kn) \<Rightarrow>
          (r = subnet4_list \<and>
             (\<forall>x. list_failure x \<longrightarrow> guardedC (k x) (Some (c, kn))) \<and>
             (\<forall>x m. list_reply m x \<longrightarrow> (kn = Absent \<longrightarrow> m c = None) \<longrightarrow>
                guardedC (k x) (Some (c, learn_list True (m c))))) \<or>
          (\<exists>cfg i. sc_Subnet cfg = c \<and> r = subnet4_add cfg i \<and> kn = Absent \<and>
             (\<forall>x. guardedC (k x) (Some (c, learn_add i x)))))"
| "guardedC (CMutex b c p) h =
     (if b then h = None \<and> guardedC p (Some (c, Unknown)) else (\<exists>kn. h = Some (c, kn)) \<and> guardedC p None)"
| "guardedC (CGetNC ns n k) h = (\<forall>x. guardedC (k x) h)"
| "guardedC (CGetNN ns n k) h = (\<forall>x. guardedC (k x) h)"
| "guardedC (CListNN ns k) h = (\<forall>x. guardedC (k x) h)"
| "guardedC (CPatch u b k) h = (\<forall>x. guardedC (k x) h)"
| "guardedC (CFinalizer b nc n k) h = (\<forall>x. guardedC (k x) h)"
| "guardedC (CNow k) h = (\<forall>x. guardedC (k x) h)"
| "guardedC (CWarned s k) h = (\<forall>x. guardedC (k x) h)"

lemma guardedC_KeaE [consumes 1, case_names list add]:
  assumes "guardedC (CKea r k) (Some (c, kn))"
  obtains "r = subnet4_list" "\<And>x. list_failure x \<Longrightarrow> guardedC (k x) (Some (c, kn))"
      "\<And>x m. list_reply m x \<Longrightarrow> (kn = Absent \<longrightarrow> m c = None) \<Longrightarrow> guardedC (k x) (Some (c, learn_list True (m c)))"
    | cfg i where "r = subnet4_add cfg i" "c = sc_Subnet cfg" "kn = Absent"
      "\<And>x. guardedC (k x) (Some (c, learn_add i x))"
  using assms by auto

lemma guardedC_listI:
  "(\<And>x. list_failure x \<Longrightarrow> guardedC (k x) (Some (c, kn))) \<Longrightarrow>
   (\<And>x m. list_reply m x \<Longrightarrow> (kn = Absent \<longrightarrow> m c = None) \<Longrightarrow> guardedC (k x) (Some (c, learn_list True (m c)))) \<Longrightarrow>
   guardedC (CKea subnet4_list k) (Some (c, kn))"
  by simp

lemma guardedC_addI:
  "(\<And>x. guardedC (k x) (Some (sc_Subnet cfg, learn_add i x))) \<Longrightarrow>
   guardedC (CKea (subnet4_add cfg i) k) (Some (sc_Subnet cfg, Absent))"
  by auto

definition tame :: "'a cprog \<Rightarrow> bool" where
  "tame p \<longleftrightarrow> mutexes_ok p None \<and> guardedC p None"

lemma tame_simps [simp]:
  "tame (CRet a)" "tame (CGetNC ns n k1) \<longleftrightarrow> (\<forall>x. tame (k1 x))" "tame (CFinalizer b nc n k2) \<longleftrightarrow> (\<forall>x. tame (k2 x))"
  "tame (CWarned s k3) \<longleftrightarrow> (\<forall>x. tame (k3 x))"
  by (auto simp: tame_def)

lemma tame_quiet: "effects_only quiet p \<Longrightarrow> tame p"
  unfolding tame_def by (induction p) auto

lemma mutexes_ok_bindC: "mutexes_ok p h \<Longrightarrow> (\<And>a. mutexes_ok (f a) None) \<Longrightarrow> mutexes_ok (bindC p f) h"
  by (induction p arbitrary: h) (auto split: if_splits)

lemma guardedC_bindC: "guardedC p h \<Longrightarrow> (\<And>a. guardedC (f a) None) \<Longrightarrow> guardedC (bindC p f) h"
proof (induction p arbitrary: h)
  case (CKea r k)
  show ?case
  proof (cases h)
    case None
    then show ?thesis using CKea by simp
  next
    case (Some ckn)
    obtain c kn where h: "h = Some (c, kn)" using Some by (cases ckn) simp
    from CKea.prems(1) [unfolded h] show ?thesis
    proof (cases rule: guardedC_KeaE)
      case list
      show ?thesis unfolding h list(1) bindC.simps by (rule guardedC_listI) (simp_all add: CKea list)
    next
      case (add cfg i)
      show ?thesis unfolding h add(1-3) bindC.simps by (rule guardedC_addI) (use CKea add in simp)
    qed
  qed
qed (auto split: if_splits)

lemma tame_bindC: "tame p \<Longrightarrow> (\<And>a. tame (f a)) \<Longrightarrow> tame (bindC p f)"
  by (simp add: tame_def mutexes_ok_bindC guardedC_bindC)

text \<open>\<open>GetOrCreateSubnet\<close>, the only operation that takes a mutex.\<close>

lemma mutexes_ok_kea_free: "lock_free p \<Longrightarrow> mutexes_ok (kea p) None"
  by (induction p) auto

lemma mutexes_ok_held:
  "lock_free p \<Longrightarrow> (\<And>a. mutexes_ok (kea (f a)) h) \<Longrightarrow> mutexes_ok (kea (bindP p f)) h"
  by (induction p) auto

lemma lock_free_body: "lock_free (getOrCreateBody cfg)"
  by (auto simp: getOrCreateBody_def GetSubnetID_def CreateSubnet_def getNextSubnetID_def
    intro!: lock_free_bindP split: sum.splits)

lemma guardedC_kea:
  "guarded p cfg held kn \<Longrightarrow> guardedC (kea p) (if held then Some (sc_Subnet cfg, kn) else None)"
proof (induction p arbitrary: held kn)
  case (Call r k)
  show ?case
  proof (cases held)
    case False
    then have r: "r = subnet4_list" using Call.prems by auto
    have "guardedC (kea (k x)) None" if "list_failure x \<or> (\<exists>m. list_reply m x)" for x
    proof -
      have "\<exists>kn. guarded (k x) cfg False kn" using Call.prems that False by auto
      then show ?thesis using Call.IH [of "k x" False] by auto
    qed
    then show ?thesis using False r by simp
  next
    case True
    from Call.prems consider
        (l) "r = subnet4_list" "\<And>x. list_failure x \<Longrightarrow> guarded (k x) cfg True kn"
          "\<And>x m. list_reply m x \<Longrightarrow> (kn = Absent \<longrightarrow> m (sc_Subnet cfg) = None) \<Longrightarrow>
             guarded (k x) cfg True (learn_list True (m (sc_Subnet cfg)))"
      | (a) i where "r = subnet4_add cfg i" "kn = Absent" "\<And>x. guarded (k x) cfg True (learn_add i x)"
      using True by auto
    then show ?thesis
    proof cases
      case l
      show ?thesis using True Call.IH [OF rangeI l(2)] Call.IH [OF rangeI l(3)] unfolding l(1)
        by (auto intro!: guardedC_listI simp del: guardedC.simps(2))
    next
      case (a i)
      then show ?thesis using True Call.IH [OF rangeI a(3)] by (auto intro!: guardedC_addI simp del: guardedC.simps(2))
    qed
  qed
next
  case (Lock c p)
  then show ?case using Lock.IH [of True Unknown] by simp
next
  case (Unlock c p)
  then show ?case using Unlock.IH [of False] by fastforce
qed simp

lemma tame_GetOrCreateSubnet: "tame (kea (GetOrCreateSubnet cfg))"
proof -
  have "mutexes_ok (kea (bindP (getOrCreateBody cfg) (\<lambda>res. Unlock (sc_Subnet cfg) (Return res)))) (Some (sc_Subnet cfg))"
    by (rule mutexes_ok_held [OF lock_free_body]) simp
  then have "mutexes_ok (kea (GetOrCreateSubnet cfg)) None" by (simp add: GetOrCreateSubnet_def)
  then show ?thesis using guardedC_kea [OF guarded_GetOrCreateSubnet, of cfg] by (simp add: tame_def)
qed

section \<open>Every part of a reconcile\<close>

lemma kea_quiet: "calls_only (\<lambda>r. Command r \<noteq> ''subnet4-add'') p \<Longrightarrow> lock_free p \<Longrightarrow> effects_only quiet (kea p)"
  by (induction p) auto

lemma read_not_add: "read_cmd r \<Longrightarrow> Command r \<noteq> ''subnet4-add''"
  by (auto simp: read_cmd_def)

lemma reads_quiet: "calls_only read_cmd p \<Longrightarrow> lock_free p \<Longrightarrow> effects_only quiet (kea p)"
  by (rule kea_quiet) (erule calls_only_mono, erule read_not_add)

lemma service_lock_free:
  "lock_free (GetSubnetID p)" "lock_free (GetSubnetInfo i)" "lock_free (GetLeaseIPv4ForMAC mac)"
  "lock_free (EnsureReservationForMACIP mac i ip)" "lock_free (DeleteReservationForMAC mac i)"
  by (auto simp: GetSubnetID_def GetSubnetInfo_def GetLeaseIPv4ForMAC_def EnsureReservationForMACIP_def
    macReservationExists_def DeleteReservationForMAC_def Let_def intro!: lock_free_bindP
    split: option.splits sum.splits)

named_theorems quiet_intros \<open>operations that neither touch a mutex nor add a subnet\<close>

lemma getNetworkNamespace_quiet [quiet_intros]: "effects_only quiet (getNetworkNamespace ns name)"
  by (auto simp: getNetworkNamespace_def split: sum.splits list.splits)

lemma setCondition_quiet: "effects_only quiet (setCondition lib nc cond)"
  by (auto simp: setCondition_def Let_def split: option.splits sum.splits)

lemma updateStatus_quiet [quiet_intros]: "effects_only quiet (updateStatus nc p st m ifs)"
  by (auto simp: updateStatus_def patchStatus_def split: prod.splits sum.splits)

lemma report_quiet [quiet_intros]: "effects_only quiet (report lib nc cs r cm p st m ifs)"
  unfolding report_def
  by (auto intro!: effects_only_bindI setCondition_quiet updateStatus_quiet split: prod.splits)

lemma service_quiet [quiet_intros]:
  "effects_only quiet (kea (GetSubnetID p))" "effects_only quiet (kea (GetSubnetInfo i))"
  "effects_only quiet (kea (GetLeaseIPv4ForMAC mac))" "effects_only quiet (kea (EnsureReservationForMACIP mac i ip))"
  "effects_only quiet (kea (DeleteReservationForMAC mac i))"
proof -
  have "calls_only (\<lambda>r. Command r \<noteq> ''subnet4-add'') (EnsureReservationForMACIP mac i ip)"
    by (rule calls_only_mono [OF EnsureReservationForMACIP_calls]) (auto simp: read_not_add reservation_add_def)
  then show "effects_only quiet (kea (EnsureReservationForMACIP mac i ip))" by (intro kea_quiet service_lock_free)
  have "calls_only (\<lambda>r. Command r \<noteq> ''subnet4-add'') (DeleteReservationForMAC mac i)"
    by (rule calls_only_mono [OF DeleteReservationForMAC_calls]) simp
  then show "effects_only quiet (kea (DeleteReservationForMAC mac i))" by (intro kea_quiet service_lock_free)
qed (intro reads_quiet GetSubnetID_reads GetSubnetInfo_reads GetLeaseIPv4ForMAC_reads service_lock_free)+

lemma processMACs_quiet [quiet_intros]: "effects_only quiet (processMACs i n macs s)"
proof (induction macs arbitrary: s)
  case (Cons mac macs)
  have "effects_only quiet (processMAC i n mac s)" for s
    unfolding processMAC_def by (auto simp: Let_def intro!: effects_only_bindI quiet_intros split: prod.splits sum.splits)
  then show ?case using Cons.IH by (auto intro!: effects_only_bindI)
qed simp

lemma reconcileReservations_quiet [quiet_intros]: "effects_only quiet (reconcileReservations lib nc macs i p)"
  unfolding reconcileReservations_def resolveSubnetInfo_def processMACReservations_def
  by (auto simp: Let_def intro!: effects_only_bindI quiet_intros split: prod.splits sum.splits)

lemma handleDeletion_quiet [quiet_intros]: "effects_only quiet (handleDeletion lib ord nc)"
proof -
  have "effects_only quiet (deleteAll i macs)" for i macs
    by (induction macs) (auto intro!: effects_only_bindI quiet_intros)
  then show ?thesis unfolding handleDeletion_def cleanupReservations_def
    by (auto intro!: effects_only_bindI quiet_intros split: sum.splits prod.splits option.splits)
qed

lemmas tame_parts =
  tame_GetOrCreateSubnet tame_quiet [OF updateStatus_quiet] tame_quiet [OF report_quiet]
  tame_quiet [OF reconcileReservations_quiet] tame_quiet [OF handleDeletion_quiet] tame_quiet [OF getNetworkNamespace_quiet]

lemma tame_reconcileSubnet: "tame (reconcileSubnet lib ord v nc nn)"
  unfolding reconcileSubnet_def
  by (auto simp: Let_def intro!: tame_bindC tame_parts split: sum.splits prod.splits)

lemma tame_reconcileClaimed: "tame (reconcileClaimed lib ord v nc nn)"
  unfolding reconcileClaimed_def
  by (auto intro!: tame_bindC tame_reconcileSubnet tame_parts split: option.splits)

lemma tame_strictOrWarn: "tame cont \<Longrightarrow> tame (strictOrWarn lib v nc unset msg key cont)"
  unfolding strictOrWarn_def by (auto intro!: tame_bindC tame_parts)

lemma tame_reconcileOurs: "tame (reconcileOurs lib ord v ns nc nn fb)"
  unfolding reconcileOurs_def by (auto simp: Let_def intro!: tame_strictOrWarn tame_reconcileClaimed)

lemma tame_Reconcile: "tame (Reconcile lib ord v ns name)"
  unfolding Reconcile_def
  by (auto intro!: tame_bindC tame_reconcileOurs tame_parts split: sum.splits getError.splits option.splits prod.splits)

section \<open>Pools of reconciles\<close>

text \<open>One reconcile for each pair of a namespace and a name.\<close>

definition reconciles ::
    "vitiLib \<Rightarrow> (string list \<Rightarrow> string list) \<Rightarrow> viper \<Rightarrow> (string \<times> string) list \<Rightarrow> reconcileResult cprog list" where
  "reconciles lib ord v reqs = map (\<lambda>(ns, name). Reconcile lib ord v ns name) reqs"

lemma reconciles_tame: "t < length reqs \<Longrightarrow> tame (reconciles lib ord v reqs ! t)"
  by (simp add: reconciles_def tame_Reconcile case_prod_beta)

lemma mutexes_ok_perform: "mutexes_ok p h \<Longrightarrow> perform W p w = Some (p', w') \<Longrightarrow> mutexes_ok p' h"
  by (cases p) (auto simp: map_prod_def split: prod.splits)

interpretation mutexes: pool_logic W "\<lambda>t p (h :: (string \<times> unit) option) w. mutexes_ok p (map_option fst h)" "\<lambda>w. True" for W
  by unfold_locales (auto dest: mutexes_ok_perform)

text \<open>
  C10: any number of reconciles run in parallel, over a world that answers as it likes,
  always come to rest: there is no infinite run, and in every reachable state some
  reconcile can move unless all have ended, so the mutexes cannot deadlock and no mutex is
  released that is not held.
\<close>

theorem Reconciles_complete:
  assumes reach: "pool_reach W (pool_init (reconciles lib ord v reqs) w) s"
  shows "(all_done s \<or> (\<exists>t s'. pool_step W t s = Some s')) \<and>
    (\<exists>s'. pool_reach W s s' \<and> all_done s') \<and>
    \<not> (\<exists>f. f 0 = s \<and> (\<forall>n. \<exists>t. pool_step W t (f n) = Some (f (Suc n))))"
proof -
  have "mutexes.pool_inv (pool_init (reconciles lib ord v reqs) w)"
    using reconciles_tame by (intro mutexes.inv_init) (auto simp: tame_def reconciles_def)
  then have inv: "mutexes.pool_inv s" by (rule mutexes.inv_reach [OF reach])
  have "\<not> (\<exists>f. \<forall>n. (f (Suc n), f n) \<in> {(s', s :: (reconcileResult, 'a) pool). \<exists>t. pool_step W t s = Some s'})"
    using wf_pool [of W] unfolding wf_iff_no_infinite_down_chain by blast
  then show ?thesis using mutexes.progress [OF inv] mutexes.completes [OF inv] by blast
qed

section \<open>No prefix is stored twice\<close>

text \<open>What is assumed of the world: Kea stores subnets as \<open>subnet_server\<close> says, and nothing
  else changes them.\<close>

definition subnet_world :: "'w worldOps \<Rightarrow> ('w \<Rightarrow> (string \<times> int) list) \<Rightarrow> bool" where
  "subnet_world W subs \<longleftrightarrow>
     subnet_server (w_kea W) subs \<and> api_rel W (\<lambda>w w'. subs w' = subs w) \<and>
     (\<forall>r w. Command r \<noteq> ''subnet4-add'' \<longrightarrow> subs (snd (w_kea W r w)) = subs w)"

definition guarded_inv :: "('w \<Rightarrow> (string \<times> int) list) \<Rightarrow> 'a cprog \<Rightarrow> (string \<times> knowledge) option \<Rightarrow> 'w \<Rightarrow> bool" where
  "guarded_inv subs p h w \<longleftrightarrow> guardedC p h \<and> (\<forall>c kn. h = Some (c, kn) \<longrightarrow> knows (subs w) c True kn)"

lemma perform_api:
  assumes "perform W p w = Some (p', w')" "\<And>r k. p \<noteq> CKea r k"
  shows "api_rel W R \<Longrightarrow> R w w'" "guardedC p h \<Longrightarrow> guardedC p' h"
  using assms by (cases p; auto simp: api_rel_def map_prod_def split: prod.splits; metis snd_conv)+

text \<open>An effect changes the subnets only by adding one under its mutex.\<close>

lemma guarded_inv_effect:
  assumes inv: "guarded_inv subs p h w" and W: "subnet_world W subs" and p: "perform W p w = Some (p', w')"
  shows "\<exists>h'. map_option fst h' = map_option fst h \<and> guarded_inv subs p' h' w' \<and>
    (subs w' = subs w \<or> (\<exists>c i. h = Some (c, Absent) \<and> map_of (subs w) c = None \<and> subs w' = subs w @ [(c, i)]))"
proof (cases "\<exists>r k. p = CKea r k")
  case False
  then have "subs w' = subs w" "guardedC p' h"
    using perform_api [OF p] inv W by (auto simp: guarded_inv_def subnet_world_def)
  then show ?thesis using inv by (intro exI [of _ h]) (simp add: guarded_inv_def)
next
  case True
  then obtain r k where CKea: "p = CKea r k" by blast
  obtain x where x: "w_kea W r w = (x, w')" "p' = k x" using p CKea by (auto simp: map_prod_def split: prod.splits)
  have srv: "subnet_server (w_kea W) subs" using W by (simp add: subnet_world_def)
  show ?thesis
  proof (cases h)
    case None
    have "Command r \<noteq> ''subnet4-add''" using inv None CKea by (simp add: guarded_inv_def)
    then have "subs (snd (w_kea W r w)) = subs w" using W by (simp add: subnet_world_def)
    then have s: "subs w' = subs w" using x(1) by simp
    have "list_failure x \<or> (\<exists>m. list_reply m x)" if "r = subnet4_list"
      using subnet_server_list [OF srv] x(1) that by blast
    then have "guarded_inv subs p' None w'" using inv None CKea x(2) by (simp add: guarded_inv_def)
    then show ?thesis using s None by auto
  next
    case (Some ckn)
    then obtain c kn where h: "h = Some (c, kn)" by (cases ckn) simp
    have kn: "knows (subs w) c True kn" and g: "guardedC (CKea r k) (Some (c, kn))"
      using inv h CKea by (simp_all add: guarded_inv_def)
    from g show ?thesis
    proof (cases rule: guardedC_KeaE)
      case list
      have w': "w' = w" and reply: "list_reply (map_of (subs w)) x \<or> list_failure x"
        using subnet_server_list [OF srv] x(1) list(1) by auto
      have "kn = Absent \<longrightarrow> map_of (subs w) c = None" using kn by (auto simp: knows_def)
      then have "\<exists>kn'. guarded_inv subs p' (Some (c, kn')) w'"
        using reply list(2,3) kn knows_learn_list [of "subs w" c True] x(2) w' unfolding guarded_inv_def by blast
      then show ?thesis using w' h by auto
    next
      case (add cfg i)
      have none: "map_of (subs w) c = None" using kn add(3) by (simp add: knows_def)
      have srv': "subs w' = subs w @ [(c, i)] \<or> subs w' = subs w \<and> \<not> accepted x"
        using subnet_server_add [OF srv] x(1) add(1,2) by blast
      then have "knows (subs w') c True (learn_add i x)" using none by (auto simp: knows_def learn_add_def map_add_def)
      then have "guarded_inv subs p' (Some (c, learn_add i x)) w'" using add(4) x(2) by (simp add: guarded_inv_def)
      then show ?thesis using srv' none add(3) h by auto
    qed
  qed
qed

interpretation subnets: pool_logic W "\<lambda>t. guarded_inv subs"
  "\<lambda>w. subnet_world W subs \<and> (\<forall>c. entries c (subs w) \<le> 1)" for W subs
proof unfold_locales
  fix p p' h w w'
  assume i: "guarded_inv subs p h w" and G: "subnet_world W subs \<and> (\<forall>c. entries c (subs w) \<le> 1)"
    and p: "perform W p w = Some (p', w')"
  obtain h' where h': "map_option fst h' = map_option fst h" "guarded_inv subs p' h' w'"
    and s: "subs w' = subs w \<or> (\<exists>c i. h = Some (c, Absent) \<and> map_of (subs w) c = None \<and> subs w' = subs w @ [(c, i)])"
    using guarded_inv_effect [OF i conjunct1 [OF G] p] by blast
  have "entries c (subs w') \<le> 1" for c using s G by (auto simp: entries_zero [symmetric])
  then show "(subnet_world W subs \<and> (\<forall>c. entries c (subs w') \<le> 1)) \<and>
      (\<exists>h'. map_option fst h' = map_option fst h \<and> guarded_inv subs p' h' w')"
    using h' G by blast
  fix q hq
  assume q: "guarded_inv subs q hq w" "h = None \<or> map_option fst hq \<noteq> map_option fst h"
  show "guarded_inv subs q hq w'"
    using s q knows_append_other unfolding guarded_inv_def by fastforce
qed (auto simp: guarded_inv_def knows_def split: if_splits)

lemma reconciles_no_duplicates:
  assumes W: "subnet_world W subs" and start: "\<And>c. entries c (subs w) \<le> 1"
    and reach: "pool_reach W (pool_init (reconciles lib ord v reqs) w) s"
  shows "entries c (subs (p_world s)) \<le> 1"
proof -
  have "subnets.pool_inv subs W (pool_init (reconciles lib ord v reqs) w)"
    using reconciles_tame W start by (intro subnets.inv_init) (auto simp: tame_def reconciles_def guarded_inv_def)
  then have "subnets.pool_inv subs W s" by (rule subnets.inv_reach [OF reach])
  then show ?thesis unfolding subnets.pool_inv_def by blast
qed

text \<open>
  C22: however whole reconciles interleave, over a Kea server that may fail at any request
  and may lose replies, no prefix is stored twice.
\<close>

theorem Reconciles_no_duplicate_subnets:
  assumes W: "subnet_world W subs" and start: "\<And>c. entries c (subs w) \<le> 1"
    and reach: "pool_reach W (pool_init (reconciles lib ord v reqs) w) s"
  shows "entries c (subs (p_world s)) \<le> 1"
  by (rule reconciles_no_duplicates [OF W start reach])

text \<open>Two reconciles of one resource whose prefix Kea does not have yet, in lockstep.\<close>

definition demo_pool :: "(reconcileResult, demoWorld) pool" where
  "demo_pool = schedule demo_ops (concat (replicate 14 [0, 1]))
     (pool_init (reconciles demo_lib rev demo_viper [(''ns1'', ''vm1''), (''ns1'', ''vm1'')]) (demo_world\<lparr>dw_subnets := []\<rparr>))"

lemma demo_pool_reach:
  "pool_reach demo_ops (pool_init (reconciles demo_lib rev demo_viper [(''ns1'', ''vm1''), (''ns1'', ''vm1'')])
     (demo_world\<lparr>dw_subnets := []\<rparr>)) demo_pool"
  unfolding demo_pool_def by (rule schedule_reach) (rule pool_start)

theorem Reconciles_complete_witness:
  "\<exists>s'. pool_reach demo_ops demo_pool s' \<and> all_done s'"
  using Reconciles_complete [OF demo_pool_reach] by blast

lemma subnet_world_demo: "subnet_world demo_ops dw_subnets"
proof -
  have "subnet_server demo_kea dw_subnets"
    by (auto simp: subnet_server_def demo_kea_def sk_send_def list_reply_def subnetListResponse_def idx_def
      findSubnetID_entries accepted_def zero_Response_def)
  then show ?thesis
    by (auto simp: subnet_world_def api_rel_def demo_ops_def demo_kea_def sk_send_def split: prod.splits)
qed

lemma demo_pool_subnets: "dw_subnets (p_world demo_pool) = [(''10.0.0.0/24'', 1)]"
  by code_simp

theorem Reconciles_no_duplicate_subnets_witness:
  "entries ''10.0.0.0/24'' [(''10.0.0.0/24'', 1)] \<le> 1"
proof -
  have "entries c (dw_subnets (demo_world\<lparr>dw_subnets := []\<rparr>)) \<le> 1" for c by (simp add: entries_def)
  from Reconciles_no_duplicate_subnets [OF subnet_world_demo this demo_pool_reach] show ?thesis
    unfolding demo_pool_subnets .
qed

end
