(* ===== verification/ReserveFacts.thy ===== *)
theory ReserveFacts
  imports PoolFacts
begin

text \<open>
  What a reconcile does to the reservations that Kea stores, as a rely-guarantee argument.
  \<open>store_world M\<close> is what is assumed of the world: reservations of the MACs in \<open>M\<close> are
  stored when Kea says so and are never lost. It holds of a world that only the reconcile
  itself changes and, with the disturbances of \<open>under\<close>, of one that others change as well;
  \<open>safe\<close> carries the result over to a pool of reconciles.
\<close>

section \<open>Ids that Kea's replies yield\<close>

text \<open>A part of a reply that lists objects: the elements of a JSON array, or one object.\<close>

definition listed :: "Response \<Rightarrow> string \<Rightarrow> go_map set" where
  "listed resp k = (case idx (Arguments resp) k of GoSlice xs \<Rightarrow> {m. GoMap m \<in> set xs} | GoMap m \<Rightarrow> {m} | _ \<Rightarrow> {})"

text \<open>
  Numbers arrive as JSON numbers; the ids of listed subnets are positive and fit in 32
  bits, as Kea documents.
\<close>

definition kea_ids :: "'w sender \<Rightarrow> bool" where
  "kea_ids send \<longleftrightarrow>
     (\<forall>r w resp w'. send r w = (Inr resp, w') \<longrightarrow>
        (\<forall>m\<in>listed resp ''subnets''. \<exists>i. 0 < i \<and> i < 2 ^ 32 \<and> idx m ''id'' = GoFloat (of_int i)) \<and>
        (\<forall>m\<in>listed resp ''leases'' \<union> listed resp ''hosts''. \<exists>f. idx m keaFieldSubnetID = GoFloat f))"

lemma subnetID_of_range:
  assumes ids: "kea_ids send" and reply: "send r w = (x, w')" and i: "subnetID_of p x = Inr i"
  shows "id_range i"
proof -
  obtain resp xs where x: "x = Inr resp" "idx (Arguments resp) ''subnets'' = GoSlice xs" "findSubnetID p xs = Some i"
    using i by (auto simp: subnetID_of_def split: sum.splits if_splits option.splits elim!: as_slice.elims)
  then obtain m where m: "GoMap m \<in> set xs" "subnetIntID_of m = Some i"
    using findSubnetID_Some [of p xs i] by (metis in_set_conv_decomp)
  then have "m \<in> listed resp ''subnets''" using x(2) by (simp add: listed_def)
  then obtain j where j: "0 < j" "j < 2 ^ 32" "idx m ''id'' = GoFloat (of_int j)"
    using ids reply x(1) unfolding kea_ids_def by blast
  then have "f64_to_int (of_int j) = j" by (intro f64_to_int_of_int) auto
  then show ?thesis using m(2) j by (simp add: subnetIntID_of_def)
qed

lemma GetSubnetID_range:
  assumes "kea_ids send" "fst (run send (GetSubnetID p) w) = Inr i"
  shows "id_range i"
  using assms(2) subnetID_of_range [OF assms(1)] by (auto simp: GetSubnetID_def split: prod.splits)

lemma nextSubnetID_range:
  assumes ids: "kea_ids send" and reply: "send r w = (x, w')"
  shows "id_range (nextSubnetID_of x)"
proof -
  have "id_range (wrap64 (maxSubnetID xs 0 + 1))"
    if x: "x = Inr resp" "idx (Arguments resp) ''subnets'' = GoSlice xs" for resp xs
  proof -
    have "j < 2 ^ 32" if e: "e \<in> set xs" "id_in e = Some j" for e j
    proof -
      obtain m where m: "e = GoMap m" "plainID_of m = Some j"
        using e(2) by (auto simp: id_in_def split: go_any.splits)
      then have "m \<in> listed resp ''subnets''" using x(2) e(1) by (simp add: listed_def)
      then obtain k where k: "0 < k" "k < 2 ^ 32" "idx m ''id'' = GoFloat (of_int k)"
        using ids reply x(1) unfolding kea_ids_def by blast
      then have "f64_to_int (of_int k) = k" by (intro f64_to_int_of_int) auto
      then show ?thesis using m(2) k by (simp add: plainID_of_def)
    qed
    then have "maxSubnetID xs 0 < 2 ^ 32" by (intro maxSubnetID_bound) auto
    moreover have "0 \<le> maxSubnetID xs 0" using maxSubnetID_ge [of 0 xs] by simp
    ultimately show ?thesis using wrap64_id [of "maxSubnetID xs 0 + 1"] by simp
  qed
  then show ?thesis
    by (auto simp: nextSubnetID_of_def split: sum.splits option.splits elim!: as_slice.elims)
qed

lemma GetOrCreateSubnet_range:
  assumes ids: "kea_ids send" and cfg: "sc_ID cfg = 0" and i: "fst (run send (GetOrCreateSubnet cfg) w) = Inr (i, b)"
  shows "id_range i"
proof -
  obtain r1 w1 where s1: "send subnet4_list w = (r1, w1)" by fastforce
  have "id_range j" if "run send (CreateSubnet cfg) u = (Inr j, u')" for j u u'
    using that cfg nextSubnetID_range [OF ids, of subnet4_list u]
    by (auto simp: CreateSubnet_def getNextSubnetID_def split: prod.splits sum.splits if_splits)
  moreover note subnetID_of_range [OF ids]
  ultimately show ?thesis
    using i s1 unfolding GetOrCreateSubnet_run [of send w r1 w1 cfg, OF s1]
    by (fastforce split: sum.splits if_splits prod.splits)
qed

lemma GetLease_range:
  assumes ids: "kea_ids send" and l: "fst (run send (GetLeaseIPv4ForMAC mac) w) = Inr (ip, i)"
  shows "i < 2 ^ 63"
proof -
  have sid: "sid_of m < 2 ^ 63"
    if s: "send r u = (Inr resp, u')" "m \<in> listed resp ''leases'' \<union> listed resp ''hosts''" for r u resp u' m
  proof -
    obtain f where "idx m keaFieldSubnetID = GoFloat f" using ids s unfolding kea_ids_def by blast
    then show ?thesis using f64_to_int_bounds [of f] by (simp add: sid_of_def)
  qed
  have best: "fst (snd (bestLease mac arr b)) < 2 ^ 63"
    if "\<And>m. GoMap m \<in> set arr \<Longrightarrow> sid_of m < 2 ^ 63" "fst (snd b) < 2 ^ 63" for mac arr b
    using that by (induction mac arr b rule: bestLease.induct) (auto simp: Let_def split: go_any.splits)
  have host: "i < 2 ^ 63" if "hostAddress hs = Some (ip, i)" "\<And>m. GoMap m \<in> set hs \<Longrightarrow> sid_of m < 2 ^ 63" for hs
    using that by (induction hs rule: hostAddress.induct) (auto split: go_any.splits if_splits)
  obtain x1 u1 where s1: "send (lease4_get (normMAC mac)) w = (x1, u1)" by fastforce
  obtain x2 u2 where s2: "send (reservationGetByID (normMAC mac)) u1 = (x2, u2)" by fastforce
  consider "leaseFromReply (normMAC mac) x1 = Some (ip, i)" | "addressFromReservations x2 = Some (ip, i)"
    using l s1 s2 by (auto simp: GetLeaseIPv4ForMAC_def Let_def split: option.splits if_splits)
  then show ?thesis
  proof cases
    case 1
    then obtain resp where r: "x1 = Inr resp" "Result resp = 0"
      by (auto simp: leaseFromReply_def split: sum.splits if_splits)
    have sids: "sid_of m < 2 ^ 63" if "m \<in> listed resp ''leases''" for m
      using sid [OF s1 [unfolded r(1)], of m] that by blast
    show ?thesis
    proof (cases "idx (Arguments resp) ''leases''")
      case (GoSlice arr)
      then have "fst (snd (bestLease (normMAC mac) arr ([], 0, 0))) < 2 ^ 63"
        using sids by (intro best) (auto simp: listed_def)
      then show ?thesis using 1 r GoSlice by (auto simp: leaseFromReply_def Let_def split: prod.splits if_splits)
    next
      case (GoMap m)
      then show ?thesis using 1 r sids [of m] by (auto simp: leaseFromReply_def listed_def Let_def split: if_splits)
    qed (use 1 r in \<open>simp_all add: leaseFromReply_def\<close>)
  next
    case 2
    then obtain resp hs where r: "x2 = Inr resp" "idx (Arguments resp) ''hosts'' = GoSlice hs" "hostAddress hs = Some (ip, i)"
      by (auto simp: addressFromReservations_def split: sum.splits if_splits option.splits elim!: as_slice.elims)
    show ?thesis
      by (rule host [OF r(3)], rule sid [of _ u1 resp u2]) (use s2 r(1,2) in \<open>auto simp: listed_def\<close>)
  qed
qed

section \<open>A world that keeps reservations\<close>

text \<open>The requests that change reservations, and those that cannot remove one of a MAC in \<open>M\<close>.\<close>

definition host_write :: "Request \<Rightarrow> bool" where
  "host_write r \<longleftrightarrow> Command r \<in> {''reservation-add'', ''reservation-del''}"

definition spares :: "string set \<Rightarrow> Request \<Rightarrow> bool" where
  "spares M r \<longleftrightarrow>
     \<not> host_write r \<or> (\<exists>mac i ip. r = reservation_add mac i ip) \<or> (\<exists>mac i. r = reservation_del mac i \<and> mac \<notin> M)"

definition kept :: "string set \<Rightarrow> host list \<Rightarrow> host list \<Rightarrow> bool" where
  "kept M hs hs' \<longleftrightarrow> (\<forall>h\<in>set hs. fst h \<in> M \<longrightarrow> h \<in> set hs')"

lemma kept_refl [simp]: "kept M hs hs"
  by (simp add: kept_def)

lemma kept_trans [trans]: "kept M hs hs' \<Longrightarrow> kept M hs' hs'' \<Longrightarrow> kept M hs hs''"
  by (auto simp: kept_def)

lemma kept_UNIV: "kept UNIV hs hs' \<longleftrightarrow> set hs \<subseteq> set hs'"
  by (auto simp: kept_def)

lemma reserved_kept: "reserved hs mac i \<Longrightarrow> mac \<in> M \<Longrightarrow> kept M hs hs' \<Longrightarrow> reserved hs' mac i"
  by (auto simp: reserved_def kept_def)

definition store_world :: "string set \<Rightarrow> 'w worldOps \<Rightarrow> ('w \<Rightarrow> host list) \<Rightarrow> bool" where
  "store_world M W hosts \<longleftrightarrow>
     (\<forall>mac\<in>M. \<forall>w x w'. w_kea W (reservationGetByID mac) w = (x, w') \<longrightarrow>
        hosts_reply (filter (\<lambda>h. fst h = mac) (hosts w')) x) \<and>
     (\<forall>mac\<in>M. \<forall>i ip w resp w'. w_kea W (reservation_add mac i ip) w = (Inr resp, w') \<longrightarrow> Result resp = 0 \<longrightarrow>
        (mac, i, TrimSpace ip) \<in> set (hosts w')) \<and>
     (\<forall>r w. spares M r \<longrightarrow> kept M (hosts w) (hosts (snd (w_kea W r w)))) \<and>
     api_rel W (\<lambda>w w'. kept M (hosts w) (hosts w')) \<and>
     kea_ids (w_kea W)"

lemma store_worldD:
  assumes "store_world M W hosts"
  shows "mac \<in> M \<Longrightarrow> w_kea W (reservationGetByID mac) w = (x, w') \<Longrightarrow> hosts_reply (filter (\<lambda>h. fst h = mac) (hosts w')) x"
    "mac \<in> M \<Longrightarrow> w_kea W (reservation_add mac i ip) w = (Inr resp, w') \<Longrightarrow> Result resp = 0 \<Longrightarrow>
      (mac, i, TrimSpace ip) \<in> set (hosts w')"
    "spares M r \<Longrightarrow> kept M (hosts w) (hosts (snd (w_kea W r w)))"
    "api_rel W (\<lambda>w w'. kept M (hosts w) (hosts w'))" "kea_ids (w_kea W)"
  using assms unfolding store_world_def by blast+

lemma read_spares: "read_cmd r \<Longrightarrow> spares M r"
  by (auto simp: read_cmd_def host_write_def spares_def)

lemma adds_spares: "adds r \<Longrightarrow> spares M r"
  by (auto simp: adds_def read_cmd_def host_write_def spares_def)

lemma del_spares: "mac \<notin> M \<Longrightarrow> spares M (reservation_del mac i)"
  unfolding spares_def by blast

text \<open>One effect, and a whole program.\<close>

lemma store_perform:
  assumes S: "store_world M W hosts" and p: "perform W p w = Some (p', w')" and r: "\<And>r k. p = CKea r k \<Longrightarrow> spares M r"
  shows "kept M (hosts w) (hosts w')"
proof (cases "\<exists>r k. p = CKea r k")
  case True
  then obtain r k where rk: "p = CKea r k" by blast
  then have "w' = snd (w_kea W r w)" using p by (auto simp: map_prod_def split: prod.splits)
  then show ?thesis using store_worldD(3) [OF S r [OF rk]] by simp
qed (use perform_api(1) [OF p _ store_worldD(4) [OF S]] in blast)

lemma store_runC:
  assumes S: "store_world M W hosts"
  shows "effects_only (kea_only (spares M)) p \<Longrightarrow> kept M (hosts w) (hosts (snd (runC W p w)))"
proof (induction p arbitrary: w rule: step_induct)
  case (step p)
  show ?case
  proof (cases rule: perform_cases [where p = p and W = W and w = w])
    case (mutex b c p')
    then show ?thesis using step.IH [of p'] step.prems by (simp add: after.intros)
  next
    case (effect p' w')
    note e = effects_only_perform [OF step.prems effect]
    have "kept M (hosts w) (hosts w')" by (rule store_perform [OF S effect]) (use e in auto)
    also have "kept M (hosts w') (hosts (snd (runC W p' w')))"
      using step.IH [OF perform_after [OF effect]] e by simp
    finally show ?thesis using runC_perform [OF effect] by simp
  qed simp
qed

section \<open>One reconcile\<close>

lemma EnsureReservation_reserves:
  assumes S: "store_world M W hosts" and M: "mac \<in> M" and mac: "normMAC mac = mac" "mac \<noteq> []" and i: "id_range i"
    and run: "run (w_kea W) (EnsureReservationForMACIP mac i ip) w = (Inr created, w')"
  shows "reserved (hosts w') mac i"
proof -
  obtain x w1 where x: "w_kea W (reservationGetByID mac) w = (x, w1)" by fastforce
  note reply = store_worldD(1) [OF S M x]
  have ex: "run (w_kea W) (macReservationExists mac i) w = (reserved (hosts w1) mac i, w1)"
    using x existsByID_hosts_reply [OF reply i] mac by (simp add: macReservationExists_def Let_def)
  obtain y w2 where y: "w_kea W (reservation_add mac i ip) w1 = (y, w2)" by fastforce
  show ?thesis
  proof (cases "reserved (hosts w1) mac i")
    case True
    then show ?thesis using run ex mac by (simp add: EnsureReservationForMACIP_def Let_def)
  next
    case False
    then obtain resp where "y = Inr resp" "Result resp = 0" "w' = w2"
      using run ex mac y by (auto simp: EnsureReservationForMACIP_def Let_def split: sum.splits if_splits)
    then show ?thesis using store_worldD(2) [OF S M, of i ip w1 resp w2] y by (auto simp: reserved_def)
  qed
qed

text \<open>A recorded MAC is reserved in the subnet recorded for it.\<close>

lemma processMAC_reserves:
  assumes S: "store_world M W hosts" and M: "mac \<in> M" and mac: "normMAC mac = mac" "mac \<noteq> []" and i: "id_range subnetID"
    and run: "runC W (processMAC subnetID ipnet mac s) w = (s', w')"
  shows "ms_SubnetID s' = ms_SubnetID s \<or>
    (\<exists>sid. ms_SubnetID s' = alist_put mac sid (ms_SubnetID s) \<and> reserved (hosts w') mac sid)"
proof -
  obtain l w1 where l: "run (w_kea W) (GetLeaseIPv4ForMAC mac) w = (l, w1)" by fastforce
  obtain lip lsid where res: "result_or ([], 0) l = (lip, lsid)" by fastforce
  have "lsid < 2 ^ 63"
    using GetLease_range [OF store_worldD(5) [OF S], of mac w lip lsid] l res by (cases l) auto
  then have sid: "id_range (if lsid > 0 then lsid else subnetID)" using i by simp
  let ?sid = "if lsid > 0 then lsid else subnetID" and ?ip = "ipInPrefix ipnet lip"
  obtain r w2 where e: "run (w_kea W) (EnsureReservationForMACIP mac ?sid ?ip) w1 = (r, w2)" by fastforce
  show ?thesis
  proof (cases r)
    case (Inl err)
    then show ?thesis using run l res e by (auto simp: processMAC_def Let_def)
  next
    case (Inr created)
    then have "ms_SubnetID s' = alist_put mac ?sid (ms_SubnetID s) \<and> w' = w2"
      using run l res e by (auto simp: processMAC_def Let_def)
    then show ?thesis using EnsureReservation_reserves [OF S M mac sid e [unfolded Inr]] by auto
  qed
qed

lemma adds_keep:
  assumes "store_world M W hosts" "effects_only (kea_only adds) p" "runC W p w = (a, w')"
  shows "kept M (hosts w) (hosts w')"
  using store_runC [OF assms(1) effects_only_mono [OF assms(2)], of w] assms(3) adds_spares by (auto simp: kea_only_def)

lemma set_alist_put: "set (alist_put k v xs) \<subseteq> insert (k, v) (set xs)"
  by (induction k v xs rule: alist_put.induct) auto

lemma processMACs_reserves:
  assumes S: "store_world M W hosts" and i: "id_range subnetID"
  shows "\<forall>m\<in>set macs. m \<in> M \<and> normMAC m = m \<and> m \<noteq> [] \<Longrightarrow>
    \<forall>(m, sid)\<in>set (ms_SubnetID s). m \<in> M \<and> reserved (hosts w) m sid \<Longrightarrow>
    runC W (processMACs subnetID ipnet macs s) w = (s', w') \<Longrightarrow>
    \<forall>(m, sid)\<in>set (ms_SubnetID s'). m \<in> M \<and> reserved (hosts w') m sid"
proof (induction macs arbitrary: s w)
  case (Cons mac macs)
  obtain s1 w1 where 1: "runC W (processMAC subnetID ipnet mac s) w = (s1, w1)" by fastforce
  then have step: "ms_SubnetID s1 = ms_SubnetID s \<or>
     (\<exists>sid. ms_SubnetID s1 = alist_put mac sid (ms_SubnetID s) \<and> reserved (hosts w1) mac sid)"
    using processMAC_reserves [OF S _ _ _ i 1] Cons.prems(1) by auto
  have "m \<in> M \<and> reserved (hosts w1) m sid" if m: "(m, sid) \<in> set (ms_SubnetID s1)" for m sid
  proof (cases "(m, sid) \<in> set (ms_SubnetID s)")
    case True
    then show ?thesis using Cons.prems(2) adds_keep [OF S adds.processMAC_ok 1] reserved_kept by fast
  next
    case False
    then obtain k where k: "ms_SubnetID s1 = alist_put mac k (ms_SubnetID s)" "reserved (hosts w1) mac k"
      using step m by auto
    then have "(m, sid) = (mac, k)" using m False set_alist_put [of mac k "ms_SubnetID s"] by auto
    then show ?thesis using k(2) Cons.prems(1) by simp
  qed
  then have r1: "\<forall>(m, sid)\<in>set (ms_SubnetID s1). m \<in> M \<and> reserved (hosts w1) m sid" by blast
  have rest: "runC W (processMACs subnetID ipnet macs s1) w1 = (s', w')" using Cons.prems(3) 1 by simp
  show ?case using Cons.IH [OF _ r1 rest] Cons.prems(1) by simp
qed simp

lemma resolveSubnetInfo_range:
  assumes S: "store_world M W hosts" and i: "id_range subnetID"
    and run: "runC W (resolveSubnetInfo subnetID p) w = ((sid, info), w')"
  shows "id_range sid"
  using run i GetSubnetID_range [OF store_worldD(5) [OF S], of p]
  by (auto simp: resolveSubnetInfo_def Let_def split: prod.splits sum.splits if_splits) (metis fst_conv)+

text \<open>The result of a reconcile that has nothing left to do.\<close>

definition success :: reconcileResult where
  "success = (\<lparr>RequeueAfter = RequeueDelaySuccess\<rparr>, None)"

lemma not_success [simp]: "doneResult \<noteq> success" "retryAfter RequeueDelayError \<noteq> success"
  by (simp_all add: success_def doneResult_def retryAfter_def RequeueDelaySuccess_def RequeueDelayError_def)

lemma reconcileReservations_reserves:
  assumes S: "store_world M W hosts" and ord: "map_order ord" and i: "id_range subnetID"
    and macs: "macs = extractMACs ord nc0" "set macs \<subseteq> M"
    and run: "runC W (reconcileReservations lib nc macs subnetID p) w = (success, w')"
  shows "\<forall>m\<in>set macs. \<exists>sid. reserved (hosts w') m sid"
proof -
  obtain sid info w1 where 1: "runC W (resolveSubnetInfo subnetID p) w = ((sid, info), w1)" by (metis prod.exhaust)
  obtain s w2 where 2: "runC W (processMACReservations macs sid p) w1 = (s, w2)" by fastforce
  let ?n = "case ParseCIDR (TrimSpace p) of Inl _ \<Rightarrow> None | Inr n \<Rightarrow> Some n"
  have loop: "runC W (processMACs sid ?n macs \<lparr>ms_IP = [], ms_SubnetID = [], ms_errs = []\<rparr>) w1 = (s, w2)"
    using 2 by (simp add: processMACReservations_def)
  have "ms_errs s = [] \<and> (\<exists>cs r cm ph st m ifs. w' = snd (runC W (report lib nc cs r cm ph st m ifs) w2))"
    using run 1 2
    by (auto simp: success_def reconcileReservations_def Let_def retryAfter_def RequeueDelaySuccess_def RequeueDelayError_def
      split: prod.splits if_splits) (metis snd_conv)+
  then have ok: "ms_errs s = []" "kept M (hosts w2) (hosts w')"
    using adds_keep [OF S report_kea] by (auto, metis prod.collapse)
  have inv: "mac_inv ?n macs s"
    using mac_inv_run [OF _ 2] extractMACs_distinct [OF ord] macs by simp
  have keys: "fst ` set (ms_SubnetID s) = set macs"
  proof (rule card_subset_eq)
    show "card (fst ` set (ms_SubnetID s)) = card (set macs)"
      using inv ok(1) extractMACs_distinct [OF ord, of nc0] macs(1) unfolding mac_inv_def
      by (metis add_0 distinct_card length_map list.set_map list.size(3))
  qed (use inv in \<open>auto simp: mac_inv_def\<close>)
  have valid: "\<forall>m\<in>set macs. m \<in> M \<and> normMAC m = m \<and> m \<noteq> []"
    using extractMACs_valid [OF ord, of _ nc0] macs by blast
  have "\<forall>(m, k)\<in>set (ms_SubnetID s). m \<in> M \<and> reserved (hosts w2) m k"
    by (rule processMACs_reserves [OF S resolveSubnetInfo_range [OF S i 1] valid _ loop]) simp
  then have "\<exists>sid. reserved (hosts w') m sid" if "(m, k) \<in> set (ms_SubnetID s)" for m k
    using reserved_kept [OF _ _ ok(2)] that by blast
  then show ?thesis unfolding keys [symmetric] by auto
qed

lemma reconcileSubnet_reserves:
  assumes S: "store_world M W hosts" and ord: "map_order ord" and M: "set (extractMACs ord nc) \<subseteq> M"
    and run: "runC W (reconcileSubnet lib ord v nc nn) w = (success, w')"
  shows "\<forall>m\<in>set (extractMACs ord nc). \<exists>sid. reserved (hosts w') m sid"
proof -
  let ?cfg = "\<lambda>pc. subnetCfg_of v (nn_IPv4Prefix nn) pc"
  obtain pc i b w1 where pc: "CalculatePoolFromCIDR (nn_IPv4Prefix nn) = Inr pc"
    and g: "run (w_kea W) (GetOrCreateSubnet (?cfg pc)) w = (Inr (i, b), w1)"
    and r: "runC W (reconcileReservations lib nc (extractMACs ord nc) i (nn_IPv4Prefix nn)) w1 = (success, w')"
    using run
    by (auto simp: reconcileSubnet_def Let_def success_def doneResult_def retryAfter_def
      RequeueDelaySuccess_def RequeueDelayError_def split: if_splits sum.splits prod.splits)
  have "sc_ID (?cfg pc) = 0" by (simp add: subnetCfg_of_def zero_SubnetConfig_def)
  then have i: "id_range i"
    using GetOrCreateSubnet_range [of "w_kea W" "?cfg pc" w i b] g store_worldD(5) [OF S] by simp
  show ?thesis using reconcileReservations_reserves [OF S ord i refl M r] .
qed

text \<open>Conditions and status updates leave the spec alone.\<close>

lemma report_spec:
  "returnsC (\<lambda>nc'. nc_Interfaces nc' = nc_Interfaces nc) (report lib nc cs r cm p st m ifs)"
proof -
  have c: "returnsC (\<lambda>(nc', _). nc_Interfaces nc' = nc_Interfaces nc) (setCondition lib nc cond)" for cond
    by (auto simp: setCondition_def Let_def split: option.splits sum.splits)
  have u: "returnsC (\<lambda>(nc', _). nc_Interfaces nc' = nc_Interfaces nc1) (updateStatus nc1 p st m ifs)" for nc1
    by (auto simp: updateStatus_def patchStatus_def split: prod.splits sum.splits)
  show ?thesis unfolding report_def
    by (rule returnsC_bindC [OF c]) (auto intro!: returnsC_bindC [OF u])
qed

lemma report_macs:
  assumes "runC W (report lib nc cs r cm p st m ifs) w = (nc', w')"
  shows "extractMACs ord nc' = extractMACs ord nc"
  using returnsC_run [OF report_spec [of nc lib cs r cm p st m ifs], of W w] assms by (simp add: extractMACs_def)

lemma reconcileClaimed_reserves:
  assumes S: "store_world M W hosts" and ord: "map_order ord" and M: "set (extractMACs ord nc) \<subseteq> M"
    and req: "\<And>e. snd (Requeue lib e) \<noteq> None"
    and run: "runC W (reconcileClaimed lib ord v nc nn) w = (success, w')"
  shows "\<forall>m\<in>set (extractMACs ord nc). \<exists>sid. reserved (hosts w') m sid"
proof -
  have ne: "Requeue lib e \<noteq> success" for e using req [of e] by (auto simp: success_def)
  let ?rep = "report lib nc ''False'' ''Reconciling'' ''reconciling'' ''Reconciling'' ''InProgress''
    ''Reconciliation in progress'' []"
  obtain nc' w1 where rep: "runC W ?rep w = (nc', w1)" by fastforce
  note macs = report_macs [OF rep, of ord]
  show ?thesis
  proof (cases "finalizers_Has lib nc finalizerName")
    case False
    then have "fst (runC W (reconcileClaimed lib ord v nc nn) w) \<noteq> success"
      by (simp add: reconcileClaimed_def ne not_success split: prod.splits option.splits)
    then show ?thesis using run by simp
  next
    case True
    then have "runC W (reconcileSubnet lib ord v nc nn) w = (success, w') \<or>
        runC W (reconcileSubnet lib ord v nc' nn) w1 = (success, w')"
      using run rep by (simp add: reconcileClaimed_def split: if_splits option.splits)
    then show ?thesis
      using reconcileSubnet_reserves [OF S ord M, of lib v nn w w']
        reconcileSubnet_reserves [OF S ord, of nc' lib v nn w1 w', unfolded macs] M by blast
  qed
qed

lemma strictOrWarn_success:
  assumes "runC W (strictOrWarn lib v nc unset msg key cont) w = (success, w')"
  shows "\<exists>w1. runC W cont w1 = (success, w')"
  using assms by (auto simp: strictOrWarn_def not_success [symmetric] split: if_splits prod.splits)

lemma reconcileOurs_reserves:
  assumes S: "store_world M W hosts" and ord: "map_order ord" and M: "set (extractMACs ord nc) \<subseteq> M"
    and req: "\<And>e. snd (Requeue lib e) \<noteq> None"
    and run: "runC W (reconcileOurs lib ord v ns nc nn fb) w = (success, w')"
  shows "\<forall>m\<in>set (extractMACs ord nc). \<exists>sid. reserved (hosts w') m sid"
proof -
  obtain w1 where "runC W (strictOrWarn lib v nc (\<not> IsProviderSet lib (nc_Provider nc)) providerMsg
          (''ncprov-'' @ nc_Namespace nc @ ''/'' @ nc_Name nc)
          (strictOrWarn lib v nc (nn_IPAllocation nn = None) (allocationMsg nn)
             (''ipalloc-'' @ nn_Namespace nn @ ''/'' @ nn_Name nn)
             (reconcileClaimed lib ord v nc nn))) w1 = (success, w')"
    using run by (auto simp: reconcileOurs_def Let_def split: if_splits prod.splits)
  then obtain w2 where "runC W (reconcileClaimed lib ord v nc nn) w2 = (success, w')"
    using strictOrWarn_success by metis
  then show ?thesis using reconcileClaimed_reserves [OF S ord M req] by blast
qed

text \<open>The rest of a reconcile once it has read its resource.\<close>

lemma Reconcile_rest_reserves:
  assumes S: "store_world M W hosts" and ord: "map_order ord" and M: "set (extractMACs ord nc) \<subseteq> M"
    and req: "\<And>e. snd (Requeue lib e) \<noteq> None"
    and k: "Reconcile lib ord v ns name = CGetNC ns name k"
    and run: "runC W (k (Inr nc)) w = (success, w')"
  shows "(\<forall>m\<in>set (extractMACs ord nc). \<exists>sid. reserved (hosts w') m sid) \<and> kept M (hosts w) (hosts w')"
proof -
  have ne: "Requeue lib e \<noteq> success" for e using req [of e] by (auto simp: success_def)
  have "returnsC (\<lambda>r. r \<noteq> success) (handleDeletion lib ord nc)"
    unfolding handleDeletion_def by (rule returnsC_bindI) (auto simp: ne split: option.splits)
  then have del: "runC W (handleDeletion lib ord nc) w \<noteq> (success, w')"
    using returnsC_run [of "\<lambda>r. r \<noteq> success" _ W w] by (metis fst_conv)
  obtain found w1 where f: "runC W (getNetworkNamespace ns (nc_NetworkNamespaceName nc)) w = (found, w1)" by fastforce
  obtain nn fb where ours: "runC W (reconcileOurs lib ord v ns nc nn fb) w1 = (success, w')"
    using run k f del not_success
    by (auto simp: Reconcile_def split: if_splits sum.splits prod.splits option.splits)
  have "kept M (hosts w) (hosts w1)" by (rule adds_keep [OF S getNetworkNamespace_kea f])
  also have "kept M (hosts w1) (hosts w')" by (rule adds_keep [OF S adds.reconcileOurs_ok ours])
  finally show ?thesis using reconcileOurs_reserves [OF S ord M req ours] by blast
qed

section \<open>Disturbances\<close>

text \<open>
  A world that others change as well: before each answer its state may move along \<open>R\<close>. The
  moves are listed in advance, and a reconcile runs alone over the disturbed world.
\<close>

definition disturb :: "('w \<Rightarrow> 'w \<Rightarrow> bool) \<Rightarrow> 'w \<times> 'w list \<Rightarrow> 'w \<times> 'w list" where
  "disturb R s = (case s of (w, []) \<Rightarrow> (w, []) | (w, v # vs) \<Rightarrow> (if R w v then v else w, vs))"

definition disturbed :: "('w \<Rightarrow> 'w \<Rightarrow> bool) \<Rightarrow> ('w \<Rightarrow> 'x \<times> 'w) \<Rightarrow> 'w \<times> 'w list \<Rightarrow> 'x \<times> ('w \<times> 'w list)" where
  "disturbed R f s = (case disturb R s of (w, vs) \<Rightarrow> (case f w of (x, w') \<Rightarrow> (x, (w', vs))))"

definition under :: "('w \<Rightarrow> 'w \<Rightarrow> bool) \<Rightarrow> 'w worldOps \<Rightarrow> ('w \<times> 'w list) worldOps" where
  "under R W =
     \<lparr>w_kea = (\<lambda>r. disturbed R (w_kea W r)),
      w_getNC = (\<lambda>ns n. disturbed R (w_getNC W ns n)),
      w_getNN = (\<lambda>ns n. disturbed R (w_getNN W ns n)),
      w_listNN = (\<lambda>ns. disturbed R (w_listNN W ns)),
      w_patch = (\<lambda>u b. disturbed R (w_patch W u b)),
      w_finalizer = (\<lambda>a nc n. disturbed R (w_finalizer W a nc n)),
      w_now = disturbed R (w_now W),
      w_warned = (\<lambda>k. disturbed R (w_warned W k))\<rparr>"

lemma disturbedE:
  assumes "disturbed R f (w, vs) = (x, s')" "\<And>w. R w w"
  obtains v w' vs' where "R w v" "f v = (x, w')" "s' = (w', vs')"
  using assms by (cases vs) (auto simp: disturbed_def disturb_def split: prod.splits if_splits)

text \<open>A disturbed world keeps reservations if the disturbances do.\<close>

lemma store_world_under:
  assumes S: "store_world M W hosts"
  shows "store_world M (under (\<lambda>w w'. kept M (hosts w) (hosts w')) W) (\<lambda>s. hosts (fst s))" (is "store_world M (under ?R W) _")
  unfolding store_world_def
proof (intro conjI ballI allI impI)
  have refl: "?R w w" for w by simp
  have step: "kept M (hosts (fst s)) (hosts (fst (snd (disturbed ?R f s))))"
    if f: "\<And>w. kept M (hosts w) (hosts (snd (f w)))" for f s
  proof -
    obtain w vs x s' where s: "s = (w, vs)" "disturbed ?R f (w, vs) = (x, s')" by (metis prod.exhaust)
    obtain v w' vs' where "?R w v" "f v = (x, w')" "s' = (w', vs')" by (rule disturbedE [OF s(2) refl])
    then show ?thesis using f [of v] s kept_trans by fastforce
  qed
  note api = store_worldD(4) [OF S, unfolded api_rel_def]
  show "api_rel (under ?R W) (\<lambda>s s'. kept M (hosts (fst s)) (hosts (fst s')))"
    unfolding api_rel_def under_def using api by (simp add: step)
  show "kept M (hosts (fst s)) (hosts (fst (snd (w_kea (under ?R W) r s))))" if "spares M r" for r s
    using step [of "w_kea W r" s] store_worldD(3) [OF S that] by (simp add: under_def)
  show "kea_ids (w_kea (under ?R W))"
    unfolding kea_ids_def
  proof (intro allI impI)
    fix r s resp s'
    assume "w_kea (under ?R W) r s = (Inr resp, s')"
    then obtain v w' where "w_kea W r v = (Inr resp, w')"
      by (cases s) (auto simp: under_def elim: disturbedE [OF _ refl])
    then show "(\<forall>m\<in>listed resp ''subnets''. \<exists>i. 0 < i \<and> i < 2 ^ 32 \<and> idx m ''id'' = GoFloat (of_int i)) \<and>
        (\<forall>m\<in>listed resp ''leases'' \<union> listed resp ''hosts''. \<exists>f. idx m keaFieldSubnetID = GoFloat f)"
      using store_worldD(5) [OF S] unfolding kea_ids_def by blast
  qed
  fix mac s x s'
  assume "mac \<in> M"
  { assume "w_kea (under ?R W) (reservationGetByID mac) s = (x, s')"
    then obtain v w' vs' where "w_kea W (reservationGetByID mac) v = (x, w')" "s' = (w', vs')"
      by (cases s) (auto simp: under_def elim: disturbedE [OF _ refl])
    then show "hosts_reply (filter (\<lambda>h. fst h = mac) (hosts (fst s'))) x"
      using store_worldD(1) [OF S \<open>mac \<in> M\<close>] by simp }
  fix i ip resp
  assume "w_kea (under ?R W) (reservation_add mac i ip) s = (Inr resp, s')" "Result resp = 0"
  then obtain v w' vs' where "w_kea W (reservation_add mac i ip) v = (Inr resp, w')" "s' = (w', vs')" "Result resp = 0"
    by (cases s) (auto simp: under_def elim: disturbedE [OF _ refl])
  then show "(mac, i, TrimSpace ip) \<in> set (hosts (fst s'))"
    using store_worldD(2) [OF S \<open>mac \<in> M\<close>] by simp
qed

text \<open>Whatever the disturbances, the program ends with \<open>Q\<close>.\<close>

primrec safe :: "('w \<Rightarrow> 'w \<Rightarrow> bool) \<Rightarrow> 'w worldOps \<Rightarrow> ('a \<Rightarrow> 'w \<Rightarrow> bool) \<Rightarrow> 'a cprog \<Rightarrow> 'w \<Rightarrow> bool" where
  "safe R W Q (CRet a) w = Q a w"
| "safe R W Q (CMutex b c p) w = safe R W Q p w"
| "safe R W Q (CKea r k) w = (\<forall>v x w'. R w v \<longrightarrow> w_kea W r v = (x, w') \<longrightarrow> safe R W Q (k x) w')"
| "safe R W Q (CGetNC ns n k) w = (\<forall>v x w'. R w v \<longrightarrow> w_getNC W ns n v = (x, w') \<longrightarrow> safe R W Q (k x) w')"
| "safe R W Q (CGetNN ns n k) w = (\<forall>v x w'. R w v \<longrightarrow> w_getNN W ns n v = (x, w') \<longrightarrow> safe R W Q (k x) w')"
| "safe R W Q (CListNN ns k) w = (\<forall>v x w'. R w v \<longrightarrow> w_listNN W ns v = (x, w') \<longrightarrow> safe R W Q (k x) w')"
| "safe R W Q (CPatch u b k) w = (\<forall>v x w'. R w v \<longrightarrow> w_patch W u b v = (x, w') \<longrightarrow> safe R W Q (k x) w')"
| "safe R W Q (CFinalizer a nc n k) w = (\<forall>v x w'. R w v \<longrightarrow> w_finalizer W a nc n v = (x, w') \<longrightarrow> safe R W Q (k x) w')"
| "safe R W Q (CNow k) w = (\<forall>v x w'. R w v \<longrightarrow> w_now W v = (x, w') \<longrightarrow> safe R W Q (k x) w')"
| "safe R W Q (CWarned s k) w = (\<forall>v x w'. R w v \<longrightarrow> w_warned W s v = (x, w') \<longrightarrow> safe R W Q (k x) w')"

lemma safe_perform: "safe R W Q p w \<Longrightarrow> R w w \<Longrightarrow> perform W p w = Some (p', w') \<Longrightarrow> safe R W Q p' w'"
  by (cases p) (auto simp: map_prod_def split: prod.splits)

lemma map_prod_id_eq: "map_prod k id z = (p', w') \<longleftrightarrow> (\<exists>x. z = (x, w') \<and> p' = k x)"
  by (cases z) auto

lemma safe_iff:
  "perform W p u \<noteq> None \<Longrightarrow>
   safe R W Q p w \<longleftrightarrow> (\<forall>v p' w'. R w v \<longrightarrow> perform W p v = Some (p', w') \<longrightarrow> safe R W Q p' w')"
  by (cases p) (auto simp: map_prod_id_eq)

lemma safe_stable:
  assumes "\<And>u v w. R u v \<Longrightarrow> R v w \<Longrightarrow> R u w" "\<And>a u v. R u v \<Longrightarrow> Q a u \<Longrightarrow> Q a v" "R w w'"
  shows "safe R W Q p w \<Longrightarrow> safe R W Q p w'"
proof (induction p rule: step_induct)
  case (step p)
  show ?case
  proof (cases rule: perform_cases [where p = p and W = W and w = w])
    case (ret a)
    then show ?thesis using step.prems assms(2,3) by simp
  next
    case (mutex b c p')
    then show ?thesis using step by (simp add: after.intros)
  next
    case (effect q u)
    then have ne: "perform W p w \<noteq> None" by simp
    show ?thesis using step.prems assms(1) [OF assms(3)] unfolding safe_iff [OF ne] by blast
  qed
qed

text \<open>A result over the disturbed world carries over.\<close>

lemma perform_under:
  "R w v \<Longrightarrow> perform W p v = Some (p', w') \<Longrightarrow> perform (under R W) p (w, v # vs) = Some (p', (w', vs))"
  by (cases p) (auto simp: map_prod_def under_def disturbed_def disturb_def split: prod.splits)

lemma safe_under:
  assumes "\<And>vs a w' vs'. runC (under R W) p (w, vs) = (a, (w', vs')) \<Longrightarrow> Q a w'"
  shows "safe R W Q p w"
  using assms
proof (induction p arbitrary: w rule: step_induct)
  case (step p)
  show ?case
  proof (cases rule: perform_cases [where p = p and W = W and w = w])
    case (ret a)
    then show ?thesis using step.prems [of "[]"] by simp
  next
    case (mutex b c p')
    then show ?thesis using step.IH [of p' w] step.prems by (simp add: after.intros)
  next
    case (effect q u)
    have "safe R W Q p' w'" if v: "R w v" "perform W p v = Some (p', w')" for v p' w'
    proof (rule step.IH)
      show "after p' p" by (rule perform_after [OF v(2)])
      fix vs a u' vs'
      assume "runC (under R W) p' (w', vs) = (a, (u', vs'))"
      then have "runC (under R W) p (w, v # vs) = (a, (u', vs'))"
        using runC_perform [OF perform_under [where R = R, OF v]] by simp
      then show "Q a u'" by (rule step.prems)
    qed
    then show ?thesis using safe_iff [of W p w R Q w] effect by blast
  qed
qed

section \<open>Pools of reconciles\<close>

text \<open>The requests of a program are all in \<open>P\<close> if the API answers as \<open>W\<close> can.\<close>

primrec kea_within :: "'w worldOps \<Rightarrow> (Request \<Rightarrow> bool) \<Rightarrow> 'a cprog \<Rightarrow> bool" where
  "kea_within W P (CRet a) = True"
| "kea_within W P (CMutex b c p) = kea_within W P p"
| "kea_within W P (CKea r k) = (P r \<and> (\<forall>x. kea_within W P (k x)))"
| "kea_within W P (CGetNC ns n k) = (\<forall>w x w'. w_getNC W ns n w = (x, w') \<longrightarrow> kea_within W P (k x))"
| "kea_within W P (CGetNN ns n k) = (\<forall>x. kea_within W P (k x))"
| "kea_within W P (CListNN ns k) = (\<forall>x. kea_within W P (k x))"
| "kea_within W P (CPatch u b k) = (\<forall>x. kea_within W P (k x))"
| "kea_within W P (CFinalizer a nc n k) = (\<forall>x. kea_within W P (k x))"
| "kea_within W P (CNow k) = (\<forall>x. kea_within W P (k x))"
| "kea_within W P (CWarned s k) = (\<forall>x. kea_within W P (k x))"

lemma kea_within_effects: "effects_only (kea_only P) p \<Longrightarrow> kea_within W P p"
  by (induction p) auto

lemma kea_within_perform:
  "kea_within W P p \<Longrightarrow> perform W p w = Some (p', w') \<Longrightarrow> kea_within W P p' \<and> (\<forall>r k. p = CKea r k \<longrightarrow> P r)"
  by (cases p) (auto simp: map_prod_id_eq)

text \<open>Resources that are being deleted have none of the MACs \<open>M\<close>.\<close>

definition deletions_spare :: "(string list \<Rightarrow> string list) \<Rightarrow> 'w worldOps \<Rightarrow> string set \<Rightarrow> bool" where
  "deletions_spare ord W M \<longleftrightarrow>
     (\<forall>ns n w nc w'. w_getNC W ns n w = (Inr nc, w') \<longrightarrow> nc_DeletionTimestamp nc \<noteq> None \<longrightarrow>
        set (extractMACs ord nc) \<inter> M = {})"

lemma Reconcile_within:
  assumes ord: "map_order ord" and del: "deletions_spare ord W M"
  shows "kea_within W (spares M) (Reconcile lib ord v ns name)"
proof -
  have d: "effects_only (kea_only (spares M)) (handleDeletion lib ord nc)"
    if "w_getNC W ns name w = (Inr nc, w')" "nc_DeletionTimestamp nc = Some t" for w nc w' t
  proof (rule effects_only_mono [OF handleDeletion_dels [OF ord]])
    have "set (extractMACs ord nc) \<inter> M = {}" using del that unfolding deletions_spare_def by blast
    then show "kea_only (spares M) e"
      if "kea_only (\<lambda>r. read_cmd r \<or> (\<exists>m\<in>set (extractMACs ord nc). \<exists>i. r = reservation_del m i)) e" for e
      using that read_spares del_spares unfolding kea_only_def by blast
  qed
  have ours: "effects_only (kea_only (spares M)) (reconcileOurs lib ord v ns nc nn fb)" for nc nn fb
    by (rule effects_only_mono [OF adds.reconcileOurs_ok]) (auto simp: kea_only_def adds_spares)
  have n: "effects_only (kea_only (spares M)) (bindC (getNetworkNamespace ns name') f)"
    if "\<And>x. effects_only (kea_only (spares M)) (f x)" for name' f and ns :: string
    by (intro effects_only_bindI kea_effects that)
  show ?thesis
    unfolding Reconcile_def
    by (auto intro!: kea_within_effects n d ours
      split: sum.splits getError.splits option.splits prod.splits)
qed

definition all_within :: "'w worldOps \<Rightarrow> string set \<Rightarrow> ('a, 'w) pool \<Rightarrow> bool" where
  "all_within W M s \<longleftrightarrow> list_all (kea_within W (spares M)) (p_progs s)"

lemma all_within_step:
  assumes "all_within W M s" "pool_step W t s = Some s'" "store_world M W hosts"
  shows "all_within W M s' \<and> kept M (hosts (p_world s)) (hosts (p_world s'))"
  using assms(2)
proof (cases rule: pool_step_cases)
  case (effect p' w')
  have p: "kea_within W (spares M) (p_progs s ! t)" using assms(1) effect(1) by (simp add: all_within_def list_all_length)
  note k = kea_within_perform [OF p effect(2)]
  then show ?thesis
    using assms(1) effect store_perform [OF assms(3) effect(2)]
    by (simp add: all_within_def list_all_length nth_list_update)
qed (use assms(1) in \<open>auto simp: all_within_def list_all_length nth_list_update; metis kea_within.simps(2)\<close>)+

lemma all_within_reach:
  "pool_reach W s0 s \<Longrightarrow> all_within W M s0 \<Longrightarrow> store_world M W hosts \<Longrightarrow> all_within W M s"
  by (induction rule: pool_reach.induct) (auto dest: all_within_step)

text \<open>One program of the pool is safe: the steps of the others are disturbances.\<close>

lemma safe_step:
  assumes "all_within W M s" "pool_step W u s = Some s'" "store_world M W hosts"
    and stable: "\<And>a w w'. kept M (hosts w) (hosts w') \<Longrightarrow> Q a w \<Longrightarrow> Q a w'"
    and safe: "safe (\<lambda>w w'. kept M (hosts w) (hosts w')) W Q (p_progs s ! t) (p_world s)"
  shows "safe (\<lambda>w w'. kept M (hosts w) (hosts w')) W Q (p_progs s' ! t) (p_world s')"
proof (cases "u = t")
  case True
  from assms(2) show ?thesis
  proof (cases rule: pool_step_cases)
    case (effect p' w')
    then show ?thesis using True safe_perform [OF safe] by simp
  qed (use safe True in simp_all)
next
  case False
  have "kept M (hosts (p_world s)) (hosts (p_world s'))" using all_within_step [OF assms(1-3)] by blast
  moreover have "p_progs s' ! t = p_progs s ! t" using assms(2) False by (cases rule: pool_step_cases) auto
  ultimately show ?thesis using safe_stable [OF kept_trans stable _ safe] by simp
qed

lemma safe_reach:
  assumes "pool_reach W s0 s" "all_within W M s0" "store_world M W hosts"
    and stable: "\<And>a w w'. kept M (hosts w) (hosts w') \<Longrightarrow> Q a w \<Longrightarrow> Q a w'"
    and safe: "safe (\<lambda>w w'. kept M (hosts w) (hosts w')) W Q (p_progs s0 ! t) (p_world s0)"
  shows "safe (\<lambda>w w'. kept M (hosts w) (hosts w')) W Q (p_progs s ! t) (p_world s)"
  using assms(1)
proof induction
  case (pool_next s u s')
  show ?case
    by (rule safe_step [OF all_within_reach [OF pool_next(1) assms(2,3)] pool_next(2) assms(3) stable pool_next(3)])
qed (rule safe)

end
