(* ===== verification/MainCmd.thy ===== *)
theory MainCmd
  imports ControllerStatusFacts
begin

text \<open>
  The command \<open>cmd/main.go\<close>: its command line, the options of the servers it configures
  and the order in which it starts the parts of the operator.

  The command line is parsed as the package \<open>flag\<close> of the standard library does. Flags that
  other packages register (the logger, the Kubernetes client) are a parameter \<open>extra\<close>: for
  each name, whether it is a boolean flag, and which values it takes.
\<close>

section \<open>The command line\<close>

record cmdFlags =
  metricsAddr :: string
  probeAddr :: string
  enableLeaderElection :: bool
  secureMetrics :: bool
  webhookCertPath :: string
  webhookCertName :: string
  webhookCertKey :: string
  metricsCertPath :: string
  metricsCertName :: string
  metricsCertKey :: string
  enableHTTP2 :: bool

definition defaultFlags :: cmdFlags where
  "defaultFlags =
     \<lparr>metricsAddr = ''0'', probeAddr = '':9995'', enableLeaderElection = False, secureMetrics = True,
      webhookCertPath = [], webhookCertName = ''tls.crt'', webhookCertKey = ''tls.key'',
      metricsCertPath = [], metricsCertName = ''tls.crt'', metricsCertKey = ''tls.key'', enableHTTP2 = False\<rparr>"

datatype flagValue =
    StringVar "string \<Rightarrow> cmdFlags \<Rightarrow> cmdFlags"
  | BoolVar "bool \<Rightarrow> cmdFlags \<Rightarrow> cmdFlags"
  | Foreign bool "string \<Rightarrow> bool"

type_synonym foreignFlags = "string \<rightharpoonup> bool \<times> (string \<Rightarrow> bool)"

definition formal :: "foreignFlags \<Rightarrow> string \<Rightarrow> flagValue option" where
  "formal extra name =
     (if name = ''metrics-bind-address'' then Some (StringVar (\<lambda>s. metricsAddr_update (\<lambda>_. s)))
      else if name = ''health-probe-bind-address'' then Some (StringVar (\<lambda>s. probeAddr_update (\<lambda>_. s)))
      else if name = ''leader-elect'' then Some (BoolVar (\<lambda>b. enableLeaderElection_update (\<lambda>_. b)))
      else if name = ''metrics-secure'' then Some (BoolVar (\<lambda>b. secureMetrics_update (\<lambda>_. b)))
      else if name = ''webhook-cert-path'' then Some (StringVar (\<lambda>s. webhookCertPath_update (\<lambda>_. s)))
      else if name = ''webhook-cert-name'' then Some (StringVar (\<lambda>s. webhookCertName_update (\<lambda>_. s)))
      else if name = ''webhook-cert-key'' then Some (StringVar (\<lambda>s. webhookCertKey_update (\<lambda>_. s)))
      else if name = ''metrics-cert-path'' then Some (StringVar (\<lambda>s. metricsCertPath_update (\<lambda>_. s)))
      else if name = ''metrics-cert-name'' then Some (StringVar (\<lambda>s. metricsCertName_update (\<lambda>_. s)))
      else if name = ''metrics-cert-key'' then Some (StringVar (\<lambda>s. metricsCertKey_update (\<lambda>_. s)))
      else if name = ''enable-http2'' then Some (BoolVar (\<lambda>b. enableHTTP2_update (\<lambda>_. b)))
      else map_option (\<lambda>(b, valid). Foreign b valid) (extra name))"

text \<open>\<open>strconv.ParseBool\<close>.\<close>

definition ParseBool :: "string \<Rightarrow> bool option" where
  "ParseBool s =
     (if s \<in> {''1'', ''t'', ''T'', ''true'', ''TRUE'', ''True''} then Some True
      else if s \<in> {''0'', ''f'', ''F'', ''false'', ''FALSE'', ''False''} then Some False
      else None)"

text \<open>One argument without its dashes, split at the first \<open>=\<close> that is not its first
  character.\<close>

definition splitFlag :: "string \<Rightarrow> string \<times> string option" where
  "splitFlag arg =
     (case arg of
        [] \<Rightarrow> ([], None)
      | c # cs \<Rightarrow>
          if CHR ''='' \<in> set cs
          then (c # takeWhile (\<lambda>d. d \<noteq> CHR ''='') cs, Some (tl (dropWhile (\<lambda>d. d \<noteq> CHR ''='') cs)))
          else (arg, None))"

datatype flagOutcome = Parsed cmdFlags | FlagExit int

definition setFlag :: "flagValue \<Rightarrow> string \<Rightarrow> cmdFlags \<Rightarrow> cmdFlags option" where
  "setFlag fv value f =
     (case fv of
        StringVar set_s \<Rightarrow> Some (set_s value f)
      | BoolVar set_b \<Rightarrow> map_option (\<lambda>b. set_b b f) (ParseBool value)
      | Foreign b valid \<Rightarrow> if valid value then Some f else None)"

definition isBoolFlag :: "flagValue \<Rightarrow> bool" where
  "isBoolFlag fv = (case fv of StringVar _ \<Rightarrow> False | BoolVar _ \<Rightarrow> True | Foreign b _ \<Rightarrow> b)"

text \<open>\<open>flag.Parse\<close>, which ends the process with status 2 on an error and with status 0 when
  help is asked for. Parsing stops at the first argument that is not a flag.\<close>

fun parseFlags :: "foreignFlags \<Rightarrow> string list \<Rightarrow> cmdFlags \<Rightarrow> flagOutcome" where
  "parseFlags extra [] f = Parsed f"
| "parseFlags extra (s # args) f =
     (if length s < 2 \<or> hd s \<noteq> CHR ''-'' \<or> s = ''--'' then Parsed f
      else let arg = (if s ! 1 = CHR ''-'' then drop 2 s else drop 1 s) in
        if hd arg = CHR ''-'' \<or> hd arg = CHR ''='' then FlagExit 2
        else (case splitFlag arg of (name, value) \<Rightarrow>
          (case formal extra name of
             None \<Rightarrow> FlagExit (if name = ''help'' \<or> name = ''h'' then 0 else 2)
           | Some fv \<Rightarrow>
               (case value of
                  Some v \<Rightarrow> (case setFlag fv v f of None \<Rightarrow> FlagExit 2 | Some f' \<Rightarrow> parseFlags extra args f')
                | None \<Rightarrow>
                    if isBoolFlag fv then
                      (case setFlag fv ''true'' f of None \<Rightarrow> FlagExit 2 | Some f' \<Rightarrow> parseFlags extra args f')
                    else (case args of
                        [] \<Rightarrow> FlagExit 2
                      | v # args' \<Rightarrow> (case setFlag fv v f of None \<Rightarrow> FlagExit 2 | Some f' \<Rightarrow> parseFlags extra args' f'))))))"

section \<open>The options of the servers\<close>

text \<open>A TLS option changes the list of application protocols (\<open>NextProtos\<close>).\<close>

type_synonym tlsOpt = "string list \<Rightarrow> string list"

definition disableHTTP2 :: tlsOpt where
  "disableHTTP2 protos = [''http/1.1'']"

record webhookOptions =
  wo_TLSOpts :: "tlsOpt list"
  wo_CertDir :: string
  wo_CertName :: string
  wo_KeyName :: string

record metricsOptions =
  mo_BindAddress :: string
  mo_SecureServing :: bool
  mo_TLSOpts :: "tlsOpt list"
  mo_AuthFilter :: bool
  mo_CertDir :: string
  mo_CertName :: string
  mo_KeyName :: string

record managerOptions =
  mg_Metrics :: metricsOptions
  mg_WebhookServer :: webhookOptions
  mg_HealthProbeBindAddress :: string
  mg_LeaderElection :: bool
  mg_LeaderElectionID :: string

definition tlsOpts_of :: "cmdFlags \<Rightarrow> tlsOpt list" where
  "tlsOpts_of f = (if \<not> enableHTTP2 f then [disableHTTP2] else [])"

definition webhookOptions_of :: "cmdFlags \<Rightarrow> webhookOptions" where
  "webhookOptions_of f =
     (let opts = \<lparr>wo_TLSOpts = tlsOpts_of f, wo_CertDir = [], wo_CertName = [], wo_KeyName = []\<rparr>
      in if webhookCertPath f \<noteq> []
         then opts\<lparr>wo_CertDir := webhookCertPath f, wo_CertName := webhookCertName f, wo_KeyName := webhookCertKey f\<rparr>
         else opts)"

definition metricsOptions_of :: "cmdFlags \<Rightarrow> metricsOptions" where
  "metricsOptions_of f =
     (let opts = \<lparr>mo_BindAddress = metricsAddr f, mo_SecureServing = secureMetrics f, mo_TLSOpts = tlsOpts_of f,
                  mo_AuthFilter = False, mo_CertDir = [], mo_CertName = [], mo_KeyName = []\<rparr>;
          opts = (if secureMetrics f then opts\<lparr>mo_AuthFilter := True\<rparr> else opts)
      in if metricsCertPath f \<noteq> []
         then opts\<lparr>mo_CertDir := metricsCertPath f, mo_CertName := metricsCertName f, mo_KeyName := metricsCertKey f\<rparr>
         else opts)"

definition managerOptions_of :: "cmdFlags \<Rightarrow> managerOptions" where
  "managerOptions_of f =
     \<lparr>mg_Metrics = metricsOptions_of f, mg_WebhookServer = webhookOptions_of f,
      mg_HealthProbeBindAddress = probeAddr f, mg_LeaderElection = enableLeaderElection f,
      mg_LeaderElectionID = ''2eca3363.vitistack.io''\<rparr>"

record logOptions =
  lo_Level :: string
  lo_ColorizeLine :: bool
  lo_AddCaller :: bool
  lo_JSON :: bool
  lo_DisableStacktrace :: bool
  lo_UnescapeMultiline :: bool

definition vlogsetup :: "viper \<Rightarrow> logOptions" where
  "vlogsetup v =
     \<lparr>lo_Level = GetString v LOG_LEVEL, lo_ColorizeLine = GetBool v LOG_COLORIZE,
      lo_AddCaller = GetBool v LOG_ADD_CALLER, lo_JSON = GetBool v LOG_JSON_LOGGING,
      lo_DisableStacktrace = GetBool v LOG_DISABLE_STACKTRANCE,
      lo_UnescapeMultiline = GetBool v LOG_UNESCAPE_MULTILINE\<rparr>"

section \<open>The start of the operator\<close>

text \<open>What \<open>main\<close> does, in order, as far as it gets.\<close>

datatype mainEvent =
    LogSetup logOptions
  | KeaClientSet keaClient
  | ChecksPassed
  | ManagerCreated managerOptions
  | ControllerRegistered int keaClient
  | HealthzAdded
  | ReadyzAdded
  | ManagerStarted

text \<open>
  What the process gets from outside. The Kea client is built twice, and the files and the
  Kubernetes API may have changed in between, so they are given for both times.
\<close>

record ('u, 'w) bootEnv =
  be_viper :: viper
  be_extra :: foreignFlags
  be_Getenv :: "string \<Rightarrow> string"
  be_os :: "nat \<Rightarrow> osEnv"
  be_kube :: "nat \<Rightarrow> secretGetter option"
  be_net :: "'u netEnv"
  be_Do :: "'w http_Do"
  be_k8s :: "string result option"
  be_crds :: bool
  be_config :: bool
  be_NewManager :: "managerOptions \<Rightarrow> go_error option"
  be_Complete :: "int \<Rightarrow> keaClient \<Rightarrow> go_error option"
  be_AddHealthz :: "go_error option"
  be_AddReadyz :: "go_error option"
  be_Start :: "go_error option"

type_synonym mainResult = "mainEvent list \<times> outcome_startup"

text \<open>An event, and then the rest unless the call failed, which ends the process with
  status 1.\<close>

definition must :: "mainEvent \<Rightarrow> go_error option \<Rightarrow> mainResult \<Rightarrow> mainResult" where
  "must e err rest = (case err of Some _ \<Rightarrow> ([], Exit 1) | None \<Rightarrow> (e # fst rest, snd rest))"

definition setupReconcilers :: "('u, 'w) bootEnv \<Rightarrow> keaClient \<Rightarrow> mainResult \<Rightarrow> mainResult" where
  "setupReconcilers env client rest =
     (let n = maxConcurrentReconciles (be_Getenv env MAX_CONCURRENT_RECONCILES)
      in must (ControllerRegistered n client) (be_Complete env n client) rest)"

definition mainManager :: "('u, 'w) bootEnv \<Rightarrow> cmdFlags \<Rightarrow> mainResult" where
  "mainManager env f =
     (if \<not> be_config env then ([], Exit 1)
      else
        let opts = managerOptions_of f;
            client = InitializeClients (be_os env 1) (be_viper env) (be_kube env 1)
        in must (ManagerCreated opts) (be_NewManager env opts)
             (case setupReconcilers env client
                     (must HealthzAdded (be_AddHealthz env)
                       (must ReadyzAdded (be_AddReadyz env)
                         ([ManagerStarted], case be_Start env of Some _ \<Rightarrow> Exit 1 | None \<Rightarrow> Continue))) of
                (es, out) \<Rightarrow> (KeaClientSet client # es, out)))"

definition main_cmd :: "('u, 'w) bootEnv \<Rightarrow> string list \<Rightarrow> 'w \<Rightarrow> mainResult" where
  "main_cmd env args w =
     (case parseFlags (be_extra env) args defaultFlags of
        FlagExit n \<Rightarrow> ([], Exit n)
      | Parsed f \<Rightarrow>
          let client = InitializeClients (be_os env 0) (be_viper env) (be_kube env 0);
              checked = fst (run (Send (be_net env) (be_os env 0) (be_Do env))
                               (InitialChecks True (be_k8s env) (be_crds env)) (client, w));
              before = [LogSetup (vlogsetup (be_viper env)), KeaClientSet client]
          in (case checked of
                Exit n \<Rightarrow> (before, Exit n)
              | Continue \<Rightarrow> (case mainManager env f of (es, out) \<Rightarrow> (before @ [ChecksPassed] @ es, out))))"

section \<open>Properties\<close>

text \<open>A command line that sets every flag.\<close>

definition boolArg :: "bool \<Rightarrow> string" where
  "boolArg b = (if b then ''true'' else ''false'')"

definition flagArgs :: "cmdFlags \<Rightarrow> string list" where
  "flagArgs f = map (\<lambda>(name, value). ''--'' @ name @ ''='' @ value)
     [(''metrics-bind-address'', metricsAddr f), (''health-probe-bind-address'', probeAddr f),
      (''leader-elect'', boolArg (enableLeaderElection f)), (''metrics-secure'', boolArg (secureMetrics f)),
      (''webhook-cert-path'', webhookCertPath f), (''webhook-cert-name'', webhookCertName f),
      (''webhook-cert-key'', webhookCertKey f), (''metrics-cert-path'', metricsCertPath f),
      (''metrics-cert-name'', metricsCertName f), (''metrics-cert-key'', metricsCertKey f),
      (''enable-http2'', boolArg (enableHTTP2 f))]"

lemma splitFlag_value:
  assumes "name \<noteq> []" "CHR ''='' \<notin> set name"
  shows "splitFlag (name @ ''='' @ v) = (name, Some v)"
proof -
  obtain c cs where n: "name = c # cs" using assms(1) by (cases name) auto
  have all: "\<forall>d\<in>set cs. d \<noteq> CHR ''=''" using assms(2) n by auto
  then have "takeWhile (\<lambda>d. d \<noteq> CHR ''='') (cs @ ''='' @ v) = cs"
    "dropWhile (\<lambda>d. d \<noteq> CHR ''='') (cs @ ''='' @ v) = ''='' @ v"
    by (induction cs) auto
  then show ?thesis by (simp add: splitFlag_def n)
qed

lemma parseFlags_value:
  assumes "name \<noteq> []" "CHR ''='' \<notin> set name" "hd name \<noteq> CHR ''-''" "formal extra name = Some fv"
  shows "parseFlags extra ((''--'' @ name @ ''='' @ v) # args) f =
    (case setFlag fv v f of None \<Rightarrow> FlagExit 2 | Some f' \<Rightarrow> parseFlags extra args f')"
proof -
  have "hd (name @ ''='' @ v) = hd name" "hd name \<noteq> CHR ''=''"
    using assms(1,2) by (cases name; auto)+
  then show ?thesis using assms splitFlag_value [OF assms(1,2), of v] by simp
qed

lemma ParseBool_boolArg [simp]: "ParseBool (boolArg b) = Some b"
  by (simp add: ParseBool_def boolArg_def)

text \<open>
  C24: the command line is read back as it was written: for every assignment of the
  flags, whatever characters the values have, the arguments that spell it out are parsed
  to exactly that assignment, whatever other packages add; and no argument leaves the
  defaults.
\<close>

theorem parseFlags_roundtrip:
  "parseFlags extra (flagArgs f) g = Parsed f \<and> parseFlags extra [] g = Parsed g"
  unfolding flagArgs_def by (simp add: parseFlags_value formal_def setFlag_def del: append.simps parseFlags.simps(2))

lemma InitialChecks_continue:
  assumes "fst (run send (InitialChecks True k8s crds) w) = Continue"
  shows "(\<exists>e\<in>set (exchanges send (InitialChecks True k8s crds) w). fst e = version_get \<and> is_ok (ping_reply (snd e))) \<and>
    crds \<and> (\<exists>version. k8s = Some (Inr version))"
proof -
  obtain res w' where r: "run send (checkKea True) w = (res, w')" by fastforce
  have res: "res = Continue" "crds" "\<exists>version. k8s = Some (Inr version)"
    using assms r by (auto simp: InitialChecks_def split: outcome_startup.splits option.splits sum.splits if_splits)
  let ?k = "exchanges send (checkKea True) w"
  have "checkKea True = pingLoop 5" by (simp add: checkKea_def maxRetries_def)
  then have "?k \<noteq> [] \<and> is_ok (ping_reply (snd (last ?k))) \<and> (\<forall>e\<in>set ?k. fst e = version_get)"
    using pingLoop_spec [of send 5 w] r res(1) by (simp add: Let_def del: pingLoop.simps)
  moreover have "set ?k \<subseteq> set (exchanges send (InitialChecks True k8s crds) w)" by (simp add: InitialChecks_def)
  ultimately show ?thesis using res last_in_set by blast
qed

lemma InitialChecks_exit:
  assumes "fst (run send (InitialChecks True k8s crds) w) = Exit n"
  shows "n = 1"
proof -
  have "checkKea True = pingLoop 5" by (simp add: checkKea_def maxRetries_def)
  then have "fst (run send (checkKea True) w) = Exit m \<Longrightarrow> m = 1" for m
    using pingLoop_spec [of send 5 w] by (simp add: Let_def del: pingLoop.simps)
  then show ?thesis
    using assms by (auto simp: InitialChecks_def split: prod.splits outcome_startup.splits option.splits sum.splits if_splits)
qed

lemma workers_positive: "1 \<le> maxConcurrentReconciles e"
  by (simp add: maxConcurrentReconciles_def Let_def split: option.splits)

lemma mainManager_result:
  assumes "mainManager env f = (es, out)"
    and "c1 = InitializeClients (be_os env 1) (be_viper env) (be_kube env 1)"
  shows "if ManagerStarted \<in> set es
    then (\<exists>n. 1 \<le> n \<and> es = [ManagerCreated (managerOptions_of f), KeaClientSet c1, ControllerRegistered n c1,
           HealthzAdded, ReadyzAdded, ManagerStarted]) \<and> (out = Continue \<longleftrightarrow> be_Start env = None)
    else out = Exit 1"
  using assms workers_positive [of "be_Getenv env MAX_CONCURRENT_RECONCILES"]
  by (auto simp: mainManager_def setupReconcilers_def must_def Let_def split: option.splits if_splits)

text \<open>
  C40: the manager, and with it the controller, is started only after the command line was
  accepted, Kea has answered the probe, the Kubernetes API is reachable and the resource
  definitions are installed; then everything is done exactly once and in order, the
  controller has at least one worker and the Kea client of the second initialization, and
  the process ends without error exactly if the manager does. If the manager is not
  started the process ends with a non-zero status, except when help was asked for.
\<close>

theorem main_cmd_start:
  assumes main: "main_cmd env args w = (es, out)"
    and c0: "c0 = InitializeClients (be_os env 0) (be_viper env) (be_kube env 0)"
    and c1: "c1 = InitializeClients (be_os env 1) (be_viper env) (be_kube env 1)"
  shows "if ManagerStarted \<in> set es
    then (\<exists>f n. parseFlags (be_extra env) args defaultFlags = Parsed f \<and> 1 \<le> n \<and>
        es = [LogSetup (vlogsetup (be_viper env)), KeaClientSet c0, ChecksPassed, ManagerCreated (managerOptions_of f),
              KeaClientSet c1, ControllerRegistered n c1, HealthzAdded, ReadyzAdded, ManagerStarted]) \<and>
      (\<exists>e\<in>set (exchanges (Send (be_net env) (be_os env 0) (be_Do env)) (InitialChecks True (be_k8s env) (be_crds env)) (c0, w)).
         fst e = version_get \<and> is_ok (ping_reply (snd e))) \<and>
      be_crds env \<and> (\<exists>version. be_k8s env = Some (Inr version)) \<and>
      (out = Continue \<longleftrightarrow> be_Start env = None)
    else (\<exists>n. out = Exit n \<and> (n = 0 \<longrightarrow> parseFlags (be_extra env) args defaultFlags = FlagExit 0))"
proof (cases "parseFlags (be_extra env) args defaultFlags")
  case (FlagExit n)
  then show ?thesis using main by (auto simp: main_cmd_def)
next
  case (Parsed f)
  let ?send = "Send (be_net env) (be_os env 0) (be_Do env)" and ?p = "InitialChecks True (be_k8s env) (be_crds env)"
  show ?thesis
  proof (cases "fst (run ?send ?p (c0, w))")
    case (Exit n)
    then have "out = Exit n \<and> ManagerStarted \<notin> set es" using main Parsed by (auto simp: main_cmd_def Let_def c0)
    then show ?thesis using InitialChecks_exit [OF Exit] by simp
  next
    case Continue
    obtain es' where m: "mainManager env f = (es', out)"
      "es = [LogSetup (vlogsetup (be_viper env)), KeaClientSet c0, ChecksPassed] @ es'"
      using main Parsed Continue c0 by (auto simp: main_cmd_def Let_def split: prod.splits)
    show ?thesis
      using mainManager_result [OF m(1) c1] InitialChecks_continue [OF Continue] m(2) Parsed
      by (auto split: if_splits)
  qed
qed

definition demo_boot :: "(string, string list) bootEnv" where
  "demo_boot =
     \<lparr>be_viper = demo_viper, be_extra = Map.empty, be_Getenv = (\<lambda>_. ''3''), be_os = (\<lambda>_. demo_os),
      be_kube = (\<lambda>_. None), be_net = demo_env, be_Do = demo_do, be_k8s = Some (Inr ''v1.33''), be_crds = True,
      be_config = True, be_NewManager = (\<lambda>_. None), be_Complete = (\<lambda>_ _. None), be_AddHealthz = None,
      be_AddReadyz = None, be_Start = None\<rparr>"

theorem main_cmd_start_witness:
  "snd (main_cmd demo_boot [''-metrics-secure=false'', ''--leader-elect''] []) = Continue \<and>
   length (fst (main_cmd demo_boot [''-metrics-secure=false'', ''--leader-elect''] [])) = 9"
proof -
  let ?m = "main_cmd demo_boot [''-metrics-secure=false'', ''--leader-elect''] []"
  have "list_ex (\<lambda>e. case e of ManagerStarted \<Rightarrow> True | _ \<Rightarrow> False) (fst ?m)" by code_simp
  then obtain e where "e \<in> set (fst ?m)" "case e of ManagerStarted \<Rightarrow> True | _ \<Rightarrow> False"
    unfolding list_ex_iff by blast
  then have st: "ManagerStarted \<in> set (fst ?m)" by (cases e rule: mainEvent.exhaust) simp_all
  have "be_Start demo_boot = None" by (simp add: demo_boot_def)
  moreover have "?m = (fst ?m, snd ?m)" by simp
  note main_cmd_start [OF this refl refl, unfolded if_P [OF st]]
  ultimately show ?thesis by auto
qed

end
