(* ===== verification/UnstructuredConv.thy ===== *)
theory UnstructuredConv
  imports ReconcileProg
begin

text \<open>
  The package \<open>internal/util/unstructuredconv\<close>: conversions between the typed resources and
  unstructured objects. The converter and the setters of an unstructured object belong to
  another repository and are parameters; an unstructured object is its map.
\<close>

record 'o converter =
  FromUnstructured :: "go_map \<Rightarrow> 'o result"
  ToUnstructured :: "'o \<Rightarrow> go_map result"

record setters =
  SetAPIVersion :: "string \<Rightarrow> go_map \<Rightarrow> go_map"
  SetKind :: "string \<Rightarrow> go_map \<Rightarrow> go_map"

definition ToNetworkConfiguration :: "NetworkConfiguration converter \<Rightarrow> go_map \<Rightarrow> NetworkConfiguration result" where
  "ToNetworkConfiguration conv u =
     (case FromUnstructured conv u of Inl err \<Rightarrow> Inl err | Inr out \<Rightarrow> Inr out)"

definition FromNetworkConfiguration ::
    "NetworkConfiguration converter \<Rightarrow> setters \<Rightarrow> NetworkConfiguration \<Rightarrow> go_map result" where
  "FromNetworkConfiguration conv st nc =
     (case ToUnstructured conv nc of
        Inl err \<Rightarrow> Inl err
      | Inr m \<Rightarrow> Inr (SetKind st ''NetworkConfiguration'' (SetAPIVersion st ''vitistack.io/v1alpha1'' m)))"

definition ToNetworkNamespace :: "NetworkNamespace converter \<Rightarrow> go_map \<Rightarrow> NetworkNamespace result" where
  "ToNetworkNamespace conv u =
     (case FromUnstructured conv u of Inl err \<Rightarrow> Inl err | Inr out \<Rightarrow> Inr out)"

definition FromNetworkNamespace ::
    "NetworkNamespace converter \<Rightarrow> setters \<Rightarrow> NetworkNamespace \<Rightarrow> go_map result" where
  "FromNetworkNamespace conv st nn =
     (case ToUnstructured conv nn of
        Inl err \<Rightarrow> Inl err
      | Inr m \<Rightarrow> Inr (SetKind st ''NetworkNamespace'' (SetAPIVersion st ''vitistack.io/v1alpha1'' m)))"

text \<open>
  If the converter reads back what it wrote and does not look at the version and the kind,
  then converting a resource and back gives the resource.
\<close>

lemma NetworkConfiguration_roundtrip:
  assumes "\<And>nc m. ToUnstructured conv nc = Inr m \<Longrightarrow> FromUnstructured conv m = Inr nc"
    and "\<And>v m. FromUnstructured conv (SetAPIVersion st v m) = FromUnstructured conv m"
    and "\<And>k m. FromUnstructured conv (SetKind st k m) = FromUnstructured conv m"
    and "FromNetworkConfiguration conv st nc = Inr u"
  shows "ToNetworkConfiguration conv u = Inr nc"
  using assms by (auto simp: FromNetworkConfiguration_def ToNetworkConfiguration_def split: sum.splits)

end
