(* ===== verification/RequestTypes.thy ===== *)
theory RequestTypes
  imports ControllerFacts
begin

text \<open>
  The types of the requests. The commands of Kea take a JSON object of arguments whose
  fields and their types depend on the command; \<open>schema\<close> writes down those of the
  commands this program uses. A message is typed if it is what \<open>json.Marshal\<close> makes of
  a request with a known command and arguments that have its fields. Every request of a
  reconcile and of the startup checks is typed, whatever Kea, the Kubernetes API and the
  resources say.
\<close>

section \<open>Types of JSON values\<close>

text \<open>Texts, non-empty texts, integers, positive integers, non-empty lists of non-empty
  texts, objects and non-empty lists of objects. A field of an object has a name, may be
  required, and has a type.\<close>

datatype jtype =
    KText
  | KName
  | KInt
  | KPos
  | KNames
  | KObj jfields
  | KObjs jfields
and jfields =
    NoFields
  | Field string bool jtype jfields

primrec field_names :: "jfields \<Rightarrow> string list" where
  "field_names NoFields = []"
| "field_names (Field k req t fs) = k # field_names fs"

fun is_name :: "jval \<Rightarrow> bool" where
  "is_name (JStr s) = (s \<noteq> [])"
| "is_name _ = False"

primrec has_type :: "jtype \<Rightarrow> jval \<Rightarrow> bool" and has_fields :: "jfields \<Rightarrow> (string \<times> jval) list \<Rightarrow> bool" where
  "has_type KText j = (case j of JStr _ \<Rightarrow> True | _ \<Rightarrow> False)"
| "has_type KName j = is_name j"
| "has_type KInt j = (case j of JInt _ \<Rightarrow> True | _ \<Rightarrow> False)"
| "has_type KPos j = (case j of JInt i \<Rightarrow> 0 < i | _ \<Rightarrow> False)"
| "has_type KNames j = (case j of JArr js \<Rightarrow> js \<noteq> [] \<and> list_all is_name js | _ \<Rightarrow> False)"
| "has_type (KObj fs) j =
     (case j of
        JObj m \<Rightarrow> distinct (map fst m) \<and> list_all (\<lambda>(k, _). k \<in> set (field_names fs)) m \<and> has_fields fs m
      | _ \<Rightarrow> False)"
| "has_type (KObjs fs) j =
     (case j of
        JArr js \<Rightarrow> js \<noteq> [] \<and> list_all (\<lambda>j. case j of
          JObj m \<Rightarrow> distinct (map fst m) \<and> list_all (\<lambda>(k, _). k \<in> set (field_names fs)) m \<and> has_fields fs m
        | _ \<Rightarrow> False) js
      | _ \<Rightarrow> False)"
| "has_fields NoFields m = True"
| "has_fields (Field k req t fs) m =
     ((case map_of m k of None \<Rightarrow> \<not> req | Some j \<Rightarrow> has_type t j) \<and> has_fields fs m)"

section \<open>The commands\<close>

definition option_fields :: jfields where
  "option_fields = Field ''name'' True KName (Field ''code'' True KPos (Field ''data'' True KName NoFields))"

definition pool_fields :: jfields where
  "pool_fields = Field ''pool'' True KName (Field ''require-client-classes'' False KNames NoFields)"

definition subnet4_fields :: jfields where
  "subnet4_fields =
     Field ''subnet'' True KName (Field ''id'' True KInt (Field ''valid-lifetime'' True KPos
    (Field ''renew-timer'' False KPos (Field ''rebind-timer'' False KPos
    (Field ''pools'' False (KObjs pool_fields) (Field ''option-data'' False (KObjs option_fields) NoFields))))))"

definition reservation_fields :: jfields where
  "reservation_fields =
     Field ''subnet-id'' True KInt (Field ''hw-address'' True KName (Field ''ip-address'' False KName NoFields))"

definition schema :: "(string \<times> jfields) list" where
  "schema =
     [(''version-get'', NoFields),
      (''subnet4-list'', NoFields),
      (''subnet4-get'', Field ''id'' True KInt NoFields),
      (''subnet4-add'', Field ''subnet4'' True (KObjs subnet4_fields) NoFields),
      (''lease4-get-by-hw-address'', Field ''hw-address'' True KName NoFields),
      (''reservation-get-all'', Field ''subnet-id'' True KInt NoFields),
      (''reservation-get-by-id'', Field ''identifier-type'' True KName (Field ''identifier'' True KName NoFields)),
      (''reservation-add'',
         Field ''reservation'' True (KObj reservation_fields) (Field ''operation-target'' True KName NoFields)),
      (''reservation-del'',
         Field ''subnet-id'' True KInt (Field ''identifier-type'' True KName
        (Field ''identifier'' True KName (Field ''operation-target'' True KName NoFields))))]"

text \<open>A message: an object with the command and, unless there are none, its arguments.\<close>

definition typed_message :: "jval \<Rightarrow> bool" where
  "typed_message j =
     (case j of
        JObj ((c, JStr cmd) # rest) \<Rightarrow>
          c = ''command'' \<and>
          (case map_of schema cmd of
             None \<Rightarrow> False
           | Some fs \<Rightarrow>
               (case rest of
                  [] \<Rightarrow> has_type (KObj fs) (JObj [])
                | [(a, args)] \<Rightarrow> a = ''arguments'' \<and> has_type (KObj fs) args
                | _ \<Rightarrow> False))
      | _ \<Rightarrow> False)"

definition typed :: "Request \<Rightarrow> bool" where
  "typed r = typed_message (Marshal r)"

text \<open>A reservation without a MAC address, with an empty address or with an address that is
  no text is not typed, and neither is an unknown command.\<close>

lemma typed_examples:
  "typed (mk_request ''reservation-add''
     [(''reservation'', GoMap [(''subnet-id'', GoInt 7), (''hw-address'', GoString ''aa:bb:cc:dd:ee:ff'')]),
      (''operation-target'', GoString ''all'')])"
  "\<not> typed (mk_request ''reservation-add''
     [(''reservation'', GoMap [(''subnet-id'', GoInt 7)]), (''operation-target'', GoString ''all'')])"
  "\<not> typed (mk_request ''reservation-add''
     [(''reservation'', GoMap [(''subnet-id'', GoInt 7), (''hw-address'', GoString ''aa:bb:cc:dd:ee:ff''),
        (''ip-address'', GoString [])]), (''operation-target'', GoString ''all'')])"
  "\<not> typed (mk_request ''subnet4-get'' [(''id'', GoString ''7'')])"
  "\<not> typed (mk_request ''subnet4-list'' [(''id'', GoInt 7)])"
  "\<not> typed (mk_request ''shutdown'' [])"
  by code_simp+

section \<open>The requests of the Kea service\<close>

lemma typed_mk_request:
  "typed (mk_request c a) \<longleftrightarrow>
   (case map_of schema c of None \<Rightarrow> False | Some fs \<Rightarrow> has_type (KObj fs) (JObj (map (map_prod id to_json) a)))"
  by (cases a) (auto simp: typed_def typed_message_def Marshal_def mk_request_def split: option.splits)

lemma schema_simps [simp]:
  "map_of schema ''version-get'' = Some NoFields"
  "map_of schema ''subnet4-list'' = Some NoFields"
  "map_of schema ''subnet4-get'' = Some (Field ''id'' True KInt NoFields)"
  "map_of schema ''subnet4-add'' = Some (Field ''subnet4'' True (KObjs subnet4_fields) NoFields)"
  "map_of schema ''lease4-get-by-hw-address'' = Some (Field ''hw-address'' True KName NoFields)"
  "map_of schema ''reservation-get-all'' = Some (Field ''subnet-id'' True KInt NoFields)"
  "map_of schema ''reservation-get-by-id'' =
     Some (Field ''identifier-type'' True KName (Field ''identifier'' True KName NoFields))"
  "map_of schema ''reservation-add'' =
     Some (Field ''reservation'' True (KObj reservation_fields) (Field ''operation-target'' True KName NoFields))"
  "map_of schema ''reservation-del'' =
     Some (Field ''subnet-id'' True KInt (Field ''identifier-type'' True KName
       (Field ''identifier'' True KName (Field ''operation-target'' True KName NoFields))))"
  by (simp_all add: schema_def)

lemma typed_lookups [simp]:
  "typed version_get" "typed subnet4_list"
  "typed (mk_request ''subnet4-get'' [(''id'', GoInt i)])"
  "typed (mk_request ''reservation-get-all'' [(keaFieldSubnetID, GoInt i)])"
  "mac \<noteq> [] \<Longrightarrow> typed (reservationGetByID mac)"
  "mac \<noteq> [] \<Longrightarrow> typed (lease4_get mac)"
  by (simp_all add: version_get_def subnet4_list_def reservationGetByID_def lease4_get_def typed_mk_request)

lemma typed_reservation_del:
  "mac \<noteq> [] \<Longrightarrow> typed (mk_request ''reservation-del''
     [(keaFieldSubnetID, GoInt i), (keaFieldIdentifierType, GoString keaFieldHWAddress),
      (keaFieldIdentifier, GoString mac), (''operation-target'', GoString ''all'')])"
  by (simp add: typed_mk_request)

lemma typed_reservation_add: "mac \<noteq> [] \<Longrightarrow> typed (reservation_add mac i ip)"
  by (simp add: reservation_add_def reservation_of_def reservation_fields_def typed_mk_request)

lemma typed_subnet4:
  assumes "sc_Subnet cfg \<noteq> []" "[] \<notin> set (sc_RequireClientClasses cfg)" "sc_DNS cfg = []"
  shows "typed (subnet4_add cfg i)"
  using assms
  by (cases "sc_RenewTimer cfg > 0"; cases "sc_RebindTimer cfg > 0"; cases "sc_PoolStart cfg = []"; cases "sc_PoolEnd cfg = []";
    cases "sc_Gateway cfg = []"; cases "sc_RequireClientClasses cfg = []")
   (simp_all add: subnet4_add_def subnet4_of_def optionData_of_def subnet4_fields_def pool_fields_def option_fields_def
    typed_mk_request list_all_iff, auto)

lemma typed_subnetCfg: "pfx \<noteq> [] \<Longrightarrow> typed (subnet4_add (subnetCfg_of v pfx pool) i)"
  by (rule typed_subnet4)
    (auto simp: subnetCfg_of_def zero_SubnetConfig_def requireClientClasses_def Let_def)

section \<open>Every request is typed\<close>

interpretation typed: reconcile_requests typed
proof
  show "calls_only typed (GetSubnetID p)" "calls_only typed (GetSubnetInfo i)" for p i
    by (simp_all add: GetSubnetID_def GetSubnetInfo_def)
  show "calls_only typed (GetLeaseIPv4ForMAC mac)" for mac
    by (auto simp: GetLeaseIPv4ForMAC_def Let_def split: option.splits)
  show "calls_only typed (EnsureReservationForMACIP mac i ip)" for mac i ip
    by (auto simp: EnsureReservationForMACIP_def macReservationExists_def Let_def typed_reservation_add
      intro!: calls_only_bindI split: option.splits)
  show "calls_only typed (GetOrCreateSubnet (subnetCfg_of v p pool))" for v p pool
  proof -
    have "sc_Subnet (subnetCfg_of v p pool) = p" by (simp add: subnetCfg_of_def)
    then have "calls_only typed (CreateSubnet (subnetCfg_of v p pool))"
      by (auto simp: CreateSubnet_def getNextSubnetID_def typed_subnetCfg)
    then show ?thesis
      by (auto simp: GetOrCreateSubnet_def getOrCreateBody_def GetSubnetID_def intro!: calls_only_bindI split: sum.splits)
  qed
  show "calls_only typed (DeleteReservationForMAC mac i)" for mac i
    by (simp add: DeleteReservationForMAC_def Let_def typed_reservation_del)
qed

lemma checkKea_typed: "calls_only typed (checkKea b)"
proof -
  have "calls_only typed (pingLoop n)" for n
    by (induction n) (auto simp: pingKea_def intro!: calls_only_bindI split: sum.splits)
  then show ?thesis by (simp add: checkKea_def)
qed

text \<open>
  C23: every message the operator sends to Kea has the type of its command. Whatever
  Kea answers and whatever the resources and the configuration contain, each request of
  a reconcile, as the JSON text that is sent, is one of the known commands with all of
  its required fields, each once and of its type, and with no others: MAC addresses,
  prefixes, addresses and pools are never empty, and an address, pool or option that is
  not known is left out rather than sent empty. The same holds of the startup checks.
\<close>

theorem requests_typed:
  "effects_only (kea_only (\<lambda>r. typed_message (Marshal r))) (Reconcile lib ord v ns name) \<and>
   calls_only (\<lambda>r. typed_message (Marshal r)) (checkKea b)"
  using typed.Reconcile_ok checkKea_typed by (simp add: typed_def [abs_def])

end
