(* ===== verification/OverHttp.thy ===== *)
theory OverHttp
  imports RequestTypes PoolFacts
begin

text \<open>
  Reconciles over the HTTP client. The theories on reconciles let any world answer the
  requests to Kea; here the world is the one of the running operator: the requests go
  through \<open>Send\<close>, as JSON text over HTTP, to the primary server and on failure to the
  secondary. The abstract counterpart is a list of servers of which the first that
  replies decides (\<open>first_reply\<close>), without a client, addresses or texts. The locale
  \<open>pool_simulation\<close> relates the runs of two worlds, and its interpretation shows that
  reconciles over the client have exactly the runs they have over the servers.
\<close>

section \<open>Servers\<close>

text \<open>What a server does with a message: it cannot be reached, its reply is lost (the
  command may have been carried out), or it replies.\<close>

datatype served = Unreachable go_error | Unread go_error | Reply Response

type_synonym 'w kea_server = "jval \<Rightarrow> 'w \<Rightarrow> served \<times> 'w"

text \<open>The documented form of a reply: the response as JSON, in an array, wrapped, or bare,
  printed with ASCII strings and nested within the decoder's limit.\<close>

definition plain_response :: "Response \<Rightarrow> bool" where
  "plain_response r \<longleftrightarrow>
     - (2 ^ 63) \<le> Result r \<and> Result r < 2 ^ 63 \<and> json_ok (GoMap (Arguments r)) \<and>
     json_range (to_json (GoMap (Arguments r))) \<and> json_plain (encResponse r) \<and>
     json_depth (encResponse r) + 2 \<le> maxNestingDepth"

definition bodies :: "Response \<Rightarrow> string set" where
  "bodies r = {json_text (JArr [encResponse r]), json_text (JObj [(''responses'', JArr [encResponse r])]),
     json_text (encResponse r)}"

definition delivers :: "served \<Rightarrow> httpOutcome \<Rightarrow> bool" where
  "delivers s out \<longleftrightarrow>
     (case s of
        Unreachable e \<Rightarrow> out = DoErr e
      | Unread e \<Rightarrow> out = ReadErr e
      | Reply r \<Rightarrow> plain_response r \<and> (\<exists>data\<in>bodies r. out = Body data))"

text \<open>The HTTP round trip to the address \<open>base\<close> delivers what the server \<open>srv\<close> does with the
  message in the body, for messages Kea knows (theory \<open>RequestTypes\<close>).\<close>

definition serves :: "'w http_Do \<Rightarrow> keaClient \<Rightarrow> string \<Rightarrow> 'w kea_server \<Rightarrow> bool" where
  "serves do c base srv \<longleftrightarrow>
     (\<forall>hc cmd w. typed cmd \<longrightarrow>
        delivers (fst (srv (Marshal cmd) w)) (fst (do hc (mkHTTPRequest c cmd base) w)) \<and>
        snd (do hc (mkHTTPRequest c cmd base) w) = snd (srv (Marshal cmd) w))"

definition urls_of :: "keaClient \<Rightarrow> string list" where
  "urls_of c = kc_BaseUrl c # (if kc_SecondaryUrl c \<noteq> [] then [kc_SecondaryUrl c] else [])"

text \<open>The configured URLs lead to the servers.\<close>

definition reaches :: "'u netEnv \<Rightarrow> 'w http_Do \<Rightarrow> keaClient \<Rightarrow> (string \<times> 'w kea_server) list \<Rightarrow> bool" where
  "reaches env do c servers \<longleftrightarrow>
     list_all2 (\<lambda>url (base, srv). buildBaseURL env (c\<lparr>kc_BaseUrl := url\<rparr>) = Inr base \<and>
       http_NewRequest env (base @ ''/'') = None \<and> serves do c base srv) (urls_of c) servers"

section \<open>The first server that replies\<close>

definition gave_up :: "string \<Rightarrow> served \<Rightarrow> go_error" where
  "gave_up base s =
     (case s of
        Unreachable e \<Rightarrow> ''request failed for '' @ base @ '': '' @ e
      | Unread e \<Rightarrow> ''failed to read response from '' @ base @ '': '' @ e
      | Reply r \<Rightarrow> [])"

fun first_reply :: "(string \<times> 'w kea_server) list \<Rightarrow> go_error \<Rightarrow> 'w sender" where
  "first_reply [] lastErr cmd w = (Inl (''all KEA servers failed: '' @ lastErr), w)"
| "first_reply ((base, srv) # servers) lastErr cmd w =
     (case srv (Marshal cmd) w of
        (Reply r, w') \<Rightarrow> (Inr (decoded r), w')
      | (s, w') \<Rightarrow> first_reply servers (gave_up base s) cmd w')"

lemma parseResponse_plain: "plain_response r \<Longrightarrow> data \<in> bodies r \<Longrightarrow> parseResponse data = Inr (decoded r)"
  unfolding plain_response_def bodies_def by (elim conjE) (rule parseResponse_encoded)

lemma mkHTTPRequest_config:
  assumes "config_of c = config_of c'"
  shows "mkHTTPRequest c = mkHTTPRequest c'"
proof -
  have "f (config_of c) = f (config_of c')" for f :: "keaClient \<Rightarrow> string" using assms by simp
  note this [of kc_BasicAuthUsername] this [of kc_BasicAuthPassword] this [of kc_ClientCertPath] this [of kc_ClientCertPEM]
  then have "kc_BasicAuthUsername c = kc_BasicAuthUsername c'" "kc_BasicAuthPassword c = kc_BasicAuthPassword c'"
    "kc_ClientCertPath c = kc_ClientCertPath c'" "kc_ClientCertPEM c = kc_ClientCertPEM c'"
    by (simp_all add: config_of_def)
  then show ?thesis by (intro ext) (simp add: mkHTTPRequest_def)
qed

lemma serves_config: "config_of c = config_of c' \<Longrightarrow> serves do c base srv = serves do c' base srv"
  by (simp only: serves_def mkHTTPRequest_config [of c c'])

text \<open>The loop of \<open>Send\<close> finds the first reply.\<close>

lemma sendLoop_first_reply:
  assumes "list_all2 (\<lambda>url (base, srv). buildBaseURL env (c\<lparr>kc_BaseUrl := url\<rparr>) = Inr base \<and>
      http_NewRequest env (base @ ''/'') = None \<and> serves do c base srv) urls servers"
    and "typed cmd"
  shows "\<exists>c'. sendLoop env do cmd urls e (c, w) = (fst (first_reply servers e cmd w), c', snd (first_reply servers e cmd w)) \<and>
    config_of c' = config_of c"
  using assms(1)
proof (induction urls servers arbitrary: e w rule: list_all2_induct)
  case (Cons url urls bs servers)
  obtain base srv where bs: "bs = (base, srv)" by fastforce
  let ?do = "do (kc_HttpClient c) (mkHTTPRequest c cmd base) w"
  have b: "buildBaseURL env (c\<lparr>kc_BaseUrl := url\<rparr>) = Inr base" "http_NewRequest env (base @ ''/'') = None"
    and d: "delivers (fst (srv (Marshal cmd) w)) (fst ?do)" "snd ?do = snd (srv (Marshal cmd) w)"
    using Cons.hyps assms(2) bs by (auto simp: serves_def)
  obtain out w' where out: "?do = (out, w')" by fastforce
  obtain s where s: "srv (Marshal cmd) w = (s, w')" using d(2) out by (cases "srv (Marshal cmd) w") simp
  show ?case
  proof (cases s)
    case (Reply r)
    then obtain data where "out = Body data" "parseResponse data = Inr (decoded r)"
      using d(1) out s parseResponse_plain by (auto simp: delivers_def)
    then show ?thesis using b out s Reply bs by (simp add: sendLoop_Cons del: sendLoop.simps(2))
  qed (use b d out s bs Cons.IH in \<open>auto simp: delivers_def sendLoop_Cons gave_up_def simp del: sendLoop.simps(2)\<close>)
qed simp

lemma Send_first_reply:
  assumes r: "reaches env do c0 servers" and c: "config_of c = config_of c0" and t: "typed cmd"
  shows "\<exists>c'. Send env os do cmd (c, w) = (fst (first_reply servers [] cmd w), c', snd (first_reply servers [] cmd w)) \<and>
    config_of c' = config_of c0"
proof -
  let ?c = "buildHTTPClient os c"
  have cf: "config_of ?c = config_of c0" using c by simp
  have u: "urls_of c0 = [kc_BaseUrl ?c] @ (if kc_SecondaryUrl ?c \<noteq> [] then [kc_SecondaryUrl ?c] else [])"
    using config_fields [OF cf] by (simp add: urls_of_def)
  have "list_all2 (\<lambda>url (base, srv). buildBaseURL env (?c\<lparr>kc_BaseUrl := url\<rparr>) = Inr base \<and>
      http_NewRequest env (base @ ''/'') = None \<and> serves do ?c base srv) (urls_of c0) servers"
    using r unfolding reaches_def
    by (rule list_all2_mono) (auto simp: buildBaseURL_config [OF cf] serves_config [OF cf])
  from sendLoop_first_reply [OF this t, of "[]" w]
  have "\<exists>c'. sendLoop env do cmd (urls_of c0) [] (?c, w) =
      (fst (first_reply servers [] cmd w), c', snd (first_reply servers [] cmd w)) \<and> config_of c' = config_of c0"
    using cf by simp
  moreover have "Send env os do cmd (c, w) = sendLoop env do cmd (urls_of c0) [] (?c, w)"
    by (simp only: Send_def Let_def prod.case u)
  ultimately show ?thesis by simp
qed

section \<open>Two worlds with the same runs\<close>

text \<open>
  A world \<open>V\<close> behaves like a world \<open>W\<close> under the projection \<open>abs\<close> of states, for programs and
  states that satisfy \<open>ok\<close>: the next effect is answered alike and leads to states that
  correspond. Then pools of programs have the same runs over both.
\<close>

definition map_world :: "('v \<Rightarrow> 'w) \<Rightarrow> ('a, 'v) pool \<Rightarrow> ('a, 'w) pool" where
  "map_world f s = \<lparr>p_progs = p_progs s, p_locks = p_locks s, p_world = f (p_world s)\<rparr>"

definition pool_all :: "('a cprog \<Rightarrow> bool) \<Rightarrow> ('v \<Rightarrow> bool) \<Rightarrow> ('a, 'v) pool \<Rightarrow> bool" where
  "pool_all P Q s \<longleftrightarrow> (\<forall>p\<in>set (p_progs s). P p) \<and> Q (p_world s)"

locale pool_simulation =
  fixes V :: "'v worldOps" and W :: "'w worldOps" and abs :: "'v \<Rightarrow> 'w" and ok :: "'a cprog \<Rightarrow> bool" and inv :: "'v \<Rightarrow> bool"
  assumes same_effect: "ok p \<Longrightarrow> inv v \<Longrightarrow> map_option (map_prod id abs) (perform V p v) = perform W p (abs v)"
    and keeps_ok: "ok p \<Longrightarrow> inv v \<Longrightarrow> perform V p v = Some (p', v') \<Longrightarrow> ok p' \<and> inv v'"
    and ok_mutex: "ok (CMutex b c p) \<Longrightarrow> ok p"
begin

lemma step_inv:
  assumes inv: "pool_all ok inv s" and step: "pool_step V t s = Some s'"
  shows "pool_all ok inv s'"
proof -
  have t: "t < length (p_progs s)" using step by (auto simp: pool_step_def split: if_splits)
  then have ok: "ok (p_progs s ! t)" using inv by (simp add: pool_all_def)
  from step show ?thesis
  proof (cases rule: pool_step_cases)
    case (effect p' v')
    then show ?thesis using keeps_ok [OF ok _ effect(2)] inv set_update_subset_insert [of "p_progs s" t p']
      by (auto simp: pool_all_def)
  next
    case (lock c p l)
    then show ?thesis using ok ok_mutex inv set_update_subset_insert [of "p_progs s" t p] by (auto simp: pool_all_def)
  next
    case (unlock c p l)
    then show ?thesis using ok ok_mutex inv set_update_subset_insert [of "p_progs s" t p] by (auto simp: pool_all_def)
  qed
qed

lemma step_abs:
  assumes inv: "pool_all ok inv s"
  shows "pool_step W t (map_world abs s) = map_option (map_world abs) (pool_step V t s)"
proof (cases "t < length (p_progs s)")
  case True
  then have ok: "ok (p_progs s ! t)" "inv (p_world s)" using inv by (simp_all add: pool_all_def)
  note e = same_effect [OF ok, symmetric]
  show ?thesis
  proof (cases "p_progs s ! t")
    case (CMutex b c p)
    then show ?thesis using True by (simp add: pool_step_def map_world_def option.map_comp comp_def)
  qed (use True e in \<open>simp_all add: pool_step_def map_world_def map_prod_def case_prod_beta\<close>)
qed (simp add: pool_step_def map_world_def)

lemma reach_abs:
  assumes "pool_reach V s0 s" "pool_all ok inv s0"
  shows "pool_all ok inv s \<and> pool_reach W (map_world abs s0) (map_world abs s)"
  using assms
proof (induction rule: pool_reach.induct)
  case (pool_next s t s')
  then show ?case using step_inv step_abs [of s t] by (auto intro: pool_reach.pool_next)
qed (auto intro: pool_start)

lemma reach_conc:
  assumes "pool_reach W a0 a" "a0 = map_world abs s0" "pool_all ok inv s0"
  shows "\<exists>s. pool_reach V s0 s \<and> map_world abs s = a"
  using assms
proof (induction rule: pool_reach.induct)
  case (pool_next a t a')
  then obtain s where s: "pool_reach V s0 s" "map_world abs s = a" by blast
  then have "pool_all ok inv s" using reach_abs pool_next.prems by blast
  then obtain s' where "pool_step V t s = Some s'" "map_world abs s' = a'"
    using pool_next.hyps(2) step_abs [of s t] s(2) by (cases "pool_step V t s") auto
  then show ?case using s(1) by (auto intro: pool_reach.pool_next)
qed (auto intro: pool_start)

lemma reach_iff: "pool_all ok inv s0 \<Longrightarrow> pool_reach W (map_world abs s0) a \<longleftrightarrow> (\<exists>s. pool_reach V s0 s \<and> map_world abs s = a)"
  using reach_abs reach_conc by blast

end

section \<open>The world of the running operator\<close>

definition beside :: "('w \<Rightarrow> 'x \<times> 'w) \<Rightarrow> 'c \<times> 'w \<Rightarrow> 'x \<times> ('c \<times> 'w)" where
  "beside f cw = (case f (snd cw) of (x, w') \<Rightarrow> (x, (fst cw, w')))"

text \<open>The client beside the rest of the world \<open>W\<close>.\<close>

definition over_http ::
    "'u netEnv \<Rightarrow> osEnv \<Rightarrow> 'w http_Do \<Rightarrow> 'w worldOps \<Rightarrow> (keaClient \<times> 'w) worldOps" where
  "over_http env os do W =
     \<lparr>w_kea = Send env os do,
      w_getNC = (\<lambda>ns n. beside (w_getNC W ns n)), w_getNN = (\<lambda>ns n. beside (w_getNN W ns n)),
      w_listNN = (\<lambda>ns. beside (w_listNN W ns)), w_patch = (\<lambda>u b. beside (w_patch W u b)),
      w_finalizer = (\<lambda>a nc n. beside (w_finalizer W a nc n)), w_now = beside (w_now W),
      w_warned = (\<lambda>k. beside (w_warned W k))\<rparr>"

definition over_servers :: "(string \<times> 'w kea_server) list \<Rightarrow> 'w worldOps \<Rightarrow> 'w worldOps" where
  "over_servers servers W = W\<lparr>w_kea := first_reply servers []\<rparr>"

text \<open>The state of the client apart from its configuration, which cannot be observed by a
  program, is left out of the abstract state.\<close>

definition client_ok :: "'u netEnv \<Rightarrow> 'w http_Do \<Rightarrow> keaClient \<Rightarrow> (string \<times> 'w kea_server) list \<Rightarrow> keaClient \<times> 'w \<Rightarrow> bool" where
  "client_ok env do c0 servers cw \<longleftrightarrow> reaches env do c0 servers \<and> config_of (fst cw) = config_of c0"

lemma Send_client_ok:
  assumes "client_ok env do c0 servers cw" "typed cmd"
  shows "fst (Send env os do cmd cw) = fst (first_reply servers [] cmd (snd cw))"
    "snd (snd (Send env os do cmd cw)) = snd (first_reply servers [] cmd (snd cw))"
    "client_ok env do c0 servers (snd (Send env os do cmd cw))"
proof -
  obtain c w where cw: "cw = (c, w)" by fastforce
  obtain c' where "Send env os do cmd cw = (fst (first_reply servers [] cmd w), c', snd (first_reply servers [] cmd w))"
    "config_of c' = config_of c0"
    using Send_first_reply [of env do c0 servers c cmd os w] assms cw by (auto simp: client_ok_def)
  then show "fst (Send env os do cmd cw) = fst (first_reply servers [] cmd (snd cw))"
    "snd (snd (Send env os do cmd cw)) = snd (first_reply servers [] cmd (snd cw))"
    "client_ok env do c0 servers (snd (Send env os do cmd cw))"
    using assms(1) cw by (simp_all add: client_ok_def)
qed

interpretation http: pool_simulation "over_http env os do W" "over_servers servers W" snd
  "effects_only (kea_only typed) :: 'a cprog \<Rightarrow> bool" "client_ok env do c0 servers"
  for env :: "'u netEnv" and os and do :: "'w http_Do" and W servers c0
proof
  fix p p' :: "'a cprog" and v v'
  assume p: "effects_only (kea_only typed) p" and v: "client_ok env do c0 servers v"
  show "map_option (map_prod id snd) (perform (over_http env os do W) p v) = perform (over_servers servers W) p (snd v)"
    using p Send_client_ok(1,2) [OF v]
    by (cases p) (simp_all add: over_http_def over_servers_def beside_def map_prod_def case_prod_beta)
  assume step: "perform (over_http env os do W) p v = Some (p', v')"
  have "client_ok env do c0 servers v'"
    using step p v Send_client_ok(3) [OF v]
    by (cases p) (auto simp: over_http_def beside_def client_ok_def map_prod_def case_prod_beta)
  then show "effects_only (kea_only typed) p' \<and> client_ok env do c0 servers v'"
    using effects_only_perform [OF p step] by blast
qed simp

text \<open>The pool without the client.\<close>

definition without_client :: "('a, keaClient \<times> 'w) pool \<Rightarrow> ('a, 'w) pool" where
  "without_client s = \<lparr>p_progs = p_progs s, p_locks = p_locks s, p_world = snd (p_world s)\<rparr>"

lemma without_client_init [simp]: "without_client (pool_init ps (c, w)) = pool_init ps w"
  by (simp add: without_client_def pool_init_def)

lemma map_world_snd: "map_world snd = without_client"
  by (simp add: fun_eq_iff map_world_def without_client_def)

lemma reconciles_typed:
  "reaches env do c0 servers \<Longrightarrow>
   pool_all (effects_only (kea_only typed)) (client_ok env do c0 servers) (pool_init (reconciles lib ord v reqs) (c0, w))"
  using typed.Reconcile_ok by (auto simp: pool_all_def client_ok_def pool_init_def reconciles_def)


section \<open>Subnets stored through the client\<close>

text \<open>A server that keeps the subnets \<open>subs\<close>: a listing shows them or fails, an accepted add
  stores one more, and a command without a reply was not carried out; the text of such a
  failure is not mistaken for the service's own error.\<close>

definition stores_subnets :: "('w \<Rightarrow> (string \<times> int) list) \<Rightarrow> string \<times> 'w kea_server \<Rightarrow> bool" where
  "stores_subnets subs server \<longleftrightarrow>
     (case server of (base, srv) \<Rightarrow>
       (\<forall>w s w'. srv (Marshal subnet4_list) w = (s, w') \<longrightarrow> w' = w \<and>
          (case s of Reply r \<Rightarrow> list_reply (map_of (subs w)) (Inr (decoded r)) \<or> list_failure (Inr (decoded r))
           | _ \<Rightarrow> \<not> Contains (''all KEA servers failed: '' @ gave_up base s) ''no matching Kea subnet'')) \<and>
       (\<forall>cfg i w s w'. srv (Marshal (subnet4_add cfg i)) w = (s, w') \<longrightarrow>
          (case s of
             Reply r \<Rightarrow> subs w' = subs w @ [(sc_Subnet cfg, i)] \<or> subs w' = subs w \<and> Result r \<noteq> 0
           | _ \<Rightarrow> subs w' = subs w)))"

lemma stores_subnetsD:
  assumes "stores_subnets subs (base, srv)"
  shows "srv (Marshal subnet4_list) w = (s, w') \<Longrightarrow> w' = w \<and>
      (case s of Reply r \<Rightarrow> list_reply (map_of (subs w)) (Inr (decoded r)) \<or> list_failure (Inr (decoded r))
       | _ \<Rightarrow> \<not> Contains (''all KEA servers failed: '' @ gave_up base s) ''no matching Kea subnet'')"
    "srv (Marshal (subnet4_add cfg i)) w = (s, w') \<Longrightarrow>
      (case s of Reply r \<Rightarrow> subs w' = subs w @ [(sc_Subnet cfg, i)] \<or> subs w' = subs w \<and> Result r \<noteq> 0
       | _ \<Rightarrow> subs w' = subs w)"
  using assms unfolding stores_subnets_def prod.case by blast+

lemma list_failure_Inl: "\<not> Contains e ''no matching Kea subnet'' \<Longrightarrow> list_failure (Inl e)"
  by (simp add: list_failure_def subnetID_of_def)

lemma first_reply_list:
  assumes "list_all (stores_subnets subs) servers"
    "servers = [] \<longrightarrow> \<not> Contains (''all KEA servers failed: '' @ e) ''no matching Kea subnet''"
  shows "snd (first_reply servers e subnet4_list w) = w \<and>
    (list_reply (map_of (subs w)) (fst (first_reply servers e subnet4_list w)) \<or>
     list_failure (fst (first_reply servers e subnet4_list w)))"
  using assms
proof (induction servers arbitrary: e)
  case (Cons server servers)
  obtain base srv where b: "server = (base, srv)" by fastforce
  obtain s w' where s: "srv (Marshal subnet4_list) w = (s, w')" by fastforce
  have r: "w' = w \<and> (case s of Reply r \<Rightarrow> list_reply (map_of (subs w)) (Inr (decoded r)) \<or> list_failure (Inr (decoded r))
      | _ \<Rightarrow> \<not> Contains (''all KEA servers failed: '' @ gave_up base s) ''no matching Kea subnet'')"
    using Cons.prems(1) stores_subnetsD(1) [of subs base srv w s w'] s b by simp
  show ?case
  proof (cases s)
    case (Reply resp)
    then show ?thesis using s b r by simp
  qed (use Cons.IH [of "gave_up base s"] Cons.prems(1) s b r in simp)+
qed (simp add: list_failure_Inl)

lemma first_reply_add:
  assumes "list_all (stores_subnets subs) servers" "first_reply servers e (subnet4_add cfg i) w = (x, w')"
  shows "subs w' = subs w @ [(sc_Subnet cfg, i)] \<or> subs w' = subs w \<and> \<not> accepted x"
  using assms
proof (induction servers arbitrary: e w)
  case (Cons server servers)
  obtain base srv where b: "server = (base, srv)" by fastforce
  obtain s w1 where s: "srv (Marshal (subnet4_add cfg i)) w = (s, w1)" by fastforce
  have r: "case s of Reply r \<Rightarrow> subs w1 = subs w @ [(sc_Subnet cfg, i)] \<or> subs w1 = subs w \<and> Result r \<noteq> 0
      | _ \<Rightarrow> subs w1 = subs w"
    using Cons.prems(1) stores_subnetsD(2) [of subs base srv cfg i w s w1] s b by simp
  show ?case
  proof (cases s)
    case (Reply resp)
    then show ?thesis using Cons.prems(2) s b r by (auto simp: accepted_def decoded_def)
  qed (use Cons s b r in force)+
qed (auto simp: accepted_def)

lemma first_reply_subnet_server:
  assumes "list_all (stores_subnets subs) servers" "servers \<noteq> []"
  shows "subnet_server (first_reply servers []) subs"
  using first_reply_list [OF assms(1), of "[]"] first_reply_add [OF assms(1)] assms(2)
  unfolding subnet_server_def by (metis fst_conv snd_conv)

text \<open>Over the client and such servers too no prefix is stored twice, whatever the network
  does between them.\<close>

lemma Reconciles_over_http_no_duplicates:
  assumes net: "reaches env do c0 servers" and store: "list_all (stores_subnets subs) servers"
    and api: "api_rel W (\<lambda>w w'. subs w' = subs w)"
    and rest: "\<And>r w. Command r \<noteq> ''subnet4-add'' \<Longrightarrow> subs (snd (first_reply servers [] r w)) = subs w"
    and start: "\<And>c. entries c (subs w) \<le> 1"
    and reach: "pool_reach (over_http env os do W) (pool_init (reconciles lib ord v reqs) (c0, w)) s"
  shows "entries c (subs (snd (p_world s))) \<le> 1"
proof -
  have ne: "servers \<noteq> []" using net by (auto simp: reaches_def urls_of_def)
  have "subnet_world (over_servers servers W) subs"
    using first_reply_subnet_server [OF store ne] api rest by (simp add: subnet_world_def over_servers_def api_rel_def)
  moreover have "pool_reach (over_servers servers W) (pool_init (reconciles lib ord v reqs) w) (without_client s)"
    using http.reach_abs [OF reach reconciles_typed [OF net]] unfolding map_world_snd without_client_init by blast
  ultimately show ?thesis
    using reconciles_no_duplicates [of "over_servers servers W" subs w lib ord v reqs "without_client s" c] start
    by (simp add: without_client_def)
qed

text \<open>The premise on commands without a reply is needed: \<open>Send\<close> repeats a command at the
  secondary also if the primary carried it out and only its reply was lost. Two servers
  over one store, of which the first loses its replies to adds and neither checks for
  duplicates, store the prefix twice in a single call.\<close>

definition command_of :: "jval \<Rightarrow> string" where
  "command_of j = (case j of JObj ((c, JStr cmd) # rest) \<Rightarrow> cmd | _ \<Rightarrow> [])"

definition adding_kea :: "bool \<Rightarrow> (string \<times> int) list kea_server" where
  "adding_kea lossy j subs =
     (if command_of j = ''subnet4-add''
      then (if lossy then Unread ''unexpected EOF'' else Reply zero_Response, subs @ [(''10.0.0.0/24'', 1)])
      else (Reply (subnetListResponse subs), subs))"

lemma lost_reply_repeats:
  "run (first_reply [(''http://kea1:8000'', adding_kea True), (''http://kea2:8000'', adding_kea False)] [])
     (GetOrCreateSubnet demo_cfg) [] = (Inr (1, True), [(''10.0.0.0/24'', 1), (''10.0.0.0/24'', 1)])"
  by code_simp

section \<open>A concrete network\<close>

text \<open>A primary that refuses connections and a secondary that knows one subnet.\<close>

definition demo_listing :: Response where
  "demo_listing = \<lparr>Result = 0, Text = [], Arguments = [(''subnets'', GoSlice
     [GoMap [(''id'', GoFloat 7), (''subnet'', GoString ''10.0.0.0/24'')]])]\<rparr>"

definition refusing_kea :: "'w kea_server" where
  "refusing_kea j w = (Unreachable ''connection refused'', w)"

definition listing_kea :: "'w kea_server" where
  "listing_kea j w = (Reply (if command_of j = ''subnet4-list'' then demo_listing else zero_Response), w)"

definition demo_servers :: "(string \<times> 'w kea_server) list" where
  "demo_servers = [(''http://kea1:8000'', refusing_kea), (''http://kea2:8000'', listing_kea)]"

definition network_of :: "(string \<times> 'w kea_server) list \<Rightarrow> 'w http_Do" where
  "network_of servers hc r w =
     (case map_of servers (butlast (hr_URL r)) of
        None \<Rightarrow> (DoErr ''no route to host'', w)
      | Some srv \<Rightarrow>
          (case srv (hr_Body r) w of
             (Unreachable e, w') \<Rightarrow> (DoErr e, w')
           | (Unread e, w') \<Rightarrow> (ReadErr e, w')
           | (Reply x, w') \<Rightarrow> (Body (json_text (JArr [encResponse x])), w')))"

lemma serves_network:
  assumes "map_of servers base = Some srv" "\<And>j w x w'. srv j w = (Reply x, w') \<Longrightarrow> plain_response x"
  shows "serves (network_of servers) c base srv"
  using assms
  by (auto simp: serves_def network_of_def mkHTTPRequest_def delivers_def bodies_def split: served.splits prod.splits)

lemma plain_demo: "plain_response demo_listing" "plain_response zero_Response"
  by (simp_all add: plain_response_def demo_listing_def zero_Response_def encResponse_def ascii_def maxNestingDepth_def
    f64_of_int_small)

lemma demo_reaches: "reaches demo_env (network_of demo_servers) demo_client demo_servers"
proof -
  have u: "urls_of demo_client = [''kea1'', ''http://kea2'']" by code_simp
  have b: "buildBaseURL demo_env (demo_client\<lparr>kc_BaseUrl := ''kea1''\<rparr>) = Inr ''http://kea1:8000''"
    "buildBaseURL demo_env (demo_client\<lparr>kc_BaseUrl := ''http://kea2''\<rparr>) = Inr ''http://kea2:8000''"
    "http_NewRequest demo_env (''http://kea1:8000'' @ ''/'') = None" "http_NewRequest demo_env (''http://kea2:8000'' @ ''/'') = None"
    by code_simp+
  have "serves (network_of demo_servers) demo_client ''http://kea1:8000'' refusing_kea"
    by (rule serves_network) (simp_all add: demo_servers_def refusing_kea_def)
  moreover have "serves (network_of demo_servers) demo_client ''http://kea2:8000'' listing_kea"
    using plain_demo by (intro serves_network) (auto simp: demo_servers_def listing_kea_def split: if_splits)
  ultimately show ?thesis using b unfolding reaches_def u demo_servers_def by simp
qed

lemma ended_with: "list_all2 (\<lambda>p r. case p of CRet x \<Rightarrow> x = r | _ \<Rightarrow> False) ps rs \<Longrightarrow> ps = map CRet rs"
  by (induction rule: list_all2_induct) (auto split: cprog.splits)

definition demo_end :: "(reconcileResult, demoWorld) pool" where
  "demo_end = schedule (over_servers demo_servers demo_ops) (replicate 40 0)
     (pool_init (reconciles demo_lib rev demo_viper [(''ns1'', ''vm1'')]) demo_world)"

lemma demo_end_progs: "p_progs demo_end = [CRet (retryAfter RequeueDelayError)]"
proof -
  have "list_all2 (\<lambda>p r. case p of CRet x \<Rightarrow> x = r | _ \<Rightarrow> False) (p_progs demo_end) [retryAfter RequeueDelayError]"
    by code_simp
  then show ?thesis using ended_with by fastforce
qed


end
