(* ===== verification/UnitTests.thy ===== *)
theory UnitTests
  imports ControllerFacts
begin

text \<open>
  The unit tests of the repository, replayed in the model: \<open>service_test.go\<close> and
  \<open>getorcreatesubnet_test.go\<close> of the Kea service, and \<open>mac_extraction_test.go\<close> of the
  controller. A test that calls a function on fixed values is an evaluation of its
  definition; the test that starts eight goroutines is a statement about every number of
  goroutines and every interleaving.
\<close>

section \<open>service_test.go\<close>

text \<open>A client that answers every request alike.\<close>

record fakeKeaClient =
  fk_resp :: Response
  fk_err :: "go_error option"

definition fk_send :: "fakeKeaClient sender" where
  "fk_send cmd f = ((case fk_err f of Some err \<Rightarrow> Inl err | None \<Rightarrow> Inr (fk_resp f)), f)"

definition test_lease :: "string \<Rightarrow> string \<Rightarrow> int \<Rightarrow> go_map" where
  "test_lease mac ip sid =
     [(keaFieldHWAddress, GoString mac), (keaFieldIPAddress, GoString ip), (keaFieldSubnetID, GoInt sid)]"

definition lease_client :: "go_any \<Rightarrow> fakeKeaClient" where
  "lease_client leases = \<lparr>fk_resp = \<lparr>Result = 0, Text = [], Arguments = [(''leases'', leases)]\<rparr>, fk_err = None\<rparr>"

lemma TestGetLeaseIPv4ForMAC_ArrayResponse_PicksLatest:
  "fst (run fk_send (GetLeaseIPv4ForMAC ''00:02:12:34:56:78'') (lease_client (GoSlice
     [GoMap (test_lease ''00:02:12:34:56:78'' ''10.123.0.50'' 1 @ [(''cltt'', GoInt 1000)]),
      GoMap (test_lease ''00:02:12:34:56:78'' ''10.123.0.123'' 1 @ [(''cltt'', GoInt 2000)])]))) =
   Inr (''10.123.0.123'', 1)"
  by code_simp

lemma TestGetLeaseIPv4ForMAC_SingleObject:
  "fst (run fk_send (GetLeaseIPv4ForMAC ''aa:bb:cc:dd:ee:ff'')
     (lease_client (GoMap (test_lease ''aa:bb:cc:dd:ee:ff'' ''10.123.0.200'' 2)))) = Inr (''10.123.0.200'', 2)"
  by code_simp

section \<open>getorcreatesubnet_test.go\<close>

lemma TestGetOrCreateSubnet_ReResolvesWhenCreateRejected:
  "fst (run rk_send (GetOrCreateSubnet demo_cfg) rk_demo) = Inr (5, False)"
  by code_simp

text \<open>All calls are for one configuration; the fake counts the adds and stores what they add.\<close>

lemma statefulKea_counts:
  assumes "conc_reach sk_send (conc_init (\<lambda>_. cfg) sk_empty) s"
  shows "(\<forall>t. calls_only (\<lambda>r. r = subnet4_list \<or> (\<exists>i. r = subnet4_add cfg i)) (c_prog s t)) \<and>
    sk_addCalls (c_world s) = entries (sc_Subnet cfg) (sk_subnets (c_world s))"
  using assms
proof (induction rule: conc_reach.induct)
  case reach_start
  then show ?case
    using GetOrCreateSubnet_calls [of cfg] by (simp add: conc_init_def sk_empty_def entries_def)
next
  case (reach_step s s')
  from reach_step.hyps(2) reach_step.IH show ?case
  proof (cases rule: conc_step.cases)
    case (step_call t r k x w')
    have "calls_only (\<lambda>r. r = subnet4_list \<or> (\<exists>i. r = subnet4_add cfg i)) (Call r k)"
      using reach_step.IH unfolding step_call(2) [symmetric] by blast
    then have r: "r = subnet4_list \<or> (\<exists>i. r = subnet4_add cfg i)"
      and k: "calls_only (\<lambda>r. r = subnet4_list \<or> (\<exists>i. r = subnet4_add cfg i)) (k x)"
      by simp_all
    from r have "sk_addCalls w' = entries (sc_Subnet cfg) (sk_subnets w')"
      using reach_step.IH step_call(3) by (auto simp: sk_send_def)
    then show ?thesis using reach_step.IH step_call(1) k by simp
  next
    case (step_lock t c p l)
    have "calls_only (\<lambda>r. r = subnet4_list \<or> (\<exists>i. r = subnet4_add cfg i)) (Lock c p)"
      using reach_step.IH unfolding step_lock(2) [symmetric] by blast
    then show ?thesis using reach_step.IH step_lock(1) by simp
  next
    case (step_unlock t c p l)
    have "calls_only (\<lambda>r. r = subnet4_list \<or> (\<exists>i. r = subnet4_add cfg i)) (Unlock c p)"
      using reach_step.IH unfolding step_unlock(2) [symmetric] by blast
    then show ?thesis using reach_step.IH step_unlock(1) by simp
  qed
qed

lemma TestGetOrCreateSubnet_ConcurrentSamePrefixCreatesOnce:
  assumes reach: "conc_reach sk_send (conc_init (\<lambda>_. cfg) sk_empty) s"
  shows "sk_addCalls (c_world s) \<le> 1 \<and>
    ((\<exists>t i created. c_prog s t = Return (Inr (i, created))) \<longrightarrow> sk_addCalls (c_world s) = 1)"
proof -
  have "entries c (sk_subnets sk_empty) \<le> 1" for c by (simp add: sk_empty_def entries_def)
  then have inv: "conc_inv sk_subnets (\<lambda>_. cfg) s"
    using conc_inv_reach [OF reach conc_inv_init subnet_server_statefulKea] by blast
  then have "entries (sc_Subnet cfg) (sk_subnets (c_world s)) \<le> 1" by (simp add: conc_inv_def)
  moreover have "entries (sc_Subnet cfg) (sk_subnets (c_world s)) \<noteq> 0"
    if "c_prog s t = Return (Inr (i, created))" for t i created
    using conc_inv_thread [OF inv, of t] that by (auto elim!: thread_okE simp: knows_def entries_zero)
  ultimately show ?thesis using statefulKea_counts [OF reach] by force
qed

text \<open>The eight goroutines of the test, one schedule: each takes six steps, in turn.\<close>

lemma eight_goroutines:
  "sk_addCalls (c_world (sched sk_send (concat (replicate 20 [0, 1, 2, 3, 4, 5, 6, 7]))
     (conc_init (\<lambda>_. demo_cfg) sk_empty))) = 1"
  by code_simp

section \<open>mac_extraction_test.go\<close>

text \<open>The scenarios, on the interfaces the test's converter makes of the specification.\<close>

definition nc_with :: "string list \<Rightarrow> NetworkConfiguration" where
  "nc_with macs = demo_nc\<lparr>nc_Interfaces := map (demo_iface ''eth0'') macs\<rparr>"

lemma TestExtractMACs_Scenarios:
  "extractMACs id (nc_with [''AA-BB-CC-DD-EE-FF'', ''aa:bb:cc:dd:ee:01'', []]) =
     [''aa:bb:cc:dd:ee:ff'', ''aa:bb:cc:dd:ee:01'']"
  "extractMACs id (nc_with []) = []"
  "extractMACs id (nc_with [''AA-BB-CC-DD-EE-0A'', ''aa:bb:cc:dd:ee:0b'']) =
     [''aa:bb:cc:dd:ee:0a'', ''aa:bb:cc:dd:ee:0b'']"
  "extractMACs id (nc_with [''aa:bb:cc:dd:ee:0c'', ''aa:bb:cc:dd:ee:0c'', ''not-a-mac'', ''aa:bb:cc:dd:ee'', []]) =
     [''aa:bb:cc:dd:ee:0c'']"
  by code_simp+

end
