(* ===== verification/TestUtils.thy ===== *)
theory TestUtils
  imports ReservationFacts
begin

text \<open>
  The helpers of the end-to-end tests, \<open>test/utils/utils.go\<close>. They run external commands
  and edit source files. A command is the list of its words; a \<open>runner\<close> runs one over a
  state of the machine and gives its output and error. The helpers take as \<open>run_cmd\<close> the
  runner \<open>Run\<close> makes. Warnings are left out.
\<close>

type_synonym 'w runner = "string list \<Rightarrow> 'w \<Rightarrow> (string \<times> go_error option) \<times> 'w"

section \<open>GetProjectDir and Run\<close>

text \<open>\<open>strings.ReplaceAll\<close> for a text to be replaced that is not empty.\<close>

fun ReplaceAll :: "string \<Rightarrow> string \<Rightarrow> string \<Rightarrow> string" where
  "ReplaceAll [] old new = []"
| "ReplaceAll (c # s) old new =
     (if old \<noteq> [] \<and> has_prefix (c # s) old then new @ ReplaceAll (drop (length old - 1) s) old new
      else c # ReplaceAll s old new)"

definition GetProjectDir :: "string result \<Rightarrow> string result" where
  "GetProjectDir Getwd =
     (case Getwd of
        Inl err \<Rightarrow> Inl (''failed to get current working directory: '' @ err)
      | Inr wd \<Rightarrow> Inr (ReplaceAll wd ''/test/e2e'' []))"

text \<open>\<open>exec\<close> runs a command in a directory, with the environment of the process and one more
  variable. A failing change of directory is only reported.\<close>

definition Run :: "string result \<Rightarrow> (string \<Rightarrow> 'w runner) \<Rightarrow> 'w runner" where
  "Run Getwd exec args w =
     (case exec (result_or [] (GetProjectDir Getwd)) args w of
        ((output, Some err), w') \<Rightarrow>
          ((output, Some (Quote (Join args '' '') @ '' failed with error '' @ Quote output @ '': '' @ err)), w')
      | ((output, None), w') \<Rightarrow> ((output, None), w'))"

section \<open>Cert manager and images\<close>

definition certmanagerURL :: string where
  "certmanagerURL = ''https://github.com/cert-manager/cert-manager/releases/download/v1.18.2/cert-manager.yaml''"

definition UninstallCertManager :: "'w runner \<Rightarrow> 'w \<Rightarrow> 'w" where
  "UninstallCertManager run_cmd w =
     fold (\<lambda>cmd w. snd (run_cmd cmd w))
       ([''kubectl'', ''delete'', ''-f'', certmanagerURL] #
        map (\<lambda>lease. [''kubectl'', ''delete'', ''lease'', lease, ''-n'', ''kube-system'', ''--ignore-not-found'',
               ''--force'', ''--grace-period=0''])
          [''cert-manager-cainjector-leader-election'', ''cert-manager-controller'']) w"

definition InstallCertManager :: "'w runner \<Rightarrow> 'w \<Rightarrow> go_error option \<times> 'w" where
  "InstallCertManager run_cmd w =
     (case run_cmd [''kubectl'', ''apply'', ''-f'', certmanagerURL] w of
        ((_, Some err), w') \<Rightarrow> (Some err, w')
      | ((_, None), w') \<Rightarrow>
          (case run_cmd [''kubectl'', ''wait'', ''deployment.apps/cert-manager-webhook'', ''--for'',
                  ''condition=Available'', ''--namespace'', ''cert-manager'', ''--timeout'', ''5m''] w' of
             ((_, err), w'') \<Rightarrow> (err, w'')))"

definition GetNonEmptyLines :: "string \<Rightarrow> string list" where
  "GetNonEmptyLines output = filter (\<lambda>element. element \<noteq> []) (SplitByte (CHR 0x0A) output)"

definition certManagerCRDs :: "string list" where
  "certManagerCRDs =
     [''certificates.cert-manager.io'', ''issuers.cert-manager.io'', ''clusterissuers.cert-manager.io'',
      ''certificaterequests.cert-manager.io'', ''orders.acme.cert-manager.io'', ''challenges.acme.cert-manager.io'']"

definition IsCertManagerCRDsInstalled :: "'w runner \<Rightarrow> 'w \<Rightarrow> bool \<times> 'w" where
  "IsCertManagerCRDsInstalled run_cmd w =
     (case run_cmd [''kubectl'', ''get'', ''crds''] w of
        ((_, Some err), w') \<Rightarrow> (False, w')
      | ((output, None), w') \<Rightarrow>
          (list_ex (\<lambda>crd. list_ex (\<lambda>line. Contains line crd) (GetNonEmptyLines output)) certManagerCRDs, w'))"

definition LoadImageToKindClusterWithName ::
    "(string \<rightharpoonup> string) \<Rightarrow> 'w runner \<Rightarrow> string \<Rightarrow> 'w \<Rightarrow> go_error option \<times> 'w" where
  "LoadImageToKindClusterWithName LookupEnv run_cmd name w =
     (let cluster = (case LookupEnv ''KIND_CLUSTER'' of Some v \<Rightarrow> v | None \<Rightarrow> ''kind'');
          kindBinary = (case LookupEnv ''KIND'' of Some v \<Rightarrow> v | None \<Rightarrow> ''kind'')
      in (case run_cmd [kindBinary, ''load'', ''docker-image'', name, ''--name'', cluster] w of
            ((_, err), w') \<Rightarrow> (err, w')))"

section \<open>UncommentCode\<close>

fun Index :: "string \<Rightarrow> string \<Rightarrow> nat option" where
  "Index [] sub = (if sub = [] then Some 0 else None)"
| "Index (c # s) sub = (if has_prefix (c # s) sub then Some 0 else map_option Suc (Index s sub))"

definition TrimPrefix :: "string \<Rightarrow> string \<Rightarrow> string" where
  "TrimPrefix s p = (if has_prefix s p then drop (length p) s else s)"

text \<open>The tokens of a \<open>bufio.Scanner\<close>: the lines of a text, each without a carriage return
  at its end, with no empty line after a final newline. The scanner stops at a line that
  does not fit in its buffer of 64 KiB.\<close>

definition dropCR :: "string \<Rightarrow> string" where
  "dropCR l = (if l \<noteq> [] \<and> last l = CHR 0x0D then butlast l else l)"

definition scanLines :: "string \<Rightarrow> string list" where
  "scanLines s =
     (let ls = SplitByte (CHR 0x0A) s
      in map dropCR (takeWhile (\<lambda>l. length l < 65536) (if last ls = [] then butlast ls else ls)))"

text \<open>The file system: \<open>ReadFile\<close> of the name, and \<open>WriteFile\<close> of name and content.\<close>

definition UncommentCode ::
    "(string \<Rightarrow> string result) \<Rightarrow> (string \<Rightarrow> string \<Rightarrow> 'w \<Rightarrow> go_error option \<times> 'w) \<Rightarrow> string \<Rightarrow> string \<Rightarrow> string \<Rightarrow> 'w \<Rightarrow>
     go_error option \<times> 'w" where
  "UncommentCode ReadFile WriteFile filename target pre w =
     (case ReadFile filename of
        Inl err \<Rightarrow> (Some (''failed to read file '' @ Quote filename @ '': '' @ err), w)
      | Inr content \<Rightarrow>
          (case Index content target of
             None \<Rightarrow> (Some (''unable to find the code '' @ Quote target @ '' to be uncomment''), w)
           | Some i \<Rightarrow>
               (let ls = scanLines target in
                if ls = [] then (None, w)
                else
                  let out = take i content @ Join (map (\<lambda>l. TrimPrefix l pre) ls) [CHR 0x0A] @ drop (i + length target) content
                  in (case WriteFile filename out w of
                        (Some err, w') \<Rightarrow> (Some (''failed to write file '' @ Quote filename @ '': '' @ err), w')
                      | (None, w') \<Rightarrow> (None, w')))))"

section \<open>Properties\<close>

lemma SplitByte_lines:
  "ls \<noteq> [] \<Longrightarrow> \<forall>l\<in>set ls. c \<notin> set l \<Longrightarrow> SplitByte c (Join ls [c]) = ls"
proof (induction ls "[c]" rule: Join.induct)
  case (3 x y xs)
  then show ?case using SplitByte_append [of c x "Join (y # xs) [c]"] by simp
qed (simp_all add: SplitByte_no_sep)

lemma GetNonEmptyLines_Join:
  assumes "\<forall>l\<in>set ls. CHR 0x0A \<notin> set l"
  shows "GetNonEmptyLines (Join ls [CHR 0x0A]) = filter (\<lambda>l. l \<noteq> []) ls"
  using assms by (cases "ls = []") (simp_all add: GetNonEmptyLines_def SplitByte_lines)

lemma scanLines_Join:
  assumes "ls \<noteq> []" "last ls \<noteq> []" "\<forall>l\<in>set ls. CHR 0x0A \<notin> set l \<and> length l < 65536 \<and> (l \<noteq> [] \<longrightarrow> last l \<noteq> CHR 0x0D)"
  shows "scanLines (Join ls [CHR 0x0A]) = ls"
proof -
  have t: "takeWhile (\<lambda>l. length l < 65536) ls = ls" using assms(3) by (simp add: takeWhile_eq_all_conv)
  have d: "map dropCR ls = ls" using assms(3) by (intro map_idI) (auto simp: dropCR_def)
  have "SplitByte (CHR 0x0A) (Join ls [CHR 0x0A]) = ls" using assms(1,3) by (simp add: SplitByte_lines)
  then show ?thesis using assms(2) by (simp only: scanLines_def Let_def if_False t d)
qed

lemma TrimPrefix_append: "TrimPrefix (p @ l) p = l"
  by (simp add: TrimPrefix_def has_prefix_iff)

text \<open>Removing the comment marks undoes commenting: if the first occurrence of the
  commented lines is between \<open>a\<close> and \<open>b\<close>, the file then holds the lines themselves there.\<close>

lemma UncommentCode_undoes:
  assumes rd: "ReadFile f = Inr (a @ Join (map ((@) pre) ls) [CHR 0x0A] @ b)"
    and first: "Index (a @ Join (map ((@) pre) ls) [CHR 0x0A] @ b) (Join (map ((@) pre) ls) [CHR 0x0A]) = Some (length a)"
    and ls: "ls \<noteq> []" "\<forall>l\<in>set ls. l \<noteq> [] \<and> CHR 0x0A \<notin> set (pre @ l) \<and> length (pre @ l) < 65536 \<and> last l \<noteq> CHR 0x0D"
    and wr: "WriteFile f (a @ Join ls [CHR 0x0A] @ b) w = (None, w')"
  shows "UncommentCode ReadFile WriteFile f (Join (map ((@) pre) ls) [CHR 0x0A]) pre w = (None, w')"
proof -
  have "scanLines (Join (map ((@) pre) ls) [CHR 0x0A]) = map ((@) pre) ls"
    using ls by (intro scanLines_Join) (auto simp: last_map)
  then show ?thesis using rd first ls(1) wr by (simp add: UncommentCode_def TrimPrefix_append Let_def comp_def)
qed

text \<open>A newline at the end of the target is lost.\<close>

lemma UncommentCode_newline:
  "UncommentCode (\<lambda>_. Inr [CHR ''a'', CHR ''#'', CHR ''b'', CHR 0x0A, CHR ''c'']) (\<lambda>_ out w. (None, out)) ''f''
     [CHR ''#'', CHR ''b'', CHR 0x0A] ''#'' [] = (None, ''abc'')"
  by (simp add: UncommentCode_def scanLines_def dropCR_def TrimPrefix_def)

end
