(* ===== verification/Spec2Isabelle.thy ===== *)
theory Spec2Isabelle
  imports SubnetUtil SubnetLock ControllerStatusFacts ReserveFacts MainCmd UnstructuredConv RequestTypes OverHttp UnitTests TestUtils
begin

text \<open>
  A verification development for the kea-operator, a Kubernetes operator that keeps DHCP
  reservations in a Kea server in step with \<open>NetworkConfiguration\<close> resources.

  \<^bold>\<open>The program.\<close> A reconcile (\<open>internal/controller/v1alpha1\<close>) reads a resource and its
  network namespace, decides whether the resource belongs to this operator, computes a pool
  from the namespace's prefix (\<open>internal/util/subnet\<close>), asks the Kea service
  (\<open>internal/services/kea\<close>) for the subnet of the prefix, creating it if needed, and for a
  reservation of each MAC address, and reports in the resource's status. The service sends
  its commands through the interface of \<open>pkg/interfaces/keainterface\<close>, implemented by the
  HTTP client of \<open>pkg/clients/keaclient\<close>, which the startup code (\<open>internal/clients\<close>,
  \<open>internal/services/initialchecks\<close>, \<open>internal/settings\<close>, \<open>cmd\<close>) builds and probes.
  Several reconciles run at once and share the service and the client.

  \<^bold>\<open>The theories\<close>, in the order in which they build on each other:

  \<^item> \<open>Prelude\<close>, \<open>GoStrings\<close>, \<open>GoNet\<close>: results and errors, association lists, 64-bit wrap-around,
    and the functions of Go's packages \<open>strings\<close>, \<open>strconv\<close> and \<open>net\<close> that the code calls.
    An \<open>error\<close> is its message; an address is a list of 8-bit words. Strings are lists of
    bytes, and case folding is that of ASCII.
  \<^item> \<open>SubnetUtil\<close>: \<open>subnet.go\<close>. Pools lie in their network and parse back; where the byte
    arithmetic wraps and where an IPv4-mapped prefix goes wrong.
  \<^item> \<open>KeaModels\<close>, \<open>KeaInterface\<close>: the structs of \<open>keamodels.go\<close>, dynamic values (\<open>go_any\<close>) and
    the interface \<open>KeaClient\<close>. Code over the interface is a request program (\<open>prog\<close>), which
    \<open>run\<close> executes over any client; the locales \<open>kea_frame\<close> and \<open>kea_client\<close> are what a
    caller may rely on.
  \<^item> \<open>KeaService\<close>, \<open>KeaServiceFacts\<close>, \<open>ReservationFacts\<close>: every method of \<open>service.go\<close>. Which
    requests a method can send; which reply backs each result; ids of new subnets are
    fresh; ensuring and deleting a reservation against a server that stores them; the lease
    that is chosen; subnet details are read back as written.
  \<^item> \<open>SubnetLock\<close>: the table of mutexes (locale \<open>keyed_lock\<close>, interpreted on
    \<open>subnetLock\<close>) and an interleaving semantics of any number of service calls over a server
    that may fail: no prefix is stored twice and there is no deadlock.
  \<^item> \<open>GoJSON\<close>, \<open>GoJSONFacts\<close>: the decoder of \<open>encoding/json\<close>, from text to trees to dynamic
    values, and the proof that it reads back what a printer of JSON writes.
  \<^item> \<open>GoURL\<close>: parsing and printing of URLs of the form \<open>scheme://host[:port][/path]\<close>, hosts and
    ports.
  \<^item> \<open>KeaClient\<close>, \<open>KeaClientFacts\<close>: \<open>keaclient.go\<close>: decoding of replies, addresses, the
    transport, failover. The client is an instance of the locale \<open>kea_client\<close> with the
    invariant that its configuration does not change; its transport is a cache of the
    configuration, with the fingerprints that miss a change.
  \<^item> \<open>Consts\<close>, \<open>KeaOptions\<close>, \<open>Startup\<close>: \<open>consts.go\<close>, \<open>keaoptions.go\<close>, the constructors,
    \<open>clients.go\<close>, \<open>keasecret.go\<close>, \<open>initialchecks.go\<close> and \<open>settings.go\<close>.
  \<^item> \<open>ReconcileProg\<close>, \<open>Controller\<close>: the resources, programs over Kea, the Kubernetes API, the
    clock and the set of warnings (\<open>cprog\<close>), and every method of the reconciler as such a
    program. \<open>runC\<close> gives the result, \<open>trace\<close> the effects of a run.
  \<^item> \<open>ControllerFacts\<close>, \<open>ControllerStatusFacts\<close>: which MACs are handled, what is recorded for
    them, which effects happen for which resource, deletion, status updates. The locales
    \<open>claim_requests\<close>, \<open>deletion_requests\<close> and \<open>reconcile_requests\<close> carry what is known of the
    requests of the Kea service over to those of a reconcile.
  \<^item> \<open>RequestTypes\<close>: the fields and types of the arguments of each command of Kea, and that
    every message sent has them.
  \<^item> \<open>Pool\<close>, \<open>PoolFacts\<close>: any number of programs run interleaved, one effect at a time, over
    one world and the mutexes of the Kea service. The locale \<open>pool_logic\<close> takes what single
    effects keep of an invariant over to all runs; it is interpreted twice, for whole
    reconciles: they cannot deadlock and always end, and no prefix is stored twice.
  \<^item> \<open>ReserveFacts\<close>: what reconciles do to the reservations stored in Kea, also when others
    change them in between (a reconcile over a world that is disturbed after each effect).
  \<^item> \<open>OverHttp\<close>: reconciles composed with the HTTP client. The locale \<open>pool_simulation\<close> relates
    the runs over two worlds; its interpretation shows that reconciles over \<open>Send\<close> have the
    same runs as over the servers themselves, of which the first that replies decides. Facts
    about reconciles then hold of the running operator, as shown for stored subnets.
  \<^item> \<open>MainCmd\<close>, \<open>UnstructuredConv\<close>: \<open>cmd/main.go\<close> with its command line, server options and
    start sequence; the conversions of \<open>unstructuredconv.go\<close>.
  \<^item> \<open>UnitTests\<close>: the repository's unit tests, replayed in the model.
  \<^item> \<open>TestUtils\<close>: the helpers of the end-to-end tests, \<open>test/utils/utils.go\<close>.
  \<^item> this theory: properties that span the controller, the service and Kea's stored
    reservations: a reconcile that reports success has reserved every MAC, alone and among
    others, and what a deletion removes.

  \<^bold>\<open>Bounds.\<close> Programs are finite trees, so no fuel is needed; the only loop with a bound of
  its own is the startup probe, which has the code's five attempts. Go's \<open>int\<close> is an \<open>int\<close>
  with wrap-around written out where a sum is formed; conversion from a JSON number
  (\<open>float64\<close>, an exact rational here) truncates and wraps to 64 bits.

  \<^bold>\<open>Parameters.\<close> What the repository does not contain is an argument: the parsing of URLs
  that are not plain, the HTTP round trip, files and X.509 routines (\<open>netEnv\<close>, \<open>osEnv\<close>),
  the configuration library (\<open>viper\<close>), the Kubernetes API and clock (\<open>worldOps\<close>), the
  functions of \<open>vitistack/common\<close> (\<open>vitiLib\<close>), flags of other packages, and the order of
  iteration over a map (\<open>ord\<close>). Assumptions about Kea are predicates: \<open>subnet_server\<close>,
  \<open>host_server\<close>, \<open>kea_ids\<close>, and with the rest of the world \<open>kea_world\<close>, \<open>store_world\<close> and
  \<open>subnet_world\<close>, and of the network \<open>reaches\<close>; each is met by a concrete server in a witness.

  \<^bold>\<open>Not modelled\<close>: logging, contexts and timeouts (a timeout is an error of \<open>Send\<close>), sleeping,
  the loading of \<open>.env\<close> files, the difference between nil and empty slices and maps, folding
  of letters outside ASCII, the Go memory model (accesses to the client's fields by several
  goroutines are studied only for \<open>BaseUrl\<close>), the objects of controller-runtime that
  \<open>SetupWithManager\<close> and \<open>NewNetworkConfigurationReconciler\<close> wire together. In interleaved
  runs an effect (one request, one call of the Kubernetes API) is one step, and the client
  behind the requests is part of the world. The number of workers is not bounded, so the
  results hold for every value of \<open>MaxConcurrentReconciles\<close>. The end-to-end tests themselves are
  left out.
\<close>

section \<open>From the controller to Kea's reservations\<close>

text \<open>
  The world a reconcile runs in when nothing else changes it: Kea stores reservations as
  \<open>host_server\<close> says, and the Kubernetes API, the clock, the set of warnings and every
  Kea command except those that add or delete a reservation leave them alone.
\<close>

definition world_keeps :: "'w worldOps \<Rightarrow> ('w \<Rightarrow> host list) \<Rightarrow> bool" where
  "world_keeps W hosts \<longleftrightarrow>
     (\<forall>r w. \<not> host_write r \<longrightarrow> hosts (snd (w_kea W r w)) = hosts w) \<and>
     api_rel W (\<lambda>w w'. hosts w' = hosts w)"

definition kea_world :: "'w worldOps \<Rightarrow> ('w \<Rightarrow> host list) \<Rightarrow> bool" where
  "kea_world W hosts \<longleftrightarrow> host_server (w_kea W) hosts \<and> world_keeps W hosts \<and> kea_ids (w_kea W)"

lemma world_keeps_runC:
  assumes W: "world_keeps W hosts"
  shows "effects_only (kea_only (\<lambda>r. \<not> host_write r)) p \<Longrightarrow> hosts (snd (runC W p w)) = hosts w"
proof (induction p arbitrary: w rule: step_induct)
  case (step p)
  show ?case
  proof (cases rule: perform_cases [where p = p and W = W and w = w])
    case (mutex b c p')
    then show ?thesis using step.IH [of p'] step.prems by (simp add: after.intros)
  next
    case (effect p' w')
    note e = effects_only_perform [OF step.prems effect]
    have "hosts w' = hosts w"
    proof (cases "\<exists>r k. p = CKea r k")
      case True
      then show ?thesis using e effect W by (auto simp: world_keeps_def map_prod_id_eq) (metis snd_conv)
    qed (use perform_api(1) [OF effect, of "\<lambda>w w'. hosts w' = hosts w"] W in \<open>auto simp: world_keeps_def\<close>)
    then show ?thesis using step.IH [OF perform_after [OF effect]] e runC_perform [OF effect] by simp
  qed simp
qed

lemma reads_keep:
  assumes "world_keeps W hosts" "calls_only read_cmd p"
  shows "hosts (snd (run (w_kea W) p w)) = hosts w"
proof -
  have "\<not> host_write r" if "read_cmd r" for r using that by (auto simp: read_cmd_def host_write_def)
  then show ?thesis using world_keeps_runC [OF assms(1) kea_reads [OF assms(2)], of w] by simp
qed

text \<open>Such a world keeps the reservations of every MAC.\<close>

lemma store_world_kea:
  assumes W: "kea_world W hosts"
  shows "store_world M W hosts"
  unfolding store_world_def
proof (intro conjI ballI allI impI)
  have srv: "host_server (w_kea W) hosts" and keeps: "world_keeps W hosts" using W by (simp_all add: kea_world_def)
  show "hosts_reply (filter (\<lambda>h. fst h = mac) (hosts w')) x" if "w_kea W (reservationGetByID mac) w = (x, w')" for mac w x w'
  proof -
    obtain y where "w_kea W (reservationGetByID mac) w = (y, w)" "hosts_reply (filter (\<lambda>h. fst h = mac) (hosts w)) y"
      using srv unfolding host_server_def by blast
    then show ?thesis using that by simp
  qed
  show "(mac, i, TrimSpace ip) \<in> set (hosts w')"
    if "w_kea W (reservation_add mac i ip) w = (Inr resp, w')" "Result resp = 0" for mac i ip w resp w'
  proof -
    obtain resp' w'' where "w_kea W (reservation_add mac i ip) w = (Inr resp', w'')"
      "hosts w'' = (if Result resp' = 0 then hosts w @ [(mac, i, TrimSpace ip)] else hosts w)"
      by (rule host_server_add [OF srv])
    then show ?thesis using that by simp
  qed
  show "kept M (hosts w) (hosts (snd (w_kea W r w)))" if "spares M r" for r w
    using that unfolding spares_def
  proof (elim disjE exE conjE)
    assume "\<not> host_write r"
    then show ?thesis using keeps by (simp add: world_keeps_def)
  next
    fix mac i ip assume r: "r = reservation_add mac i ip"
    obtain resp w' where "w_kea W r w = (Inr resp, w')"
      "hosts w' = (if Result resp = 0 then hosts w @ [(mac, i, TrimSpace ip)] else hosts w)"
      unfolding r by (rule host_server_add [OF srv])
    then show ?thesis by (simp add: kept_def)
  next
    fix mac i assume r: "r = reservation_del mac i" "mac \<notin> M"
    obtain resp w' where "w_kea W r w = (Inr resp, w')"
      "hosts w' = (if Result resp = 0 then filter (\<lambda>h. \<not> (fst h = mac \<and> fst (snd h) = i)) (hosts w) else hosts w)"
      using srv r(1) unfolding host_server_def by blast
    then show ?thesis using r(2) by (auto simp: kept_def)
  qed
  show "api_rel W (\<lambda>w w'. kept M (hosts w) (hosts w'))"
    using keeps by (auto simp: world_keeps_def elim!: api_rel_mono)
  show "kea_ids (w_kea W)" using W by (simp add: kea_world_def)
qed

text \<open>
  C38: a reconcile that reports full success has done its work. If it ends with the long
  requeue delay and no error, then every interface of the resource that has a valid MAC
  has a reservation in Kea, and no reservation was lost on the way.
\<close>

theorem Reconcile_success_reserves:
  assumes W: "kea_world W hosts" and ord: "map_order ord" and req: "\<And>e. snd (Requeue lib e) \<noteq> None"
    and nc: "w_getNC W ns name w = (Inr nc, w0)"
    and run: "runC W (Reconcile lib ord v ns name) w = (success, w')"
  shows "set (hosts w) \<subseteq> set (hosts w') \<and>
    (\<forall>ni\<in>set (nc_Interfaces nc). ParseMAC_ok (statusMAC ni) \<longrightarrow> (\<exists>sid. reserved (hosts w') (statusMAC ni) sid))"
proof -
  obtain k where k: "Reconcile lib ord v ns name = CGetNC ns name k" by (simp add: Reconcile_def)
  have "runC W (k (Inr nc)) w0 = (success, w')" using run nc k by simp
  note rest = Reconcile_rest_reserves [OF store_world_kea [OF W] ord subset_UNIV req k this]
  have "hosts (snd (w_getNC W ns name w)) = hosts w" using W unfolding kea_world_def world_keeps_def api_rel_def by blast
  then have "hosts w0 = hosts w" using nc by simp
  then show ?thesis using rest unfolding extractMACs_eq [OF ord] kept_UNIV by auto
qed

text \<open>A Kea server with one subnet and two leases that stores reservations.\<close>

definition lease_kea :: "demoWorld sender" where
  "lease_kea r w =
     (if Command r = ''subnet4-list'' then
        (Inr \<lparr>Result = 0, Text = [], Arguments = [(''subnets'', GoSlice [
           GoMap [(''id'', GoFloat 7), (''subnet'', GoString ''10.0.0.0/24'')]])]\<rparr>, w)
      else if Command r = ''lease4-get-by-hw-address'' then
        (Inr \<lparr>Result = 0, Text = [], Arguments = [(''leases'', GoSlice (map host_json
           [(''aa:bb:cc:dd:ee:ff'', 7, ''10.0.0.9''), (''aa:bb:cc:dd:ee:01'', 7, ''10.0.0.10'')]))]\<rparr>, w)
      else (case hk_send r (dw_hosts w) of (x, hs) \<Rightarrow> (x, w\<lparr>dw_hosts := hs\<rparr>)))"

definition lease_ops :: "demoWorld worldOps" where
  "lease_ops = demo_ops\<lparr>w_kea := lease_kea\<rparr>"

lemma hk_send_keeps: "\<not> host_write r \<Longrightarrow> snd (hk_send r hs) = hs"
  by (simp add: hk_send_def host_write_def)

lemma host_json_sid: "host_json h = GoMap m \<Longrightarrow> \<exists>f. idx m keaFieldSubnetID = GoFloat f"
  by (auto simp: host_json_def idx_def split: prod.splits)

lemma lease_kea_ids: "kea_ids lease_kea"
proof -
  have "(\<forall>m\<in>listed resp ''subnets''. \<exists>i. 0 < i \<and> i < 2 ^ 32 \<and> idx m ''id'' = GoFloat (of_int i)) \<and>
      (\<forall>m\<in>listed resp ''leases'' \<union> listed resp ''hosts''. \<exists>f. idx m keaFieldSubnetID = GoFloat f)"
    if reply: "lease_kea r w = (Inr resp, w')" for r w resp w'
  proof -
    consider "resp = \<lparr>Result = 0, Text = [], Arguments = [(''subnets'', GoSlice [
           GoMap [(''id'', GoFloat (of_int 7)), (''subnet'', GoString ''10.0.0.0/24'')]])]\<rparr>"
      | hs where "resp = \<lparr>Result = 0, Text = [], Arguments = [(''leases'', GoSlice (map host_json hs))]\<rparr>"
      | hs where "resp = \<lparr>Result = 0, Text = [], Arguments = [(''hosts'', GoSlice (map host_json hs))]\<rparr>"
      | "resp = zero_Response"
      using reply by (auto simp: lease_kea_def hk_send_def simp del: list.map split: if_splits)
    then show ?thesis
    proof cases
      case 1
      then show ?thesis by (auto simp: listed_def idx_def intro!: exI [of _ "7::int"])
    next
      case (2 hs)
      then show ?thesis using host_json_sid by (auto simp: listed_def idx_def image_iff)
    next
      case (3 hs)
      then show ?thesis using host_json_sid by (auto simp: listed_def idx_def image_iff)
    qed (simp add: listed_def zero_Response_def idx_def)
  qed
  then show ?thesis unfolding kea_ids_def by blast
qed

lemma kea_world_lease: "kea_world lease_ops dw_hosts"
proof -
  have "host_server lease_kea dw_hosts"
    by (auto simp: host_server_def lease_kea_def hk_send_def hosts_reply_def reservationGetByID_def
      reservation_add_def reservation_del_def reservation_of_def host_of_request_def idx_def str_of_def sid_of_def
      zero_Response_def)
  moreover have "dw_hosts (snd (lease_kea r w)) = dw_hosts w" if "\<not> host_write r" for r w
    using hk_send_keeps [OF that, of "dw_hosts w"] by (auto simp: lease_kea_def split: prod.splits)
  then have "world_keeps lease_ops dw_hosts"
    by (simp add: world_keeps_def api_rel_def lease_ops_def demo_ops_def)
  ultimately show ?thesis using lease_kea_ids by (simp add: kea_world_def lease_ops_def)
qed

theorem Reconcile_success_reserves_witness:
  "\<exists>sid. reserved (dw_hosts (snd (runC lease_ops (Reconcile demo_lib rev demo_viper ''ns1'' ''vm1'') demo_world)))
     ''aa:bb:cc:dd:ee:ff'' sid"
proof -
  let ?run = "runC lease_ops (Reconcile demo_lib rev demo_viper ''ns1'' ''vm1'') demo_world"
  have "fst ?run = success" by code_simp
  then have run: "?run = (success, snd ?run)" by (metis prod.collapse)
  have nc: "w_getNC lease_ops ''ns1'' ''vm1'' demo_world = (Inr demo_nc, demo_world)"
    by (simp add: lease_ops_def demo_ops_def demo_world_def demo_nc_def)
  have "map_order rev" "\<And>e. snd (Requeue demo_lib e) \<noteq> None" by (simp_all add: map_order_def demo_lib_def)
  note Reconcile_success_reserves [OF kea_world_lease this nc run]
  moreover have "ParseMAC_ok (statusMAC (demo_iface ''eth0'' ''AA-BB-CC-DD-EE-FF''))"
    "statusMAC (demo_iface ''eth0'' ''AA-BB-CC-DD-EE-FF'') = ''aa:bb:cc:dd:ee:ff''" by code_simp+
  moreover have "demo_iface ''eth0'' ''AA-BB-CC-DD-EE-FF'' \<in> set (nc_Interfaces demo_nc)" by (simp add: demo_nc_def)
  ultimately show ?thesis by metis
qed

section \<open>Reservations removed by a deletion\<close>

definition deleted_hosts :: "string list \<Rightarrow> int \<Rightarrow> host list \<Rightarrow> host list" where
  "deleted_hosts macs i hs = filter (\<lambda>h. \<not> (fst h \<in> set macs \<and> fst (snd h) = i)) hs"

text \<open>Kea carries out every \<open>reservation-del\<close>.\<close>

definition accepts_del :: "'w sender \<Rightarrow> bool" where
  "accepts_del send \<longleftrightarrow> (\<forall>mac i w. \<exists>resp w'. send (reservation_del mac i) w = (Inr resp, w') \<and> Result resp = 0)"

lemma deleteAll_hosts:
  assumes srv: "host_server (w_kea W) hosts"
  shows "\<forall>m\<in>set macs. normMAC m = m \<and> m \<noteq> [] \<Longrightarrow>
    set (deleted_hosts macs i (hosts w)) \<subseteq> set (hosts (snd (runC W (deleteAll i macs) w))) \<and>
    set (hosts (snd (runC W (deleteAll i macs) w))) \<subseteq> set (hosts w) \<and>
    (accepts_del (w_kea W) \<longrightarrow> hosts (snd (runC W (deleteAll i macs) w)) = deleted_hosts macs i (hosts w))"
proof (induction macs arbitrary: w)
  case Nil
  then show ?case by (simp add: deleted_hosts_def)
next
  case (Cons m macs)
  obtain r w1 where d: "run (w_kea W) (DeleteReservationForMAC m i) w = (r, w1)" by fastforce
  have h: "hosts w1 = (if r = Inr () then filter (\<lambda>h. \<not> (fst h = m \<and> fst (snd h) = i)) (hosts w) else hosts w)"
    using DeleteReservation_hosts [OF srv _ d] Cons.prems by simp
  have ok: "r = Inr ()" if "accepts_del (w_kea W)"
  proof -
    obtain resp w2 where "w_kea W (reservation_del m i) w = (Inr resp, w2)" "Result resp = 0"
      using \<open>accepts_del (w_kea W)\<close> unfolding accepts_del_def by blast
    then show ?thesis using d Cons.prems
      by (auto simp: DeleteReservationForMAC_def reservation_del_def Let_def)
  qed
  show ?case using Cons.IH [of w1] Cons.prems d h ok
    by (auto simp: deleted_hosts_def intro!: filter_cong split: if_splits)
qed

text \<open>
  C39: what a deletion does to Kea's reservations. If the network namespace and its
  subnet are found, nothing is lost but reservations of the resource's own MACs in that
  one subnet, and if Kea carries out the deletions, exactly those are gone. In
  particular a reservation that was made in another subnet, because the MAC's lease was
  there, outlives the resource.
\<close>

theorem handleDeletion_hosts:
  assumes W: "kea_world W hosts" and ord: "map_order ord"
    and nn: "runC W (getNetworkNamespace (nc_Namespace nc) (nc_NetworkNamespaceName nc)) w = (Inr (nn, fb), w1)"
    and sub: "run (w_kea W) (GetSubnetID (nn_IPv4Prefix nn)) w1 = (Inr i, w2)"
    and run: "runC W (handleDeletion lib ord nc) w = (r, w')"
  shows "set (deleted_hosts (extractMACs ord nc) i (hosts w)) \<subseteq> set (hosts w') \<and> set (hosts w') \<subseteq> set (hosts w) \<and>
    (accepts_del (w_kea W) \<longrightarrow> hosts w' = deleted_hosts (extractMACs ord nc) i (hosts w)) \<and>
    (\<forall>mac sid. reserved (hosts w) mac sid \<longrightarrow> sid \<noteq> i \<longrightarrow> reserved (hosts w') mac sid)"
proof -
  have srv: "host_server (w_kea W) hosts" and keeps: "world_keeps W hosts" using W by (simp_all add: kea_world_def)
  have h1: "hosts w1 = hosts w" using world_keeps_runC [OF keeps getNetworkNamespace_kea] nn by (metis snd_conv)
  have h2: "hosts w2 = hosts w1" using reads_keep [OF keeps GetSubnetID_reads] sub by (metis snd_conv)
  obtain u w3 where d: "runC W (deleteAll i (extractMACs ord nc)) w2 = (u, w3)" by (metis prod.exhaust)
  obtain e w4 where f: "w_finalizer W False nc finalizerName w3 = (e, w4)" by fastforce
  have "hosts (snd (w_finalizer W False nc finalizerName w3)) = hosts w3"
    using keeps unfolding world_keeps_def api_rel_def by blast
  then have h4: "hosts w4 = hosts w3" using f by simp
  have "w' = w4"
    using run nn sub d f by (auto simp: handleDeletion_def cleanupReservations_def split: option.splits)
  moreover have "\<forall>m\<in>set (extractMACs ord nc). normMAC m = m \<and> m \<noteq> []"
    using extractMACs_valid [OF ord] by blast
  ultimately have "set (deleted_hosts (extractMACs ord nc) i (hosts w)) \<subseteq> set (hosts w') \<and>
    set (hosts w') \<subseteq> set (hosts w) \<and>
    (accepts_del (w_kea W) \<longrightarrow> hosts w' = deleted_hosts (extractMACs ord nc) i (hosts w))"
    using deleteAll_hosts [OF srv, of "extractMACs ord nc" i w2] d h1 h2 h4 by simp
  moreover from this have "\<forall>mac sid. reserved (hosts w) mac sid \<longrightarrow> sid \<noteq> i \<longrightarrow> reserved (hosts w') mac sid"
    by (auto simp: reserved_def deleted_hosts_def)
  ultimately show ?thesis by blast
qed

definition two_subnets_world :: demoWorld where
  "two_subnets_world = demo_world\<lparr>dw_hosts := [(''aa:bb:cc:dd:ee:ff'', 7, ''10.0.0.9''), (''aa:bb:cc:dd:ee:01'', 9, [])]\<rparr>"

theorem handleDeletion_hosts_witness:
  "reserved (dw_hosts (snd (runC lease_ops (handleDeletion demo_lib rev demo_nc) two_subnets_world)))
     ''aa:bb:cc:dd:ee:01'' 9"
proof -
  have o: "map_order rev" by (simp add: map_order_def)
  have nn: "runC lease_ops (getNetworkNamespace (nc_Namespace demo_nc) (nc_NetworkNamespaceName demo_nc)) two_subnets_world =
      (Inr (demo_nn, False), two_subnets_world)"
    by (simp add: lease_ops_def demo_ops_def two_subnets_world_def demo_world_def demo_nc_def demo_nn_def
      getNetworkNamespace_def)
  have s: "fst (run lease_kea (GetSubnetID (nn_IPv4Prefix demo_nn)) two_subnets_world) = Inr 7" by code_simp
  have k: "w_kea lease_ops = lease_kea" by (simp add: lease_ops_def)
  obtain w2 where sub: "run (w_kea lease_ops) (GetSubnetID (nn_IPv4Prefix demo_nn)) two_subnets_world = (Inr 7, w2)"
    using s unfolding k by (metis prod.collapse)
  have "reserved (dw_hosts two_subnets_world) ''aa:bb:cc:dd:ee:01'' 9"
    by (simp add: two_subnets_world_def reserved_def)
  moreover obtain r w' where run: "runC lease_ops (handleDeletion demo_lib rev demo_nc) two_subnets_world = (r, w')"
    by fastforce
  ultimately show ?thesis
    using handleDeletion_hosts [OF kea_world_lease o nn sub run] by auto
qed

section \<open>Reconciles at once\<close>

text \<open>
  C33: a reconcile that reports full success has done its work also when others run at the
  same time. Let any number of reconciles run interleaved, and let none of the resources
  that are being deleted have a MAC of the resource \<open>nc\<close>. If one of them reads \<open>nc\<close> and later
  ends with the long requeue delay and no error, then from that moment on every interface
  of \<open>nc\<close> with a valid MAC has a reservation in Kea, whatever the others do.
\<close>

theorem Reconciles_success_reserves:
  assumes W: "store_world (set (extractMACs ord nc)) W hosts" and ord: "map_order ord"
    and req: "\<And>e. snd (Requeue lib e) \<noteq> None" and del: "deletions_spare ord W (set (extractMACs ord nc))"
    and reach: "pool_reach W (pool_init (reconciles lib ord v reqs) w) s1"
    and t: "t < length reqs" "p_progs s1 ! t = Reconcile lib ord v ns name"
    and got: "w_getNC W ns name (p_world s1) = (Inr nc, w1)" and step: "pool_step W t s1 = Some s2"
    and rest: "pool_reach W s2 s3" and fin: "p_progs s3 ! t = CRet success"
  shows "\<forall>ni\<in>set (nc_Interfaces nc). ParseMAC_ok (statusMAC ni) \<longrightarrow>
    (\<exists>sid. reserved (hosts (p_world s3)) (statusMAC ni) sid)"
proof -
  let ?M = "set (extractMACs ord nc)" and ?R = "\<lambda>w w'. kept (set (extractMACs ord nc)) (hosts w) (hosts w')"
  let ?Q = "\<lambda>a w. a = success \<longrightarrow> (\<forall>m\<in>?M. \<exists>sid. reserved (hosts w) m sid)"
  obtain k where k: "Reconcile lib ord v ns name = CGetNC ns name k" by (simp add: Reconcile_def)
  have stable: "?Q a w'" if "?R w w'" "?Q a w" for a w w'
    using that reserved_kept [of "hosts w" _ _ ?M "hosts w'"] by blast
  have "all_within W ?M (pool_init (reconciles lib ord v reqs) w)"
    using Reconcile_within [OF ord del] by (auto simp: all_within_def pool_init_def reconciles_def list_all_iff)
  then have within: "all_within W ?M s2" using all_within_reach [OF pool_next [OF reach step] _ W] by blast
  have "t < length (p_progs s1)" using t(1) pool_reach_length [OF reach] by (simp add: pool_init_def reconciles_def)
  then have prog: "p_progs s2 ! t = k (Inr nc)"
    using step t(2) k got by (auto simp: pool_step_def map_prod_def)
  have "safe ?R W ?Q (k (Inr nc)) (p_world s2)"
  proof (rule safe_under)
    fix vs a w' vs'
    assume run: "runC (under ?R W) (k (Inr nc)) (p_world s2, vs) = (a, (w', vs'))"
    show "?Q a w'"
      using Reconcile_rest_reserves [OF store_world_under [OF W] ord subset_refl req k] run by fastforce
  qed
  from safe_reach [OF rest within W stable this [folded prog]]
  have "\<forall>m\<in>?M. \<exists>sid. reserved (hosts (p_world s3)) m sid" using fin by simp
  then show ?thesis unfolding extractMACs_eq [OF ord] by blast
qed

text \<open>A resource to reconcile and one that is being deleted, whose reconciles run in turns.\<close>

definition gone_nc :: NetworkConfiguration where
  "gone_nc = demo_nc\<lparr>nc_Name := ''vm2'', nc_DeletionTimestamp := Some 5,
     nc_Interfaces := [demo_iface ''eth0'' ''02:00:00:00:00:01'']\<rparr>"

definition pair_ops :: "demoWorld worldOps" where
  "pair_ops = lease_ops\<lparr>w_getNC := (\<lambda>ns n w.
     (if n = ''vm1'' then Inr demo_nc else if n = ''vm2'' then Inr gone_nc else Inl NotFound, w))\<rparr>"

definition pair_start :: "(reconcileResult, demoWorld) pool" where
  "pair_start = pool_init (reconciles demo_lib rev demo_viper [(''ns1'', ''vm1''), (''ns1'', ''vm2'')]) demo_world"

definition pair_next :: "(reconcileResult, demoWorld) pool" where
  "pair_next = the (pool_step pair_ops 0 pair_start)"

definition pair_end :: "(reconcileResult, demoWorld) pool" where
  "pair_end = schedule pair_ops (concat (replicate 30 [1, 0])) pair_next"

definition result_of :: "'a cprog \<Rightarrow> 'a option" where
  "result_of p = (case p of CRet a \<Rightarrow> Some a | _ \<Rightarrow> None)"

lemma result_of_Some: "result_of p = Some a \<longleftrightarrow> p = CRet a"
  by (cases p) (auto simp: result_of_def)

lemma pair_end_result: "result_of (p_progs pair_end ! 0) = Some success"
  by code_simp

lemma store_world_pair: "store_world M pair_ops dw_hosts"
proof -
  have "kea_world pair_ops dw_hosts"
    using kea_world_lease by (simp add: kea_world_def pair_ops_def world_keeps_def api_rel_def)
  then show ?thesis by (rule store_world_kea)
qed

theorem Reconciles_success_reserves_witness:
  "\<exists>sid. reserved (dw_hosts (p_world pair_end)) ''aa:bb:cc:dd:ee:ff'' sid"
proof -
  have o: "map_order rev" and r: "\<And>e. snd (Requeue demo_lib e) \<noteq> None" by (simp_all add: map_order_def demo_lib_def)
  have "set (extractMACs rev gone_nc) \<inter> set (extractMACs rev demo_nc) = {}" by code_simp
  moreover have "nc_DeletionTimestamp demo_nc = None" by (simp add: demo_nc_def)
  ultimately have d: "deletions_spare rev pair_ops (set (extractMACs rev demo_nc))"
    by (auto simp: deletions_spare_def pair_ops_def split: if_splits)
  have s: "pool_step pair_ops 0 pair_start = Some pair_next"
    by (simp add: pair_next_def pair_start_def pool_step_def pool_init_def reconciles_def Reconcile_def)
  have g: "w_getNC pair_ops ''ns1'' ''vm1'' (p_world pair_start) = (Inr demo_nc, p_world pair_start)"
    by (simp add: pair_ops_def)
  have p: "p_progs pair_start ! 0 = Reconcile demo_lib rev demo_viper ''ns1'' ''vm1''"
    by (simp add: pair_start_def pool_init_def reconciles_def)
  have e: "pool_reach pair_ops pair_next pair_end" unfolding pair_end_def by (rule schedule_reach) (rule pool_start)
  have "p_progs pair_end ! 0 = CRet success" using pair_end_result by (simp add: result_of_Some)
  moreover have "pool_reach pair_ops (pool_init (reconciles demo_lib rev demo_viper [(''ns1'', ''vm1''), (''ns1'', ''vm2'')])
      demo_world) pair_start" unfolding pair_start_def by (rule pool_start)
  moreover have "0 < length [(''ns1'', ''vm1''), (''ns1'', ''vm2'')]" by simp
  ultimately have "\<forall>ni\<in>set (nc_Interfaces demo_nc). ParseMAC_ok (statusMAC ni) \<longrightarrow>
      (\<exists>sid. reserved (dw_hosts (p_world pair_end)) (statusMAC ni) sid)"
    using Reconciles_success_reserves [OF store_world_pair o r d _ _ p g s e] by blast
  moreover have "ParseMAC_ok (statusMAC (demo_iface ''eth0'' ''AA-BB-CC-DD-EE-FF''))"
    "statusMAC (demo_iface ''eth0'' ''AA-BB-CC-DD-EE-FF'') = ''aa:bb:cc:dd:ee:ff''" by code_simp+
  moreover have "demo_iface ''eth0'' ''AA-BB-CC-DD-EE-FF'' \<in> set (nc_Interfaces demo_nc)" by (simp add: demo_nc_def)
  ultimately show ?thesis by metis
qed

end
